(* ===== verification/Prelude.thy ===== *)
theory Prelude
  imports Main "HOL-Library.Word" "HOL-Library.Sublist"
begin

unbundle bit_operations_syntax

section \<open>Prelude: collections, generic lemmas and the types every part shares\<close>

text \<open>
  This theory holds what the parts of the message service share: the collections of rewrite
  rules (\<open>py_defs\<close> for the string functions of the language, \<open>svc_defs\<close> for the handlers of
  the service layer, \<open>db_simps\<close> for the tables), the association between Python's values and
  HOL's, dictionaries, and lemmas on lists that hold of any program.

  A Python \<open>str\<close> is a list of code points, so that \<open>len(s)\<close> is the length of the list as it is
  in Python. A literal of the source is written \<open>lit ''...''\<close>.
\<close>

named_theorems py_defs "definitions of the string functions"
named_theorems svc_defs "definitions of the handlers of the service layer"
named_theorems db_simps "rewrite rules about rows, tables and statements"

type_synonym pystr = "nat list"
type_synonym uuid = "128 word"

definition lit :: "string \<Rightarrow> pystr" where
  "lit s = map of_char s"

lemma lit_inject [simp]: "lit s = lit t \<longleftrightarrow> s = t"
  by (simp add: lit_def inj_map_eq_map inj_on_def)

lemma lit_Nil [simp]: "lit [] = []"
  by (simp add: lit_def)

lemma lit_Nil_iff [simp]: "lit s = [] \<longleftrightarrow> s = []"  "[] = lit s \<longleftrightarrow> s = []"
  by (auto simp: lit_def)

lemma lit_append: "lit (s @ t) = lit s @ lit t"
  by (simp add: lit_def)

lemma length_lit [simp]: "length (lit s) = length s"
  by (simp add: lit_def)

lemma lit_bound: "c \<in> set (lit s) \<Longrightarrow> c < 256"
  by (auto simp: lit_def of_char_def intro: less_le_trans [OF horner_sum_of_bool_2_less])

subsection \<open>Lists of rows with a key\<close>

text \<open>
  A table is a list of rows, and a column that identifies a row has pairwise different values.
  These lemmas say what selecting, updating and deleting by such a column does.
\<close>

lemma distinct_map_same:
  "distinct (map f xs) \<Longrightarrow> x \<in> set xs \<Longrightarrow> y \<in> set xs \<Longrightarrow> f x = f y \<Longrightarrow> x = y"
  by (auto simp: distinct_map inj_on_def)

lemma filter_key_single:
  "distinct (map f xs) \<Longrightarrow> x \<in> set xs \<Longrightarrow> [y \<leftarrow> xs. f y = f x] = [x]"
proof (induction xs)
  case Nil
  then show ?case by simp
next
  case (Cons z zs)
  then show ?case by (auto simp: filter_empty_conv image_iff)
qed

lemma filter_key_None:
  "k \<notin> f ` set xs \<Longrightarrow> [y \<leftarrow> xs. f y = k] = []"
  by (auto simp: filter_empty_conv)

lemma find_key_Some_iff:
  "distinct (map f xs) \<Longrightarrow> find (\<lambda>y. f y = k) xs = Some x \<longleftrightarrow> x \<in> set xs \<and> f x = k"
  by (induction xs) (auto simp: image_iff)

lemma find_key_None_iff:
  "find (\<lambda>y. f y = k) xs = None \<longleftrightarrow> k \<notin> f ` set xs"
  by (auto simp: find_None_iff)

lemma filter_key_find:
  assumes "distinct (map f xs)"
  shows "[y \<leftarrow> xs. f y = k] = (case find (\<lambda>y. f y = k) xs of None \<Rightarrow> [] | Some x \<Rightarrow> [x])"
proof (cases "find (\<lambda>y. f y = k) xs")
  case None
  then have "k \<notin> f ` set xs" by (simp only: find_key_None_iff not_False_eq_True)
  then have "[y \<leftarrow> xs. f y = k] = []" by (rule filter_key_None)
  with None show ?thesis by simp
next
  case (Some x)
  with assms have "x \<in> set xs" "f x = k" by (simp_all add: find_key_Some_iff)
  with assms Some show ?thesis using filter_key_single [of f xs x] by simp
qed

lemma length_filter_key_le_1:
  "distinct (map f xs) \<Longrightarrow> length [y \<leftarrow> xs. f y = k] \<le> 1"
  by (simp add: filter_key_find split: option.split)

lemma filter_eq_single:
  assumes "length [y \<leftarrow> xs. P y] \<le> 1" and "x \<in> set xs" and "P x"
  shows "[y \<leftarrow> xs. P y] = [x]"
proof -
  from assms(2,3) have "x \<in> set [y \<leftarrow> xs. P y]" by simp
  with assms(1) show ?thesis by (cases "[y \<leftarrow> xs. P y]") auto
qed

subsection \<open>Dictionaries\<close>

text \<open>\<open>d[k] = v\<close> keeps the place of a key that is there; \<open>d.pop(k, None)\<close> removes it.\<close>

fun dict_set :: "pystr \<Rightarrow> 'v \<Rightarrow> (pystr \<times> 'v) list \<Rightarrow> (pystr \<times> 'v) list" where
  "dict_set k v [] = [(k, v)]"
| "dict_set k v ((k', v') # kvs) = (if k' = k then (k, v) # kvs else (k', v') # dict_set k v kvs)"

definition dict_pop :: "pystr \<Rightarrow> (pystr \<times> 'v) list \<Rightarrow> (pystr \<times> 'v) list" where
  "dict_pop k kvs = [(k', v) \<leftarrow> kvs. k' \<noteq> k]"

lemma map_of_dict_set [simp]: "map_of (dict_set k v kvs) = (map_of kvs)(k \<mapsto> v)"
  by (induction k v kvs rule: dict_set.induct) (auto simp: fun_eq_iff)

lemma map_of_dict_pop [simp]: "map_of (dict_pop k kvs) = (map_of kvs)(k := None)"
  by (induction kvs) (auto simp: dict_pop_def fun_eq_iff)

end
