(* ===== verification/PyStr.thy ===== *)
theory PyStr
  imports Prelude
begin

section \<open>The string functions of the language and its standard library\<close>

text \<open>
  The functions of Python's \<open>str\<close>, \<open>int\<close>, \<open>uuid\<close> and \<open>urllib.parse\<close> that the service calls,
  on lists of code points: \<open>strip\<close>, \<open>startswith\<close>, \<open>removeprefix\<close>, \<open>split\<close>, \<open>join\<close>, the decimal
  form of an integer, \<open>isdigit\<close> and \<open>int(...)\<close> of a byte string, the canonical form of a UUID,
  UTF-8 and \<open>quote\<close>. The lemmas give their inverses and the shape of their results.
\<close>

subsection \<open>Whitespace\<close>

text \<open>The code points for which \<open>str.isspace\<close>, \<open>str.strip\<close> and the class \<open>\s\<close> of \<open>re\<close> agree.\<close>

definition py_isspace :: "nat \<Rightarrow> bool" where
  "py_isspace c \<longleftrightarrow>
     9 \<le> c \<and> c \<le> 13 \<or> 28 \<le> c \<and> c \<le> 32 \<or> c = 133 \<or> c = 160 \<or> c = 5760
     \<or> 8192 \<le> c \<and> c \<le> 8202 \<or> c = 8232 \<or> c = 8233 \<or> c = 8239 \<or> c = 8287 \<or> c = 12288"

definition py_strip :: "pystr \<Rightarrow> pystr" where
  "py_strip s = rev (dropWhile py_isspace (rev (dropWhile py_isspace s)))"

definition py_startswith :: "pystr \<Rightarrow> pystr \<Rightarrow> bool" where
  "py_startswith s p \<longleftrightarrow> prefix p s"

definition py_removeprefix :: "pystr \<Rightarrow> pystr \<Rightarrow> pystr" where
  "py_removeprefix s p = (if prefix p s then drop (length p) s else s)"

fun py_split :: "nat \<Rightarrow> pystr \<Rightarrow> pystr list" where
  "py_split sep [] = [[]]"
| "py_split sep (c # cs) =
     (if c = sep then [] # py_split sep cs
      else case py_split sep cs of [] \<Rightarrow> [[c]] | p # ps \<Rightarrow> (c # p) # ps)"

fun py_join :: "pystr \<Rightarrow> pystr list \<Rightarrow> pystr" where
  "py_join sep [] = []"
| "py_join sep [x] = x"
| "py_join sep (x # xs) = x @ sep @ py_join sep xs"

text \<open>A formatted value between single quotes, as in an f-string that names an id.\<close>

definition quoted :: "pystr \<Rightarrow> pystr" where
  "quoted s = [39] @ s @ [39]"

declare py_strip_def [py_defs] py_startswith_def [py_defs] py_removeprefix_def [py_defs]
  quoted_def [py_defs]

lemma py_strip_infix: "\<exists>a b. s = a @ py_strip s @ b"
proof -
  let ?t = "dropWhile py_isspace s"
  have "s = takeWhile py_isspace s @ ?t" by simp
  moreover have "?t = rev (dropWhile py_isspace (rev ?t)) @ rev (takeWhile py_isspace (rev ?t))"
    by (metis rev_append rev_rev_ident takeWhile_dropWhile_id)
  ultimately show ?thesis by (metis py_strip_def)
qed

lemma set_py_strip: "set (py_strip s) \<subseteq> set s"
  using py_strip_infix [of s] by (metis Un_iff set_append subsetI)

lemma length_py_strip: "length (py_strip s) \<le> length s"
  using py_strip_infix [of s] by (metis le_add1 le_add2 le_trans length_append)

lemma dropWhile_rev_id:
  "s = [] \<or> \<not> P (last s) \<Longrightarrow> rev (dropWhile P (rev s)) = s"
  by (cases s rule: rev_cases) auto

lemma hd_dropWhile_rev:
  assumes "s \<noteq> []" and "\<not> P (hd s)"
  shows "hd (rev (dropWhile P (rev s))) = hd s \<and> rev (dropWhile P (rev s)) \<noteq> []"
proof -
  obtain x xs where s: "s = x # xs" using assms(1) by (cases s) auto
  with assms(2) have "\<not> P x" by simp
  then have "dropWhile P (ys @ [x]) = dropWhile P ys @ [x]" for ys
    by (induction ys) simp_all
  with s show ?thesis by simp
qed

lemma py_strip_ends:
  assumes "py_strip s \<noteq> []"
  shows "\<not> py_isspace (hd (py_strip s))" and "\<not> py_isspace (last (py_strip s))"
proof -
  let ?t = "dropWhile py_isspace s"
  have t: "?t \<noteq> []"
  proof
    assume "?t = []"
    then have "py_strip s = []" unfolding py_strip_def by (simp only: rev.simps dropWhile.simps)
    with assms show False by simp
  qed
  have h: "\<not> py_isspace (hd ?t)" using t by (rule hd_dropWhile)
  from hd_dropWhile_rev [OF t, of py_isspace] h
  show "\<not> py_isspace (hd (py_strip s))" by (simp add: py_strip_def)
  have ne: "dropWhile py_isspace (rev ?t) \<noteq> []"
    using assms unfolding py_strip_def by (simp only: rev_is_Nil_conv not_False_eq_True)
  from hd_dropWhile [OF ne] ne
  show "\<not> py_isspace (last (py_strip s))" by (simp add: py_strip_def last_rev)
qed

lemma py_strip_id:
  "s = [] \<or> \<not> py_isspace (hd s) \<and> \<not> py_isspace (last s) \<Longrightarrow> py_strip s = s"
proof -
  assume a: "s = [] \<or> \<not> py_isspace (hd s) \<and> \<not> py_isspace (last s)"
  then have "dropWhile py_isspace s = s" by (cases s) auto
  with a show ?thesis by (auto simp: py_strip_def dropWhile_rev_id)
qed

lemma py_strip_idem [simp]: "py_strip (py_strip s) = py_strip s"
  by (rule py_strip_id) (use py_strip_ends in blast)

lemma py_strip_Nil_iff: "py_strip s = [] \<longleftrightarrow> (\<forall>c \<in> set s. py_isspace c)"
proof -
  have "py_strip s = [] \<longleftrightarrow> (\<forall>c \<in> set (dropWhile py_isspace s). py_isspace c)"
    unfolding py_strip_def by (simp only: rev_is_Nil_conv dropWhile_eq_Nil_conv set_rev)
  also have "\<dots> \<longleftrightarrow> dropWhile py_isspace s = []"
    using hd_dropWhile [of py_isspace s]
    by (metis dropWhile_eq_Nil_conv list.set_sel(1) set_dropWhileD)
  finally show ?thesis by (simp add: dropWhile_eq_Nil_conv)
qed

lemma py_split_not_Nil [simp]: "py_split sep s \<noteq> []"
  by (induction sep s rule: py_split.induct) (auto split: list.split)

lemma py_split_no_sep: "p \<in> set (py_split sep s) \<Longrightarrow> sep \<notin> set p"
  by (induction sep s arbitrary: p rule: py_split.induct) (auto split: if_splits list.splits)

lemma py_join_Cons_Cons: "py_join sep ((c # p) # ps) = c # py_join sep (p # ps)"
  by (cases ps) simp_all

lemma py_join_Nil_Cons: "ps \<noteq> [] \<Longrightarrow> py_join sep ([] # ps) = sep @ py_join sep ps"
  by (cases ps) simp_all

lemma py_join_split: "py_join [sep] (py_split sep s) = s"
proof (induction sep s rule: py_split.induct)
  case (2 sep c cs)
  then show ?case
    by (cases "py_split sep cs") (simp_all add: py_join_Cons_Cons py_join_Nil_Cons)
qed simp

subsection \<open>Decimal integers\<close>

fun nat_str :: "nat \<Rightarrow> pystr" where
  "nat_str n = (if n < 10 then [48 + n] else nat_str (n div 10) @ [48 + n mod 10])"

declare nat_str.simps [simp del]

definition int_str :: "int \<Rightarrow> pystr" where
  "int_str i = (if i < 0 then 45 # nat_str (nat (- i)) else nat_str (nat i))"

definition is_ascii_digit :: "nat \<Rightarrow> bool" where
  "is_ascii_digit c \<longleftrightarrow> 48 \<le> c \<and> c \<le> 57"

text \<open>\<open>bytes.isdigit\<close>: not empty and ASCII digits only.\<close>

definition py_isdigit :: "nat list \<Rightarrow> bool" where
  "py_isdigit s \<longleftrightarrow> s \<noteq> [] \<and> list_all is_ascii_digit s"

definition digits_val :: "nat list \<Rightarrow> nat" where
  "digits_val s = foldl (\<lambda>acc c. 10 * acc + (c - 48)) 0 s"

text \<open>
  \<open>int(...)\<close> of a byte string of digits. The interpreter refuses to convert more than 4300
  digits (\<open>sys.int_info.default_max_str_digits\<close>) with a ValueError, which is \<open>None\<close> here.
\<close>

definition py_int :: "nat list \<Rightarrow> nat option" where
  "py_int s = (if py_isdigit s \<and> length s \<le> 4300 then Some (digits_val s) else None)"

declare int_str_def [py_defs] py_isdigit_def [py_defs] py_int_def [py_defs]

lemma nat_str_digits: "list_all is_ascii_digit (nat_str n) \<and> nat_str n \<noteq> []"
proof (induction n rule: nat_str.induct)
  case (1 n)
  then show ?case by (cases "n < 10") (auto simp: nat_str.simps [of n] is_ascii_digit_def)
qed

lemma digits_val_nat_str [simp]: "digits_val (nat_str n) = n"
proof (induction n rule: nat_str.induct)
  case (1 n)
  then show ?case
    by (cases "n < 10") (auto simp: nat_str.simps [of n] digits_val_def)
qed

lemma nat_str_inject [simp]: "nat_str m = nat_str n \<longleftrightarrow> m = n"
  by (metis digits_val_nat_str)

subsection \<open>The canonical form of a UUID\<close>

definition hexdigit :: "nat \<Rightarrow> nat" where
  "hexdigit d = (if d < 10 then 48 + d else 87 + d)"

definition nibble :: "uuid \<Rightarrow> nat \<Rightarrow> nat" where
  "nibble u i = unat u div 16 ^ i mod 16"

definition uuid_hex :: "uuid \<Rightarrow> pystr" where
  "uuid_hex u = map (\<lambda>i. hexdigit (nibble u i)) (rev [0..<32])"

text \<open>\<open>str(uuid)\<close>: 32 hexadecimal digits in groups of 8, 4, 4, 4 and 12.\<close>

definition uuid_str :: "uuid \<Rightarrow> pystr" where
  "uuid_str u = (let h = uuid_hex u in
     take 8 h @ [45] @ take 4 (drop 8 h) @ [45] @ take 4 (drop 12 h) @ [45]
       @ take 4 (drop 16 h) @ [45] @ drop 20 h)"

lemma length_uuid_hex [simp]: "length (uuid_hex u) = 32"
  by (simp add: uuid_hex_def)

lemma length_uuid_str: "length (uuid_str u) = 36"
  by (simp add: uuid_str_def Let_def)

lemma hexdigit_inject: "a < 16 \<Longrightarrow> b < 16 \<Longrightarrow> hexdigit a = hexdigit b \<longleftrightarrow> a = b"
  by (auto simp: hexdigit_def)

lemma nibble_less: "nibble u i < 16"
  by (simp add: nibble_def)

text \<open>A number below \<open>16 ^ k\<close> is determined by its first \<open>k\<close> digits.\<close>

lemma hex_digits_inject:
  "m < 16 ^ k \<Longrightarrow> n < 16 ^ k \<Longrightarrow> \<forall>i<k. m div 16 ^ i mod 16 = n div 16 ^ i mod 16
     \<Longrightarrow> m = (n :: nat)"
proof (induction k arbitrary: m n)
  case 0
  then show ?case by simp
next
  case (Suc k)
  have "m div 16 = n div 16"
  proof (rule Suc.IH)
    show "m div 16 < 16 ^ k" "n div 16 < 16 ^ k"
      using Suc.prems(1,2) by (simp_all add: less_mult_imp_div_less mult.commute)
    show "\<forall>i<k. m div 16 div 16 ^ i mod 16 = n div 16 div 16 ^ i mod 16"
      using Suc.prems(3) by (metis Suc_less_eq div_mult2_eq power_Suc)
  qed
  moreover have "m mod 16 = n mod 16" using Suc.prems(3) by (metis div_by_1 power_0 zero_less_Suc)
  ultimately show ?case by (metis div_mult_mod_eq)
qed

lemma uuid_hex_inject: "uuid_hex u = uuid_hex v \<longleftrightarrow> u = v"
proof
  assume eq: "uuid_hex u = uuid_hex v"
  have nib: "nibble u i = nibble v i" if "i < 32" for i
  proof -
    from eq have "\<forall>i \<in> set (rev [0..<32]). hexdigit (nibble u i) = hexdigit (nibble v i)"
      unfolding uuid_hex_def by (simp only: map_eq_conv)
    with that have "hexdigit (nibble u i) = hexdigit (nibble v i)" by simp
    then show ?thesis by (simp add: hexdigit_inject nibble_less)
  qed
  have bound: "unat w < 16 ^ 32" for w :: uuid
    using unsigned_less [of w] by simp
  have "unat u = unat v"
    by (rule hex_digits_inject [OF bound bound]) (use nib in \<open>simp add: nibble_def\<close>)
  then show "u = v" by (simp only: word_unat_eq_iff)
qed simp

lemma take_append_take_drop:
  "take a xs @ take b (drop a xs) @ ys = take (a + b) xs @ ys"
  by (simp add: take_add)

lemma uuid_str_hex: "filter (\<lambda>c. c \<noteq> 45) (uuid_str u) = uuid_hex u"
proof -
  have "\<forall>c \<in> set (uuid_hex u). c \<noteq> 45"
    by (auto simp: uuid_hex_def hexdigit_def)
  then have keep: "filter (\<lambda>c. c \<noteq> 45) xs = xs" if "set xs \<subseteq> set (uuid_hex u)" for xs
    using that by (auto simp: filter_id_conv)
  have sub: "set (take a (drop b xs)) \<subseteq> set xs" "set (take a xs) \<subseteq> set xs"
    "set (drop b xs) \<subseteq> set xs" for a b and xs :: pystr
    by (auto dest: in_set_takeD in_set_dropD)
  have "filter (\<lambda>c. c \<noteq> 45) (uuid_str u)
      = take 8 (uuid_hex u) @ take 4 (drop 8 (uuid_hex u)) @ take 4 (drop 12 (uuid_hex u))
          @ take 4 (drop 16 (uuid_hex u)) @ drop 20 (uuid_hex u)"
    by (simp add: uuid_str_def Let_def keep sub)
  also have "\<dots> = uuid_hex u"
    by (simp add: take_append_take_drop)
  finally show ?thesis .
qed

lemma uuid_str_inject [simp]: "uuid_str u = uuid_str v \<longleftrightarrow> u = v"
  by (metis uuid_str_hex uuid_hex_inject)

text \<open>Reading the canonical form back: the digits without the dashes, in base 16.\<close>

definition hex_value :: "nat \<Rightarrow> nat" where
  "hex_value c = (if c < 58 then c - 48 else if c < 71 then c - 55 else c - 87)"

definition uuid_parse :: "pystr \<Rightarrow> uuid option" where
  "uuid_parse s =
     (let h = filter (\<lambda>c. c \<noteq> 45) s
      in if length h = 32 \<and> list_all (\<lambda>c. is_ascii_digit c \<or> 97 \<le> c \<and> c \<le> 102) h
         then Some (of_nat (foldl (\<lambda>acc c. 16 * acc + hex_value c) 0 h)) else None)"

lemma hex_value_hexdigit: "d < 16 \<Longrightarrow> hex_value (hexdigit d) = d"
  by (auto simp: hex_value_def hexdigit_def)

lemma foldl_hex_digits:
  "foldl (\<lambda>acc i. 16 * acc + m div 16 ^ i mod 16) a (rev [0..<k]) = a * 16 ^ k + m mod (16 ^ k :: nat)"
proof (induction k arbitrary: a)
  case (Suc k)
  have "m mod 16 ^ Suc k = (m div 16 ^ k mod 16) * 16 ^ k + m mod 16 ^ k"
    using mod_mult2_eq [of m "16 ^ k" 16] by (simp add: mult.commute)
  with Suc show ?case by (simp add: algebra_simps)
qed simp

lemma uuid_parse_str [simp]: "uuid_parse (uuid_str u) = Some u"
proof -
  have "foldl (\<lambda>acc c. 16 * acc + hex_value c) 0 (uuid_hex u)
      = foldl (\<lambda>acc i. 16 * acc + unat u div 16 ^ i mod 16) 0 (rev [0..<32])"
    unfolding uuid_hex_def foldl_map
    by (intro foldl_cong) (simp_all add: hex_value_hexdigit nibble_less, simp add: nibble_def)
  also have "\<dots> = unat u"
  proof -
    have "unat u < 2 ^ LENGTH(128)" by (rule unsigned_less)
    then show ?thesis by (simp add: foldl_hex_digits)
  qed
  finally have v: "foldl (\<lambda>acc c. 16 * acc + hex_value c) 0 (uuid_hex u) = unat u" .
  have digit: "is_ascii_digit (hexdigit d) \<or> 97 \<le> hexdigit d \<and> hexdigit d \<le> 102" if "d < 16" for d
    using that by (auto simp: hexdigit_def is_ascii_digit_def)
  have "list_all (\<lambda>c. is_ascii_digit c \<or> 97 \<le> c \<and> c \<le> 102) (uuid_hex u)"
    unfolding uuid_hex_def list_all_iff using digit [OF nibble_less] by auto
  then show ?thesis by (simp add: uuid_parse_def uuid_str_hex v)
qed

subsection \<open>UTF-8 and percent-encoding\<close>

text \<open>
  \<open>str.encode("utf-8")\<close> of one code point: \<open>None\<close> is the UnicodeEncodeError of a surrogate (and
  of a number that is no code point).
\<close>

definition utf8_char :: "nat \<Rightarrow> nat list option" where
  "utf8_char c =
     (if c < 128 then Some [c]
      else if c < 2048 then Some [192 + c div 64, 128 + c mod 64]
      else if 55296 \<le> c \<and> c < 57344 then None
      else if c < 65536 then Some [224 + c div 4096, 128 + c div 64 mod 64, 128 + c mod 64]
      else if c < 1114112 then
        Some [240 + c div 262144, 128 + c div 4096 mod 64, 128 + c div 64 mod 64, 128 + c mod 64]
      else None)"

fun utf8_encode :: "pystr \<Rightarrow> nat list option" where
  "utf8_encode [] = Some []"
| "utf8_encode (c # cs) =
     (case utf8_char c of None \<Rightarrow> None
      | Some bs \<Rightarrow> (case utf8_encode cs of None \<Rightarrow> None | Some rest \<Rightarrow> Some (bs @ rest)))"

text \<open>The bytes \<open>quote\<close> never escapes: letters, digits and \<open>_.-~\<close>.\<close>

definition always_safe :: "nat \<Rightarrow> bool" where
  "always_safe b \<longleftrightarrow> 48 \<le> b \<and> b \<le> 57 \<or> 65 \<le> b \<and> b \<le> 90 \<or> 97 \<le> b \<and> b \<le> 122
     \<or> b = 95 \<or> b = 46 \<or> b = 45 \<or> b = 126"

definition upper_hexdigit :: "nat \<Rightarrow> nat" where
  "upper_hexdigit d = (if d < 10 then 48 + d else 55 + d)"

definition quote_byte :: "nat list \<Rightarrow> nat \<Rightarrow> pystr" where
  "quote_byte safe b =
     (if always_safe b \<or> b \<in> set safe then [b]
      else [37, upper_hexdigit (b div 16), upper_hexdigit (b mod 16)])"

definition py_quote :: "nat list \<Rightarrow> pystr \<Rightarrow> pystr option" where
  "py_quote safe s = map_option (\<lambda>bs. concat (map (quote_byte safe) bs)) (utf8_encode s)"

text \<open>The reader of a percent-encoded reference: what a client does to get the bytes back.\<close>

fun percent_decode :: "pystr \<Rightarrow> nat list" where
  "percent_decode [] = []"
| "percent_decode (c # cs) =
     (if c = 37 then
        (case cs of a # b # rest \<Rightarrow> (16 * hex_value a + hex_value b) # percent_decode rest
         | _ \<Rightarrow> c # percent_decode cs)
      else c # percent_decode cs)"

text \<open>RFC 3986: unreserved characters, \<open>/\<close> and the escape character are what a path may hold.\<close>

definition uri_path_char :: "nat \<Rightarrow> bool" where
  "uri_path_char c \<longleftrightarrow> always_safe c \<or> c = 47 \<or> c = 37"

lemma utf8_char_bytes: "utf8_char c = Some bs \<Longrightarrow> \<forall>b \<in> set bs. b < 256"
  by (auto simp: utf8_char_def split: if_splits)

lemma utf8_encode_bytes: "utf8_encode s = Some bs \<Longrightarrow> \<forall>b \<in> set bs. b < 256"
  by (induction s arbitrary: bs) (force split: option.splits dest: utf8_char_bytes)+

lemma hex_value_upper: "d < 16 \<Longrightarrow> hex_value (upper_hexdigit d) = d"
  by (auto simp: hex_value_def upper_hexdigit_def)

lemma percent_decode_quote_byte:
  "b < 256 \<Longrightarrow> 37 \<notin> set safe \<Longrightarrow> percent_decode (quote_byte safe b @ r) = b # percent_decode r"
  by (auto simp: quote_byte_def hex_value_upper always_safe_def)

lemma percent_decode_quote:
  assumes "\<forall>b \<in> set bs. b < 256" and "37 \<notin> set safe"
  shows "percent_decode (concat (map (quote_byte safe) bs)) = bs"
  using assms by (induction bs) (simp_all add: percent_decode_quote_byte)

lemma upper_hexdigit_safe: "d < 16 \<Longrightarrow> always_safe (upper_hexdigit d)"
  by (auto simp: upper_hexdigit_def always_safe_def)

lemma quote_byte_uri:
  assumes "b < 256" and "c \<in> set (quote_byte [47] b)"
  shows "uri_path_char c"
proof -
  have "always_safe (upper_hexdigit (b div 16))" "always_safe (upper_hexdigit (b mod 16))"
    using assms(1) by (auto intro!: upper_hexdigit_safe)
  with assms(2) show ?thesis
    by (auto simp: quote_byte_def uri_path_char_def split: if_splits)
qed

lemma py_quote_uri: "py_quote [47] s = Some q \<Longrightarrow> c \<in> set q \<Longrightarrow> uri_path_char c"
  by (auto simp: py_quote_def dest!: utf8_encode_bytes) (metis quote_byte_uri)

lemma utf8_encode_ascii: "\<forall>c \<in> set s. c < 128 \<Longrightarrow> utf8_encode s = Some s"
  by (induction s) (auto simp: utf8_char_def)

lemma py_quote_plain:
  "\<forall>c \<in> set s. c < 128 \<and> (always_safe c \<or> c \<in> set safe) \<Longrightarrow> py_quote safe s = Some s"
proof -
  assume a: "\<forall>c \<in> set s. c < 128 \<and> (always_safe c \<or> c \<in> set safe)"
  then have "concat (map (quote_byte safe) s) = s"
    by (induction s) (auto simp: quote_byte_def)
  with a show ?thesis by (simp add: py_quote_def utf8_encode_ascii)
qed

text \<open>UTF-8 is injective, so percent-encoding is.\<close>

fun utf8_decode :: "nat list \<Rightarrow> pystr" where
  "utf8_decode [] = []"
| "utf8_decode (b # bs) =
     (if b < 128 then b # utf8_decode bs
      else if b < 224 then
        (case bs of b1 # r \<Rightarrow> ((b - 192) * 64 + (b1 - 128)) # utf8_decode r | _ \<Rightarrow> [])
      else if b < 240 then
        (case bs of b1 # b2 # r \<Rightarrow>
           ((b - 224) * 4096 + (b1 - 128) * 64 + (b2 - 128)) # utf8_decode r | _ \<Rightarrow> [])
      else
        (case bs of b1 # b2 # b3 # r \<Rightarrow>
           ((b - 240) * 262144 + (b1 - 128) * 4096 + (b2 - 128) * 64 + (b3 - 128))
             # utf8_decode r | _ \<Rightarrow> []))"

lemma utf8_digits3: "c div 4096 * 4096 + c div 64 mod 64 * 64 + c mod 64 = (c :: nat)"
proof -
  have "c div 4096 = c div 64 div 64" by (simp add: div_mult2_eq [symmetric])
  moreover have "c div 64 div 64 * 64 + c div 64 mod 64 = c div 64" by (rule div_mult_mod_eq)
  moreover have "c div 64 * 64 + c mod 64 = c" by (rule div_mult_mod_eq)
  ultimately show ?thesis by linarith
qed

lemma utf8_digits4:
  "c div 262144 * 262144 + c div 4096 mod 64 * 4096 + c div 64 mod 64 * 64 + c mod 64 = (c :: nat)"
proof -
  have "c div 262144 = c div 4096 div 64" by (simp add: div_mult2_eq [symmetric])
  moreover have "c div 4096 div 64 * 64 + c div 4096 mod 64 = c div 4096" by (rule div_mult_mod_eq)
  ultimately show ?thesis using utf8_digits3 [of c] by linarith
qed

lemma utf8_decode_char:
  assumes "utf8_char c = Some bs"
  shows "utf8_decode (bs @ r) = c # utf8_decode r"
proof -
  consider "c < 128" "bs = [c]"
    | "128 \<le> c" "c < 2048" "bs = [192 + c div 64, 128 + c mod 64]"
    | "2048 \<le> c" "c < 65536" "bs = [224 + c div 4096, 128 + c div 64 mod 64, 128 + c mod 64]"
    | "65536 \<le> c" "c < 1114112"
      "bs = [240 + c div 262144, 128 + c div 4096 mod 64, 128 + c div 64 mod 64, 128 + c mod 64]"
    using assms by (auto simp: utf8_char_def split: if_splits)
  then show ?thesis
  proof cases
    case 2
    then have "c div 64 < 32" by (simp add: less_mult_imp_div_less)
    with 2 show ?thesis by simp
  next
    case 3
    then have "c div 4096 < 16" by (simp add: less_mult_imp_div_less)
    with 3 show ?thesis by (simp add: utf8_digits3)
  next
    case 4
    then show ?thesis by (simp add: utf8_digits4)
  qed simp
qed

lemma utf8_decode_encode: "utf8_encode s = Some bs \<Longrightarrow> utf8_decode bs = s"
  by (induction s arbitrary: bs) (auto split: option.splits simp: utf8_decode_char)

lemma py_quote_roundtrip:
  assumes "py_quote safe s = Some q" and "37 \<notin> set safe"
  shows "utf8_decode (percent_decode q) = s"
  using assms utf8_encode_bytes [of s]
  by (auto simp: py_quote_def percent_decode_quote utf8_decode_encode)

end
