(* ===== verification/Problems.thy ===== *)
theory Problems
  imports PyStr
begin

section \<open>Problem details: \<open>app/errors.py\<close> and \<open>app/routers/problems.py\<close>\<close>

text \<open>
  Every error the service answers is an RFC 9457 problem document built by
  \<open>problem_response\<close>. This theory has the registry of problem types, the exceptions of the
  service, the exception handlers, the reason of a validation error, and the two routes that
  serve the registry. What \<open>problem_response\<close> raises itself (an unknown slug, a status the
  standard library has no phrase for, a path that has no UTF-8 form) is a value of \<open>exn\<close>.
\<close>

subsection \<open>JSON values, the ASGI scope and responses\<close>

datatype json =
    JNull
  | JBool bool
  | JInt int
  | JStr pystr
  | JList "json list"
  | JObj "(pystr \<times> json) list"

text \<open>\<open>d.get(k)\<close> on a JSON object; the other values have no members.\<close>

fun json_get :: "pystr \<Rightarrow> json \<Rightarrow> json option" where
  "json_get k (JObj kvs) = map_of kvs k"
| "json_get k _ = None"

record scope =
  sc_type :: string
  sc_method :: pystr
  sc_path :: pystr
  sc_headers :: "(nat list \<times> nat list) list"
  sc_route :: "pystr option"
  sc_error_code :: "pystr option"

text \<open>The scope of a plain HTTP request, before anything has been recorded in it.\<close>

definition http_scope :: "pystr \<Rightarrow> pystr \<Rightarrow> scope" where
  "http_scope method path =
     \<lparr>sc_type = ''http'', sc_method = method, sc_path = path, sc_headers = [], sc_route = None,
      sc_error_code = None\<rparr>"

record response =
  rs_status :: nat
  rs_media :: pystr
  rs_headers :: "(pystr \<times> pystr) list"
  rs_body :: "json option"

text \<open>\<open>JSONResponse\<close> of a body.\<close>

definition json_response :: "nat \<Rightarrow> (pystr \<times> pystr) list \<Rightarrow> json \<Rightarrow> response" where
  "json_response status headers body =
     \<lparr>rs_status = status, rs_media = lit ''application/json'', rs_headers = headers, rs_body = Some body\<rparr>"

subsection \<open>The registry of problem types\<close>

definition PROBLEM_JSON :: pystr where
  "PROBLEM_JSON = lit ''application/problem+json''"

definition PROBLEM_BASE :: pystr where
  "PROBLEM_BASE = lit ''/problems''"

definition VALIDATION_DETAIL :: pystr where
  "VALIDATION_DETAIL = lit ''The request content was invalid or failed validation constraints.''"

record problem_type =
  pt_slug :: pystr
  pt_code :: pystr
  pt_status :: nat
  pt_description :: pystr

definition problem_type_uri :: "problem_type \<Rightarrow> pystr" where
  "problem_type_uri t = PROBLEM_BASE @ lit ''/'' @ pt_slug t"

text \<open>\<open>http.HTTPStatus(status).phrase\<close> of Python 3.13; \<open>None\<close> is the ValueError of an unknown status.\<close>

definition http_phrases :: "(nat \<times> string) list" where
  "http_phrases =
    [(100, ''Continue''), (101, ''Switching Protocols''), (102, ''Processing''),
     (103, ''Early Hints''), (200, ''OK''), (201, ''Created''), (202, ''Accepted''),
     (203, ''Non-Authoritative Information''), (204, ''No Content''), (205, ''Reset Content''),
     (206, ''Partial Content''), (207, ''Multi-Status''), (208, ''Already Reported''),
     (226, ''IM Used''), (300, ''Multiple Choices''), (301, ''Moved Permanently''),
     (302, ''Found''), (303, ''See Other''), (304, ''Not Modified''), (305, ''Use Proxy''),
     (307, ''Temporary Redirect''), (308, ''Permanent Redirect''), (400, ''Bad Request''),
     (401, ''Unauthorized''), (402, ''Payment Required''), (403, ''Forbidden''),
     (404, ''Not Found''), (405, ''Method Not Allowed''), (406, ''Not Acceptable''),
     (407, ''Proxy Authentication Required''), (408, ''Request Timeout''), (409, ''Conflict''),
     (410, ''Gone''), (411, ''Length Required''), (412, ''Precondition Failed''),
     (413, ''Content Too Large''), (414, ''URI Too Long''), (415, ''Unsupported Media Type''),
     (416, ''Range Not Satisfiable''), (417, ''Expectation Failed''), (418, ''I'm a Teapot''),
     (421, ''Misdirected Request''), (422, ''Unprocessable Content''), (423, ''Locked''),
     (424, ''Failed Dependency''), (425, ''Too Early''), (426, ''Upgrade Required''),
     (428, ''Precondition Required''), (429, ''Too Many Requests''),
     (431, ''Request Header Fields Too Large''), (451, ''Unavailable For Legal Reasons''),
     (500, ''Internal Server Error''), (501, ''Not Implemented''), (502, ''Bad Gateway''),
     (503, ''Service Unavailable''), (504, ''Gateway Timeout''),
     (505, ''HTTP Version Not Supported''), (506, ''Variant Also Negotiates''),
     (507, ''Insufficient Storage''), (508, ''Loop Detected''), (510, ''Not Extended''),
     (511, ''Network Authentication Required'')]"

definition http_phrase :: "nat \<Rightarrow> pystr option" where
  "http_phrase status = map_option lit (map_of http_phrases status)"

definition problem_type_title :: "problem_type \<Rightarrow> pystr option" where
  "problem_type_title t = http_phrase (pt_status t)"

text \<open>The five problem types, in the order of the registry.\<close>

definition bad_user_input_type :: problem_type where
  "bad_user_input_type =
     \<lparr>pt_slug = lit ''bad-user-input'', pt_code = lit ''BAD_USER_INPUT'', pt_status = 400,
       pt_description = lit (''The request was malformed or failed validation: bad JSON, a missing or blank ''
       @ ''required field, a value out of range, or a malformed id. The `invalidParams` member ''
       @ ''lists every offending field at once.'')\<rparr>"

definition not_found_type :: problem_type where
  "not_found_type =
     \<lparr>pt_slug = lit ''not-found'', pt_code = lit ''NOT_FOUND'', pt_status = 404,
       pt_description = lit (''The resource, or a resource the request refers to (such as the author of a new ''
       @ ''message), does not exist. Also returned for an unknown route.'')\<rparr>"

definition conflict_type :: problem_type where
  "conflict_type =
     \<lparr>pt_slug = lit ''conflict'', pt_code = lit ''CONFLICT'', pt_status = 409,
       pt_description = lit (''The request conflicts with the current state of the resource: a stale `version` on ''
       @ ''update (re-read and retry), a duplicate author email, or deleting an author who ''
       @ ''still has messages.'')\<rparr>"

definition payload_too_large_type :: problem_type where
  "payload_too_large_type =
     \<lparr>pt_slug = lit ''payload-too-large'', pt_code = lit ''BAD_USER_INPUT'', pt_status = 413,
       pt_description = lit ''The request body exceeds the maximum size the service accepts.''\<rparr>"

definition internal_server_error_type :: problem_type where
  "internal_server_error_type =
     \<lparr>pt_slug = lit ''internal-server-error'', pt_code = lit ''INTERNAL_SERVER_ERROR'', pt_status = 500,
       pt_description = lit (''An unexpected error occurred. The response carries no internals; the failure is ''
       @ ''logged server-side with the trace id.'')\<rparr>"

definition PROBLEM_TYPES :: "(pystr \<times> problem_type) list" where
  "PROBLEM_TYPES = map (\<lambda>t. (pt_slug t, t))
    [bad_user_input_type, not_found_type, conflict_type, payload_too_large_type,
     internal_server_error_type]"

definition DEFAULT_TYPE_BY_CODE :: "(pystr \<times> pystr) list" where
  "DEFAULT_TYPE_BY_CODE =
    [(lit ''BAD_USER_INPUT'', lit ''bad-user-input''), (lit ''NOT_FOUND'', lit ''not-found''),
     (lit ''CONFLICT'', lit ''conflict''),
     (lit ''INTERNAL_SERVER_ERROR'', lit ''internal-server-error'')]"

subsection \<open>Exceptions\<close>

text \<open>
  The instance and class attributes of an \<open>ApiError\<close>. The four subclasses are constructors that
  set the class attributes.
\<close>

type_synonym invalid_param = "pystr \<times> pystr"

record api_error =
  ae_status :: nat
  ae_code :: pystr
  ae_type_slug :: "pystr option"
  ae_detail :: pystr
  ae_invalid_params :: "invalid_param list option"

definition ApiError :: "pystr \<Rightarrow> invalid_param list option \<Rightarrow> api_error" where
  "ApiError detail invalid_params =
     \<lparr>ae_status = 500, ae_code = lit ''INTERNAL_SERVER_ERROR'', ae_type_slug = None,
      ae_detail = detail, ae_invalid_params = invalid_params\<rparr>"

definition BadUserInputError :: "pystr \<Rightarrow> api_error" where
  "BadUserInputError detail =
     (ApiError detail None)\<lparr>ae_status := 400, ae_code := lit ''BAD_USER_INPUT''\<rparr>"

definition NotFoundError :: "pystr \<Rightarrow> api_error" where
  "NotFoundError detail = (ApiError detail None)\<lparr>ae_status := 404, ae_code := lit ''NOT_FOUND''\<rparr>"

definition ConflictError :: "pystr \<Rightarrow> api_error" where
  "ConflictError detail = (ApiError detail None)\<lparr>ae_status := 409, ae_code := lit ''CONFLICT''\<rparr>"

definition PayloadTooLargeError :: "pystr \<Rightarrow> api_error" where
  "PayloadTooLargeError detail =
     (ApiError detail None)\<lparr>ae_status := 413, ae_code := lit ''BAD_USER_INPUT'',
       ae_type_slug := Some (lit ''payload-too-large'')\<rparr>"

text \<open>One entry of pydantic's \<open>errors()\<close>: its location, type, context, input and message.\<close>

datatype loc_item = LStr pystr | LInt int

datatype ctx_val = CInt int | CStr pystr

record verr =
  ve_type :: string
  ve_loc :: "loc_item list"
  ve_ctx :: "(string \<times> ctx_val) list option"
  ve_input :: "json option"
  ve_msg :: pystr

text \<open>Every exception that can end a request.\<close>

datatype exn =
    ApiExn api_error
  | RequestValidationError "verr list"
  | StarletteHTTPException nat pystr "(pystr \<times> pystr) list"
  | IntegrityError "string option"
  | DatabaseError string
  | CacheError string
  | AssertionError
  | ValidationError
  | MultipleResultsFound
  | NoResultFound
  | KeyError pystr
  | ValueError pystr
  | UnicodeEncodeError
  | CancelledError
  | OtherError string

subsection \<open>Building a problem response\<close>

text \<open>\<open>type_slug or _DEFAULT_TYPE_BY_CODE.get(code)\<close>: the empty string is false too.\<close>

definition problem_slug :: "pystr option \<Rightarrow> pystr \<Rightarrow> pystr option" where
  "problem_slug type_slug code =
     (case type_slug of
        Some s \<Rightarrow> if s \<noteq> [] then Some s else map_of DEFAULT_TYPE_BY_CODE code
      | None \<Rightarrow> map_of DEFAULT_TYPE_BY_CODE code)"

definition problem_type_member :: "pystr option \<Rightarrow> exn + pystr" where
  "problem_type_member slug =
     (case slug of
        Some s \<Rightarrow>
          if s \<noteq> [] then
            (case map_of PROBLEM_TYPES s of None \<Rightarrow> Inl (KeyError s) | Some t \<Rightarrow> Inr (problem_type_uri t))
          else Inr (lit ''about:blank'')
      | None \<Rightarrow> Inr (lit ''about:blank''))"

definition invalid_params_json :: "invalid_param list \<Rightarrow> json" where
  "invalid_params_json ps =
     JList (map (\<lambda>(n, r). JObj [(lit ''name'', JStr n), (lit ''reason'', JStr r)]) ps)"

definition problem_body ::
  "pystr \<Rightarrow> pystr \<Rightarrow> nat \<Rightarrow> pystr \<Rightarrow> pystr \<Rightarrow> pystr \<Rightarrow> invalid_param list option \<Rightarrow> json" where
  "problem_body type title status detail inst code invalid_params =
     JObj ([(lit ''type'', JStr type), (lit ''title'', JStr title),
            (lit ''status'', JInt (int status)), (lit ''detail'', JStr detail),
            (lit ''instance'', JStr inst), (lit ''code'', JStr code)]
           @ (case invalid_params of
                Some ps \<Rightarrow> if ps \<noteq> [] then [(lit ''invalidParams'', invalid_params_json ps)] else []
              | None \<Rightarrow> []))"

text \<open>
  The scope is updated first, so that the metrics middleware sees the code even when building
  the body raises.
\<close>

definition problem_response ::
  "scope \<Rightarrow> nat \<Rightarrow> pystr \<Rightarrow> pystr \<Rightarrow> invalid_param list option \<Rightarrow> pystr option
     \<Rightarrow> (exn + response) \<times> scope" where
  "problem_response request_scope status code detail invalid_params type_slug =
     (let request_scope' = request_scope\<lparr>sc_error_code := Some code\<rparr>;
          slug = problem_slug type_slug code
      in (case problem_type_member slug of
            Inl e \<Rightarrow> Inl e
          | Inr type \<Rightarrow>
              (case http_phrase status of
                 None \<Rightarrow> Inl (ValueError (lit ''not a valid HTTPStatus''))
               | Some title \<Rightarrow>
                   (case py_quote [47] (sc_path request_scope) of
                      None \<Rightarrow> Inl UnicodeEncodeError
                    | Some inst \<Rightarrow>
                        Inr \<lparr>rs_status = status, rs_media = PROBLEM_JSON, rs_headers = [],
                          rs_body = Some (problem_body type title status detail inst code
                            invalid_params)\<rparr>)),
          request_scope'))"

subsection \<open>Validation errors\<close>

fun loc_name :: "loc_item \<Rightarrow> pystr option" where
  "loc_name (LStr p) = (if p \<in> {lit ''body'', lit ''query'', lit ''path''} then None else Some p)"
| "loc_name (LInt i) = None"

definition param_name :: "loc_item list \<Rightarrow> pystr" where
  "param_name loc =
     (let parts = List.map_filter loc_name loc;
          name = py_join (lit ''.'') parts
      in if name \<noteq> [] then name else lit ''body'')"

definition ctx_get :: "verr \<Rightarrow> string \<Rightarrow> ctx_val option" where
  "ctx_get error k = (case ve_ctx error of None \<Rightarrow> None | Some ctx \<Rightarrow> map_of ctx k)"

fun format_ctx :: "ctx_val option \<Rightarrow> pystr" where
  "format_ctx None = lit ''None''"
| "format_ctx (Some (CInt i)) = int_str i"
| "format_ctx (Some (CStr s)) = s"

text \<open>\<open>error.get("input") is None\<close>: the key is absent or its value is \<open>null\<close>.\<close>

definition input_is_None :: "verr \<Rightarrow> bool" where
  "input_is_None error \<longleftrightarrow> ve_input error = None \<or> ve_input error = Some JNull"

definition reason :: "pystr \<Rightarrow> verr \<Rightarrow> pystr" where
  "reason name error =
     (let kind = ve_type error in
      if kind = ''missing'' \<or> (kind = ''string_type'' \<and> input_is_None error) then
        name @ lit '' is required and cannot be blank''
      else if kind = ''greater_than_equal'' then
        (if ctx_get error ''ge'' = Some (CInt 0) then name @ lit '' must not be negative''
         else name @ lit '' must be at least '' @ format_ctx (ctx_get error ''ge''))
      else if kind = ''less_than_equal'' then
        name @ lit '' must not exceed '' @ format_ctx (ctx_get error ''le'')
      else if kind = ''int_parsing'' then name @ lit '' must be an integer''
      else if kind = ''uuid_parsing'' then name @ lit '' must be a valid UUID''
      else if kind = ''string_type'' then name @ lit '' must be a string''
      else if kind = ''literal_error'' then
        name @ lit '' must be one of: '' @ format_ctx (ctx_get error ''expected'')
      else if kind \<in> {''json_invalid'', ''model_attributes_type'', ''dict_type''} then
        lit ''request body must be a valid JSON object''
      else if kind = ''value_error'' then
        py_removeprefix (ve_msg error) (lit ''Value error, '')
      else ve_msg error)"

definition invalid_param_of :: "verr \<Rightarrow> invalid_param" where
  "invalid_param_of error = (let name = param_name (ve_loc error) in (name, reason name error))"

subsection \<open>Exception handlers\<close>

definition api_error_handler :: "scope \<Rightarrow> api_error \<Rightarrow> (exn + response) \<times> scope" where
  "api_error_handler sc exc =
     problem_response sc (ae_status exc) (ae_code exc) (ae_detail exc) (ae_invalid_params exc)
       (ae_type_slug exc)"

definition validation_error_handler :: "scope \<Rightarrow> verr list \<Rightarrow> (exn + response) \<times> scope" where
  "validation_error_handler sc errors =
     problem_response sc 400 (lit ''BAD_USER_INPUT'') VALIDATION_DETAIL
       (Some (map invalid_param_of errors)) None"

definition http_error_code :: "nat \<Rightarrow> pystr" where
  "http_error_code status =
     (if status = 404 then lit ''NOT_FOUND'' else lit ''HTTP_'' @ nat_str status)"

text \<open>\<open>headers.update\<close>: each header replaces the one of its name or is added.\<close>

definition headers_update ::
  "(pystr \<times> pystr) list \<Rightarrow> (pystr \<times> pystr) list \<Rightarrow> (pystr \<times> pystr) list" where
  "headers_update hs new =
     foldl (\<lambda>acc (k, v). [(k', v') \<leftarrow> acc. k' \<noteq> k] @ [(k, v)]) hs new"

definition http_error_handler ::
  "scope \<Rightarrow> nat \<Rightarrow> pystr \<Rightarrow> (pystr \<times> pystr) list \<Rightarrow> (exn + response) \<times> scope" where
  "http_error_handler sc status detail headers =
     (let (r, sc') = problem_response sc status (http_error_code status) detail None None
      in (case r of
            Inl e \<Rightarrow> Inl e
          | Inr response \<Rightarrow>
              Inr (if headers \<noteq> [] then response\<lparr>rs_headers := headers_update (rs_headers response) headers\<rparr>
                   else response),
          sc'))"

text \<open>
  The handlers registered on the application. \<open>None\<close>: no handler for the exception, which
  leaves the application and reaches the metrics middleware.
\<close>

definition handle_exception :: "scope \<Rightarrow> exn \<Rightarrow> ((exn + response) \<times> scope) option" where
  "handle_exception sc e =
     (case e of
        ApiExn exc \<Rightarrow> Some (api_error_handler sc exc)
      | RequestValidationError errors \<Rightarrow> Some (validation_error_handler sc errors)
      | StarletteHTTPException status detail headers \<Rightarrow>
          Some (http_error_handler sc status detail headers)
      | _ \<Rightarrow> None)"

subsection \<open>The routes of the registry\<close>

record problem_type_out =
  po_type :: pystr
  po_title :: pystr
  po_status :: nat
  po_code :: pystr
  po_description :: pystr

definition problem_type_out_of :: "problem_type \<Rightarrow> exn + problem_type_out" where
  "problem_type_out_of problem =
     (case problem_type_title problem of
        None \<Rightarrow> Inl (ValueError (lit ''not a valid HTTPStatus''))
      | Some title \<Rightarrow>
          Inr \<lparr>po_type = problem_type_uri problem, po_title = title, po_status = pt_status problem,
            po_code = pt_code problem, po_description = pt_description problem\<rparr>)"

fun seq_results :: "(exn + 'a) list \<Rightarrow> exn + 'a list" where
  "seq_results [] = Inr []"
| "seq_results (Inl e # rs) = Inl e"
| "seq_results (Inr x # rs) = (case seq_results rs of Inl e \<Rightarrow> Inl e | Inr xs \<Rightarrow> Inr (x # xs))"

definition list_problem_types :: "exn + problem_type_out list" where
  "list_problem_types = seq_results (map (problem_type_out_of \<circ> snd) PROBLEM_TYPES)"

definition get_problem_type :: "pystr \<Rightarrow> exn + problem_type_out" where
  "get_problem_type slug =
     (case map_of PROBLEM_TYPES slug of
        None \<Rightarrow> Inl (ApiExn (NotFoundError
          (lit ''Problem type '' @ quoted slug @ lit '' was not found.'')))
      | Some problem \<Rightarrow> problem_type_out_of problem)"

subsection \<open>Facts about the registry and the responses\<close>

lemma problem_type_sel [simp]:
  "pt_slug bad_user_input_type = lit ''bad-user-input''"
  "pt_code bad_user_input_type = lit ''BAD_USER_INPUT''" "pt_status bad_user_input_type = 400"
  "pt_slug not_found_type = lit ''not-found''"
  "pt_code not_found_type = lit ''NOT_FOUND''" "pt_status not_found_type = 404"
  "pt_slug conflict_type = lit ''conflict''"
  "pt_code conflict_type = lit ''CONFLICT''" "pt_status conflict_type = 409"
  "pt_slug payload_too_large_type = lit ''payload-too-large''"
  "pt_code payload_too_large_type = lit ''BAD_USER_INPUT''" "pt_status payload_too_large_type = 413"
  "pt_slug internal_server_error_type = lit ''internal-server-error''"
  "pt_code internal_server_error_type = lit ''INTERNAL_SERVER_ERROR''"
  "pt_status internal_server_error_type = 500"
  by (simp_all add: bad_user_input_type_def not_found_type_def conflict_type_def
      payload_too_large_type_def internal_server_error_type_def)

definition body_member :: "string \<Rightarrow> response \<Rightarrow> json option" where
  "body_member k r = (case rs_body r of None \<Rightarrow> None | Some j \<Rightarrow> json_get (lit k) j)"

text \<open>The errors the service raises itself: an instance of one of the four subclasses.\<close>

definition service_error :: "api_error \<Rightarrow> bool" where
  "service_error e \<longleftrightarrow>
     (ae_status e, ae_code e, ae_type_slug e) \<in> set
       [(400, lit ''BAD_USER_INPUT'', None), (404, lit ''NOT_FOUND'', None),
        (409, lit ''CONFLICT'', None),
        (413, lit ''BAD_USER_INPUT'', Some (lit ''payload-too-large''))]
     \<and> ae_invalid_params e = None"

lemmas service_error_defs =
  ApiError_def BadUserInputError_def NotFoundError_def ConflictError_def PayloadTooLargeError_def

lemma service_error_sel [simp]:
  "ae_status (BadUserInputError d) = 400" "ae_code (BadUserInputError d) = lit ''BAD_USER_INPUT''"
  "ae_status (NotFoundError d) = 404" "ae_code (NotFoundError d) = lit ''NOT_FOUND''"
  "ae_status (ConflictError d) = 409" "ae_code (ConflictError d) = lit ''CONFLICT''"
  "ae_status (PayloadTooLargeError d) = 413"
  "ae_code (PayloadTooLargeError d) = lit ''BAD_USER_INPUT''"
  by (simp_all add: service_error_defs)

lemma service_error_intros [simp]:
  "service_error (BadUserInputError d)" "service_error (NotFoundError d)"
  "service_error (ConflictError d)" "service_error (PayloadTooLargeError d)"
  by (simp_all add: service_error_def service_error_defs)

lemma body_member_problem [simp]:
  "rs_body r = Some (problem_body ty ti st de ins co ps) \<Longrightarrow>
     body_member ''type'' r = Some (JStr ty) \<and> body_member ''title'' r = Some (JStr ti)
     \<and> body_member ''status'' r = Some (JInt (int st)) \<and> body_member ''detail'' r = Some (JStr de)
     \<and> body_member ''instance'' r = Some (JStr ins) \<and> body_member ''code'' r = Some (JStr co)"
  by (simp add: body_member_def problem_body_def)

lemma body_member_invalid_params:
  "rs_body r = Some (problem_body ty ti st de ins co ps) \<Longrightarrow>
     body_member ''invalidParams'' r
       = (case ps of Some (p # ps') \<Rightarrow> Some (invalid_params_json (p # ps')) | _ \<Rightarrow> None)"
  by (auto simp: body_member_def problem_body_def split: option.splits list.splits)

text \<open>What \<open>problem_response\<close> does when nothing it calls raises.\<close>

lemma problem_response_ok:
  assumes "problem_type_member (problem_slug type_slug code) = Inr type"
    and "http_phrase status = Some title" and "py_quote [47] (sc_path sc) = Some inst"
  shows "problem_response sc status code detail ps type_slug =
     (Inr \<lparr>rs_status = status, rs_media = PROBLEM_JSON, rs_headers = [],
        rs_body = Some (problem_body type title status detail inst code ps)\<rparr>,
      sc\<lparr>sc_error_code := Some code\<rparr>)"
  using assms by (simp add: problem_response_def)

lemma problem_response_Inr:
  assumes "problem_response sc status code detail ps type_slug = (Inr r, sc')"
  obtains type title inst where
    "problem_type_member (problem_slug type_slug code) = Inr type"
    "http_phrase status = Some title" "py_quote [47] (sc_path sc) = Some inst"
    "rs_status r = status" "rs_media r = PROBLEM_JSON"
    "rs_body r = Some (problem_body type title status detail inst code ps)"
    "sc' = sc\<lparr>sc_error_code := Some code\<rparr>"
  using assms by (auto simp: problem_response_def split: sum.splits option.splits)

lemma problem_response_scope:
  "snd (problem_response sc status code detail ps type_slug) = sc\<lparr>sc_error_code := Some code\<rparr>"
  by (simp add: problem_response_def)

lemma py_quote_Some_iff: "(\<exists>q. py_quote safe s = Some q) \<longleftrightarrow> (\<exists>bs. utf8_encode s = Some bs)"
  by (auto simp: py_quote_def)

text \<open>
  A document \<open>type\<close> agrees with a \<open>code\<close>: it is \<open>about:blank\<close>, or the registry has it with
  that code.
\<close>

definition type_of_code :: "pystr \<Rightarrow> pystr \<Rightarrow> bool" where
  "type_of_code type code \<longleftrightarrow>
     type = lit ''about:blank''
     \<or> (\<exists>t \<in> snd ` set PROBLEM_TYPES. type = problem_type_uri t \<and> pt_code t = code)"

lemma registry_lookup [simp]:
  "map_of PROBLEM_TYPES (lit ''bad-user-input'') = Some bad_user_input_type"
  "map_of PROBLEM_TYPES (lit ''not-found'') = Some not_found_type"
  "map_of PROBLEM_TYPES (lit ''conflict'') = Some conflict_type"
  "map_of PROBLEM_TYPES (lit ''payload-too-large'') = Some payload_too_large_type"
  "map_of PROBLEM_TYPES (lit ''internal-server-error'') = Some internal_server_error_type"
  by (simp_all add: PROBLEM_TYPES_def)

lemma registry_set:
  "snd ` set PROBLEM_TYPES =
     {bad_user_input_type, not_found_type, conflict_type, payload_too_large_type,
      internal_server_error_type}"
  by (simp add: PROBLEM_TYPES_def)

lemma default_type_simps [simp]:
  "map_of DEFAULT_TYPE_BY_CODE (lit ''BAD_USER_INPUT'') = Some (lit ''bad-user-input'')"
  "map_of DEFAULT_TYPE_BY_CODE (lit ''NOT_FOUND'') = Some (lit ''not-found'')"
  "map_of DEFAULT_TYPE_BY_CODE (lit ''CONFLICT'') = Some (lit ''conflict'')"
  "map_of DEFAULT_TYPE_BY_CODE (lit ''INTERNAL_SERVER_ERROR'') = Some (lit ''internal-server-error'')"
  by (simp_all add: DEFAULT_TYPE_BY_CODE_def)

lemma default_type_cases:
  assumes "map_of DEFAULT_TYPE_BY_CODE code = Some s"
  shows "\<exists>t \<in> snd ` set PROBLEM_TYPES. map_of PROBLEM_TYPES s = Some t \<and> pt_code t = code \<and> s \<noteq> []"
proof -
  from assms have "(code, s) \<in> set DEFAULT_TYPE_BY_CODE" by (rule map_of_SomeD)
  then consider "code = lit ''BAD_USER_INPUT''" "s = lit ''bad-user-input''"
    | "code = lit ''NOT_FOUND''" "s = lit ''not-found''"
    | "code = lit ''CONFLICT''" "s = lit ''conflict''"
    | "code = lit ''INTERNAL_SERVER_ERROR''" "s = lit ''internal-server-error''"
    by (auto simp: DEFAULT_TYPE_BY_CODE_def)
  then show ?thesis by cases (simp_all add: registry_set)
qed

lemma default_type_of_code:
  assumes "problem_type_member (map_of DEFAULT_TYPE_BY_CODE code) = Inr type"
  shows "type_of_code type code"
proof (cases "map_of DEFAULT_TYPE_BY_CODE code")
  case None
  with assms show ?thesis by (simp add: problem_type_member_def type_of_code_def)
next
  case (Some s)
  from default_type_cases [OF Some] obtain t where
    t: "t \<in> snd ` set PROBLEM_TYPES" "map_of PROBLEM_TYPES s = Some t" "pt_code t = code" "s \<noteq> []"
    by blast
  with Some assms have "type = problem_type_uri t" by (simp add: problem_type_member_def)
  with t show ?thesis unfolding type_of_code_def by blast
qed

lemma service_error_type:
  assumes "service_error e"
  shows "\<exists>t \<in> snd ` set PROBLEM_TYPES.
     problem_type_member (problem_slug (ae_type_slug e) (ae_code e)) = Inr (problem_type_uri t)
     \<and> pt_code t = ae_code e \<and> pt_status t = ae_status e
     \<and> map_of PROBLEM_TYPES (pt_slug t) = Some t"
proof -
  consider "ae_status e = 400" "ae_code e = lit ''BAD_USER_INPUT''" "ae_type_slug e = None"
    | "ae_status e = 404" "ae_code e = lit ''NOT_FOUND''" "ae_type_slug e = None"
    | "ae_status e = 409" "ae_code e = lit ''CONFLICT''" "ae_type_slug e = None"
    | "ae_status e = 413" "ae_code e = lit ''BAD_USER_INPUT''"
      "ae_type_slug e = Some (lit ''payload-too-large'')"
    using assms by (auto simp: service_error_def)
  then show ?thesis
    by cases (simp_all add: registry_set problem_slug_def problem_type_member_def)
qed

lemma http_phrase_simps [simp]:
  "http_phrase 400 = Some (lit ''Bad Request'')" "http_phrase 404 = Some (lit ''Not Found'')"
  "http_phrase 405 = Some (lit ''Method Not Allowed'')" "http_phrase 409 = Some (lit ''Conflict'')"
  "http_phrase 413 = Some (lit ''Content Too Large'')"
  "http_phrase 500 = Some (lit ''Internal Server Error'')"
  by (simp_all add: http_phrase_def http_phrases_def)

lemma registry_titles:
  "t \<in> snd ` set PROBLEM_TYPES \<Longrightarrow> \<exists>title. http_phrase (pt_status t) = Some title"
  by (auto simp: registry_set)

lemma problem_type_out_of_registry:
  assumes "t \<in> snd ` set PROBLEM_TYPES"
  shows "\<exists>doc. problem_type_out_of t = Inr doc \<and> po_type doc = problem_type_uri t
     \<and> po_code doc = pt_code t \<and> po_status doc = pt_status t
     \<and> http_phrase (pt_status t) = Some (po_title doc)"
  using registry_titles [OF assms]
  by (auto simp: problem_type_out_of_def problem_type_title_def)

subsection \<open>Properties\<close>

text \<open>
  C33. An error the service raises is answered with its own status and code, as
  application/problem+json with the six members of RFC 9457 plus \<open>code\<close>; the \<open>type\<close> it names is
  registered with this status and this code, dereferencing its slug gives the document of that
  type, and the code is left in the scope for the metrics.
\<close>

theorem service_error_response:
  assumes "service_error e" and "utf8_encode (sc_path sc) = Some bs"
  shows "\<exists>r t doc. handle_exception sc (ApiExn e) = Some (Inr r, sc\<lparr>sc_error_code := Some (ae_code e)\<rparr>)
     \<and> rs_status r = ae_status e \<and> rs_media r = PROBLEM_JSON
     \<and> body_member ''type'' r = Some (JStr (problem_type_uri t))
     \<and> body_member ''title'' r = map_option JStr (http_phrase (ae_status e))
     \<and> body_member ''status'' r = Some (JInt (int (ae_status e)))
     \<and> body_member ''detail'' r = Some (JStr (ae_detail e))
     \<and> body_member ''code'' r = Some (JStr (ae_code e))
     \<and> get_problem_type (pt_slug t) = Inr doc
     \<and> po_type doc = problem_type_uri t \<and> po_code doc = ae_code e \<and> po_status doc = ae_status e"
proof -
  obtain t where t: "t \<in> snd ` set PROBLEM_TYPES"
    "problem_type_member (problem_slug (ae_type_slug e) (ae_code e)) = Inr (problem_type_uri t)"
    "pt_code t = ae_code e" "pt_status t = ae_status e"
    "map_of PROBLEM_TYPES (pt_slug t) = Some t"
    using service_error_type [OF assms(1)] by blast
  obtain doc where doc: "problem_type_out_of t = Inr doc" "po_type doc = problem_type_uri t"
    "po_code doc = pt_code t" "po_status doc = pt_status t"
    "http_phrase (pt_status t) = Some (po_title doc)"
    using problem_type_out_of_registry [OF t(1)] by blast
  obtain q where q: "py_quote [47] (sc_path sc) = Some q" using assms(2) by (auto simp: py_quote_def)
  have title: "http_phrase (ae_status e) = Some (po_title doc)" using doc(5) t(4) by simp
  show ?thesis
    using problem_response_ok [OF t(2) title q] t doc title
    by (auto simp: handle_exception_def api_error_handler_def get_problem_type_def
        intro!: exI [of _ t] exI [of _ doc])
qed

theorem service_error_response_witness:
  "service_error (ConflictError (lit ''stale'')) \<and> utf8_encode (lit ''/messages'') \<noteq> None
   \<and> (\<exists>r. handle_exception (http_scope (lit ''PATCH'') (lit ''/messages''))
            (ApiExn (ConflictError (lit ''stale'')))
          = Some (Inr r, (http_scope (lit ''PATCH'') (lit ''/messages''))\<lparr>sc_error_code := Some (lit ''CONFLICT'')\<rparr>)
        \<and> rs_status r = 409)"
proof -
  have se: "service_error (ConflictError (lit ''stale''))" by simp
  have enc: "utf8_encode (sc_path (http_scope (lit ''PATCH'') (lit ''/messages''))) = Some (lit ''/messages'')"
    by (simp add: http_scope_def lit_def utf8_char_def)
  from service_error_response [OF se enc] have
    "\<exists>r. handle_exception (http_scope (lit ''PATCH'') (lit ''/messages''))
            (ApiExn (ConflictError (lit ''stale'')))
          = Some (Inr r, (http_scope (lit ''PATCH'') (lit ''/messages''))\<lparr>sc_error_code := Some (lit ''CONFLICT'')\<rparr>)
        \<and> rs_status r = 409"
    unfolding service_error_sel by blast
  with se enc show ?thesis by (simp add: http_scope_def)
qed

text \<open>
  Whatever exception is answered with a problem document, its \<open>type\<close> and its \<open>code\<close> agree:
  the type is \<open>about:blank\<close> or a registered type with that code, and the metrics middleware
  finds the same code in the scope. The only errors with a status that is not in the registry
  are those of the framework.
\<close>

theorem problem_type_agrees_with_code:
  assumes "handle_exception sc e = Some (Inr r, sc')" and "\<forall>a. e = ApiExn a \<longrightarrow> service_error a"
  shows "\<exists>type code. body_member ''type'' r = Some (JStr type) \<and> body_member ''code'' r = Some (JStr code)
     \<and> body_member ''status'' r = Some (JInt (int (rs_status r)))
     \<and> type_of_code type code \<and> sc_error_code sc' = Some code"
proof (cases e)
  case (ApiExn a)
  with assms have s: "service_error a" and
    p: "problem_response sc (ae_status a) (ae_code a) (ae_detail a) (ae_invalid_params a)
          (ae_type_slug a) = (Inr r, sc')"
    by (simp_all add: handle_exception_def api_error_handler_def)
  from service_error_type [OF s] p show ?thesis
    by (elim problem_response_Inr) (auto simp: type_of_code_def)
next
  case (RequestValidationError errs)
  with assms(1) have p: "problem_response sc 400 (lit ''BAD_USER_INPUT'') VALIDATION_DETAIL
      (Some (map invalid_param_of errs)) None = (Inr r, sc')"
    by (simp add: handle_exception_def validation_error_handler_def)
  then show ?thesis
    by (elim problem_response_Inr)
      (auto simp: problem_slug_def
        dest: default_type_of_code [of "lit ''BAD_USER_INPUT''", simplified])
next
  case (StarletteHTTPException status detail headers)
  with assms(1) obtain r' where
    p: "problem_response sc status (http_error_code status) detail None None = (Inr r', sc')" and
    r: "rs_status r = rs_status r'" "rs_body r = rs_body r'"
    by (auto simp: handle_exception_def http_error_handler_def split: prod.splits sum.splits if_splits)
  from p r show ?thesis
    by (elim problem_response_Inr) (auto simp: problem_slug_def dest: default_type_of_code)
qed (use assms(1) in \<open>simp_all add: handle_exception_def\<close>)

theorem problem_type_agrees_with_code_witness:
  "\<exists>r sc'. handle_exception (http_scope (lit ''PUT'') (lit ''/messages''))
       (StarletteHTTPException 405 (lit ''Method Not Allowed'') [(lit ''allow'', lit ''GET'')]) = Some (Inr r, sc')
     \<and> (\<exists>code. body_member ''code'' r = Some (JStr code) \<and> sc_error_code sc' = Some code)"
proof -
  let ?e = "StarletteHTTPException 405 (lit ''Method Not Allowed'') [(lit ''allow'', lit ''GET'')]"
  have none: "map_of DEFAULT_TYPE_BY_CODE (http_error_code 405) = None"
    by (simp add: DEFAULT_TYPE_BY_CODE_def http_error_code_def lit_def nat_str.simps)
  have q: "py_quote [47] (lit ''/messages'') = Some (lit ''/messages'')"
    by (rule py_quote_plain) (simp add: lit_def always_safe_def)
  have "problem_slug None (http_error_code 405) = None" by (simp add: problem_slug_def none)
  then have "\<exists>r sc'. handle_exception (http_scope (lit ''PUT'') (lit ''/messages'')) ?e = Some (Inr r, sc')"
    by (simp add: handle_exception_def http_error_handler_def problem_response_def q
        http_scope_def problem_type_member_def Let_def)
  then obtain r sc' where
    r: "handle_exception (http_scope (lit ''PUT'') (lit ''/messages'')) ?e = Some (Inr r, sc')"
    by blast
  from problem_type_agrees_with_code [OF r] show ?thesis using r by blast
qed

text \<open>
  The \<open>instance\<close> of every problem document is a valid path reference (unreserved
  characters, slashes and percent escapes only), and decoding it gives back the path the request
  was made with.
\<close>

theorem problem_instance_roundtrip:
  assumes "problem_response sc status code detail ps type_slug = (Inr r, sc')"
  shows "\<exists>inst. body_member ''instance'' r = Some (JStr inst)
     \<and> (\<forall>c \<in> set inst. uri_path_char c) \<and> utf8_decode (percent_decode inst) = sc_path sc"
  using assms
  by (elim problem_response_Inr) (auto dest: py_quote_uri py_quote_roundtrip)

theorem problem_instance_roundtrip_witness:
  "\<exists>r sc'. problem_response (http_scope (lit ''GET'') [47, 252]) 404 (lit ''NOT_FOUND'') (lit ''x'') None None
       = (Inr r, sc')
     \<and> (\<exists>inst. body_member ''instance'' r = Some (JStr inst)
          \<and> utf8_decode (percent_decode inst) = [47, 252])"
proof -
  have "\<exists>q. py_quote [47] [47, 252] = Some q" by (simp add: py_quote_def utf8_char_def)
  then have "\<exists>r sc'. problem_response (http_scope (lit ''GET'') [47, 252]) 404 (lit ''NOT_FOUND'')
      (lit ''x'') None None = (Inr r, sc')"
    by (auto simp: problem_response_def problem_slug_def problem_type_member_def http_scope_def)
  then obtain r sc' where
    r: "problem_response (http_scope (lit ''GET'') [47, 252]) 404 (lit ''NOT_FOUND'') (lit ''x'') None None
      = (Inr r, sc')" by blast
  from problem_instance_roundtrip [OF r] r show ?thesis by (auto simp: http_scope_def)
qed

text \<open>
  A request that fails validation is answered 400 BAD_USER_INPUT, never 422, and the document
  lists every failing field at once: one entry per error, in the order they were found, each with
  the name of its field.
\<close>

theorem validation_lists_every_error:
  assumes "handle_exception sc (RequestValidationError errors) = Some (Inr r, sc')"
    and "errors \<noteq> []"
  shows "rs_status r = 400 \<and> body_member ''code'' r = Some (JStr (lit ''BAD_USER_INPUT''))
     \<and> (\<exists>ps. body_member ''invalidParams'' r = Some (invalid_params_json ps)
          \<and> length ps = length errors
          \<and> (\<forall>i < length errors. ps ! i = invalid_param_of (errors ! i)))"
proof -
  from assms(1) have p: "problem_response sc 400 (lit ''BAD_USER_INPUT'') VALIDATION_DETAIL
      (Some (map invalid_param_of errors)) None = (Inr r, sc')"
    by (simp add: handle_exception_def validation_error_handler_def)
  from assms(2) obtain e es where "errors = e # es" by (cases errors) auto
  with p show ?thesis
    by (elim problem_response_Inr)
      (simp add: body_member_invalid_params exI [of _ "map invalid_param_of errors"]
        nth_map [of _ "e # es" invalid_param_of, simplified])
qed

definition sample_verr :: verr where
  "sample_verr = \<lparr>ve_type = ''missing'', ve_loc = [LStr (lit ''body''), LStr (lit ''title'')],
     ve_ctx = None, ve_input = None, ve_msg = lit ''Field required''\<rparr>"

theorem validation_lists_every_error_witness:
  "\<exists>r sc'. handle_exception (http_scope (lit ''POST'') (lit ''/m'')) (RequestValidationError [sample_verr])
       = Some (Inr r, sc') \<and> rs_status r = 400"
proof -
  have q: "py_quote [47] (lit ''/m'') = Some (lit ''/m'')"
    by (rule py_quote_plain) (simp add: lit_def always_safe_def)
  have "\<exists>r sc'. handle_exception (http_scope (lit ''POST'') (lit ''/m''))
      (RequestValidationError [sample_verr]) = Some (Inr r, sc')"
    by (simp add: handle_exception_def validation_error_handler_def problem_response_def
        problem_slug_def problem_type_member_def http_scope_def q)
  then obtain r sc' where r: "handle_exception (http_scope (lit ''POST'') (lit ''/m''))
      (RequestValidationError [sample_verr]) = Some (Inr r, sc')" by blast
  from validation_lists_every_error [OF r] r show ?thesis by auto
qed

text \<open>The names a field gets: the segments after the part of the request it is in.\<close>

lemma loc_name_field:
  "f \<notin> {lit ''body'', lit ''query'', lit ''path''} \<Longrightarrow> loc_name (LStr f) = Some f"
  by simp

text \<open>
  A validation error of one field names that field, in whichever part of the request it is,
  and an error of the body itself (its location is the offset of a JSON syntax error) names
  \<open>body\<close>.
\<close>

theorem param_name_of_location:
  assumes "part \<in> {lit ''body'', lit ''query'', lit ''path''}"
  shows "param_name [LStr part, LInt offset] = lit ''body''
    \<and> (\<forall>f. f \<notin> {[], lit ''body'', lit ''query'', lit ''path''} \<longrightarrow>
         param_name [LStr part, LStr f] = f \<and> param_name [LStr part, LStr f, LInt offset] = f)"
  using assms by (auto simp: param_name_def List.map_filter_def)

theorem param_name_of_location_witness:
  "param_name [LStr (lit ''path''), LStr (lit ''id'')] = lit ''id''
   \<and> param_name [LStr (lit ''body''), LInt 7] = lit ''body''"
  using param_name_of_location [of "lit ''body''" 7] param_name_of_location [of "lit ''path''" 0]
  by simp

end
