(* ===== verification/Validation.thy ===== *)
theory Validation
  imports Problems
begin

section \<open>Request models: \<open>app/schemas.py\<close>\<close>

text \<open>
  The string checks of the service (\<open>_clean\<close>, \<open>_clean_email\<close> with its regular expression, the
  field validator \<open>_check_string\<close>) and the four request models, as functions from a JSON body to
  either every validation error or the payload. Pydantic's own parsers of a field's type are the
  fields of a \<open>pydantic\<close> record the models take as an argument; \<open>pydantic_ok\<close> states what is
  documented of them.
\<close>

subsection \<open>The email pattern\<close>

text \<open>
  The pattern \<open>^[^\s@]+@[^\s@]+\.[^\s@]+$\<close> as its sequence of atoms, and what \<open>re.match\<close> does
  with such a sequence: a class matches one character, a repeated class one or more of them, and
  \<open>$\<close> the end of the string or the position before a final newline.
\<close>

datatype re_atom = One "nat \<Rightarrow> bool" | Plus "nat \<Rightarrow> bool" | End

fun re_match :: "re_atom list \<Rightarrow> pystr \<Rightarrow> bool" where
  "re_match [] s = True"
| "re_match (End # as) s = ((s = [] \<or> s = [10]) \<and> re_match as s)"
| "re_match (One c # as) [] = False"
| "re_match (One c # as) (x # xs) = (c x \<and> re_match as xs)"
| "re_match (Plus c # as) [] = False"
| "re_match (Plus c # as) (x # xs) = (c x \<and> (re_match (Plus c # as) xs \<or> re_match as xs))"

definition email_char :: "nat \<Rightarrow> bool" where
  "email_char c \<longleftrightarrow> \<not> py_isspace c \<and> c \<noteq> 64"

definition EMAIL_RE :: "re_atom list" where
  "EMAIL_RE = [Plus email_char, One (\<lambda>c. c = 64), Plus email_char, One (\<lambda>c. c = 46),
               Plus email_char, End]"

definition MAX_INT4 :: int where "MAX_INT4 = 2147483647"

definition TITLE_MAX :: nat where "TITLE_MAX = 100"
definition CONTENT_MAX :: nat where "CONTENT_MAX = 1000"
definition NAME_MAX :: nat where "NAME_MAX = 50"
definition EMAIL_MAX :: nat where "EMAIL_MAX = 100"

subsection \<open>Cleaning a string\<close>

definition clean :: "pystr \<Rightarrow> pystr \<Rightarrow> nat \<Rightarrow> exn + pystr" where
  "clean value name max_length =
     (let trimmed = py_strip value
      in if trimmed = [] then Inl (ValueError (name @ lit '' is required and cannot be blank''))
         else if length trimmed > max_length then
           Inl (ValueError (name @ lit '' cannot exceed '' @ nat_str max_length @ lit '' characters''))
         else Inr trimmed)"

definition clean_email :: "pystr \<Rightarrow> pystr \<Rightarrow> nat \<Rightarrow> exn + pystr" where
  "clean_email value name max_length =
     (case clean value name max_length of
        Inl e \<Rightarrow> Inl e
      | Inr trimmed \<Rightarrow>
          if \<not> re_match EMAIL_RE trimmed then
            Inl (ValueError (name @ lit '' must be a valid email address''))
          else Inr trimmed)"

definition LIMITS :: "(pystr \<times> nat) list" where
  "LIMITS = [(lit ''title'', TITLE_MAX), (lit ''content'', CONTENT_MAX), (lit ''name'', NAME_MAX),
             (lit ''email'', EMAIL_MAX)]"

text \<open>\<open>_check_string\<close>: \<open>None\<close> is an optional field that is absent or null.\<close>

definition check_string :: "pystr option \<Rightarrow> pystr option \<Rightarrow> exn + pystr option" where
  "check_string value field_name =
     (case value of
        None \<Rightarrow> Inr None
      | Some v \<Rightarrow>
          (let name = (case field_name of Some n \<Rightarrow> if n \<noteq> [] then n else lit ''value'' | None \<Rightarrow> lit ''value'')
           in case map_of LIMITS name of
                None \<Rightarrow> Inl (KeyError name)
              | Some limit \<Rightarrow>
                  (case (if name = lit ''email'' then clean_email v name limit else clean v name limit) of
                     Inl e \<Rightarrow> Inl e
                   | Inr trimmed \<Rightarrow> Inr (Some trimmed))))"

subsection \<open>Fields of a request model\<close>

text \<open>
  What pydantic reports when a value does not have a field's type: the type of the error, its
  context and its message.
\<close>

type_synonym type_error = "string \<times> (string \<times> ctx_val) list option \<times> pystr"

record pydantic =
  pyd_str :: "json \<Rightarrow> type_error + pystr"
  pyd_uuid :: "json \<Rightarrow> type_error + uuid"
  pyd_int :: "json \<Rightarrow> type_error + int"

text \<open>
  The documented behaviour the service relies on: a string field takes JSON strings as they are
  and nothing else (\<open>string_type\<close>), an integer field takes JSON integers, a UUID field takes the
  canonical form, and none of the three takes \<open>null\<close>.
\<close>

definition pydantic_ok :: "pydantic \<Rightarrow> bool" where
  "pydantic_ok P \<longleftrightarrow>
     (\<forall>s. pyd_str P (JStr s) = Inr s)
     \<and> (\<forall>j. (\<nexists>s. j = JStr s) \<longrightarrow> (\<exists>ctx msg. pyd_str P j = Inl (''string_type'', ctx, msg)))
     \<and> (\<forall>i. pyd_int P (JInt i) = Inr i) \<and> (\<exists>e. pyd_int P JNull = Inl e)
     \<and> (\<forall>u. pyd_uuid P (JStr (uuid_str u)) = Inr u) \<and> (\<exists>e. pyd_uuid P JNull = Inl e)"

definition field_error :: "pystr \<Rightarrow> json option \<Rightarrow> type_error \<Rightarrow> verr" where
  "field_error alias input e =
     (case e of (kind, ctx, msg) \<Rightarrow>
        \<lparr>ve_type = kind, ve_loc = [LStr (lit ''body''), LStr alias], ve_ctx = ctx, ve_input = input,
         ve_msg = msg\<rparr>)"

definition missing_error :: "pystr \<Rightarrow> json \<Rightarrow> verr" where
  "missing_error alias body = field_error alias (Some body) (''missing'', None, lit ''Field required'')"

text \<open>
  A ValueError raised by a validator of the model becomes an error of type \<open>value_error\<close> whose
  message has pydantic's prefix. (A KeyError would not be caught; it is kept as an error of its
  own type.)
\<close>

definition validator_error :: "pystr \<Rightarrow> json \<Rightarrow> exn \<Rightarrow> verr" where
  "validator_error alias input e =
     (case e of
        ValueError msg \<Rightarrow> field_error alias (Some input) (''value_error'', None, lit ''Value error, '' @ msg)
      | _ \<Rightarrow> field_error alias (Some input) (''uncaught'', None, []))"

text \<open>\<open>populate_by_name\<close>: the alias is looked up first, then the field's own name.\<close>

definition lookup_field :: "pystr \<Rightarrow> pystr \<Rightarrow> json \<Rightarrow> json option" where
  "lookup_field alias name body =
     (case json_get alias body of Some v \<Rightarrow> Some v | None \<Rightarrow> json_get name body)"

definition str_field :: "pydantic \<Rightarrow> pystr \<Rightarrow> json \<Rightarrow> verr list + pystr" where
  "str_field P name body =
     (case lookup_field name name body of
        None \<Rightarrow> Inl [missing_error name body]
      | Some v \<Rightarrow>
          (case pyd_str P v of
             Inl e \<Rightarrow> Inl [field_error name (Some v) e]
           | Inr s \<Rightarrow>
               (case check_string (Some s) (Some name) of
                  Inl e \<Rightarrow> Inl [validator_error name v e]
                | Inr (Some t) \<Rightarrow> Inr t
                | Inr None \<Rightarrow> Inl [validator_error name v (OtherError ''unreachable'')])))"

definition optional_str_field :: "pydantic \<Rightarrow> pystr \<Rightarrow> json \<Rightarrow> verr list + pystr option" where
  "optional_str_field P name body =
     (case lookup_field name name body of
        None \<Rightarrow> Inr None
      | Some JNull \<Rightarrow>
          (case check_string None (Some name) of
             Inl e \<Rightarrow> Inl [validator_error name JNull e] | Inr r \<Rightarrow> Inr r)
      | Some v \<Rightarrow>
          (case pyd_str P v of
             Inl e \<Rightarrow> Inl [field_error name (Some v) e]
           | Inr s \<Rightarrow>
               (case check_string (Some s) (Some name) of
                  Inl e \<Rightarrow> Inl [validator_error name v e] | Inr r \<Rightarrow> Inr r)))"

text \<open>\<open>Field(ge=lo, le=hi)\<close> on an integer.\<close>

definition int_bounds :: "int \<Rightarrow> int \<Rightarrow> int \<Rightarrow> type_error + int" where
  "int_bounds lo hi i =
     (if i < lo then
        Inl (''greater_than_equal'', Some [(''ge'', CInt lo)],
             lit ''Input should be greater than or equal to '' @ int_str lo)
      else if hi < i then
        Inl (''less_than_equal'', Some [(''le'', CInt hi)],
             lit ''Input should be less than or equal to '' @ int_str hi)
      else Inr i)"

definition int_field :: "pydantic \<Rightarrow> pystr \<Rightarrow> int \<Rightarrow> int \<Rightarrow> json \<Rightarrow> verr list + int" where
  "int_field P name lo hi body =
     (case lookup_field name name body of
        None \<Rightarrow> Inl [missing_error name body]
      | Some v \<Rightarrow>
          (case pyd_int P v of
             Inl e \<Rightarrow> Inl [field_error name (Some v) e]
           | Inr i \<Rightarrow>
               (case int_bounds lo hi i of
                  Inl e \<Rightarrow> Inl [field_error name (Some v) e] | Inr j \<Rightarrow> Inr j)))"

definition uuid_field :: "pydantic \<Rightarrow> pystr \<Rightarrow> pystr \<Rightarrow> json \<Rightarrow> verr list + uuid" where
  "uuid_field P alias name body =
     (case lookup_field alias name body of
        None \<Rightarrow> Inl [missing_error alias body]
      | Some v \<Rightarrow>
          (case pyd_uuid P v of Inl e \<Rightarrow> Inl [field_error alias (Some v) e] | Inr u \<Rightarrow> Inr u))"

fun field_errors :: "verr list + 'a \<Rightarrow> verr list" where
  "field_errors (Inl es) = es"
| "field_errors (Inr _) = []"

text \<open>A body that is not an object fails as a whole; \<open>null\<close> counts as no body.\<close>

definition body_type_error :: "json \<Rightarrow> verr" where
  "body_type_error body =
     \<lparr>ve_type = (if body = JNull then ''missing'' else ''model_attributes_type''), ve_loc = [LStr (lit ''body'')], ve_ctx = None,
      ve_input = Some body,
      ve_msg = lit ''Input should be a valid dictionary or object to extract fields from''\<rparr>"

fun is_object :: "json \<Rightarrow> bool" where
  "is_object (JObj kvs) = True"
| "is_object _ = False"

subsection \<open>The request models\<close>

record MessageCreate =
  mc_title :: pystr
  mc_content :: pystr
  mc_author_id :: uuid

record MessageUpdate =
  mu_title :: "pystr option"
  mu_content :: pystr
  mu_version :: int

record AuthorCreate =
  ac_name :: pystr
  ac_email :: pystr

record AuthorUpdate =
  au_name :: "pystr option"
  au_email :: "pystr option"

text \<open>A model is built only when no field failed; otherwise every error is reported.\<close>

definition validate_MessageCreate :: "pydantic \<Rightarrow> json \<Rightarrow> verr list + MessageCreate" where
  "validate_MessageCreate P body =
     (if \<not> is_object body then Inl [body_type_error body]
      else
        (let title = str_field P (lit ''title'') body;
             content = str_field P (lit ''content'') body;
             author_id = uuid_field P (lit ''authorId'') (lit ''author_id'') body
         in case (title, content, author_id) of
              (Inr t, Inr c, Inr a) \<Rightarrow>
                Inr \<lparr>mc_title = t, mc_content = c, mc_author_id = a\<rparr>
            | _ \<Rightarrow> Inl (field_errors title @ field_errors content @ field_errors author_id)))"

definition validate_MessageUpdate :: "pydantic \<Rightarrow> json \<Rightarrow> verr list + MessageUpdate" where
  "validate_MessageUpdate P body =
     (if \<not> is_object body then Inl [body_type_error body]
      else
        (let title = optional_str_field P (lit ''title'') body;
             content = str_field P (lit ''content'') body;
             version = int_field P (lit ''version'') 0 MAX_INT4 body
         in case (title, content, version) of
              (Inr t, Inr c, Inr v) \<Rightarrow> Inr \<lparr>mu_title = t, mu_content = c, mu_version = v\<rparr>
            | _ \<Rightarrow> Inl (field_errors title @ field_errors content @ field_errors version)))"

definition validate_AuthorCreate :: "pydantic \<Rightarrow> json \<Rightarrow> verr list + AuthorCreate" where
  "validate_AuthorCreate P body =
     (if \<not> is_object body then Inl [body_type_error body]
      else
        (let name = str_field P (lit ''name'') body;
             email = str_field P (lit ''email'') body
         in case (name, email) of
              (Inr n, Inr e) \<Rightarrow> Inr \<lparr>ac_name = n, ac_email = e\<rparr>
            | _ \<Rightarrow> Inl (field_errors name @ field_errors email)))"

definition validate_AuthorUpdate :: "pydantic \<Rightarrow> json \<Rightarrow> verr list + AuthorUpdate" where
  "validate_AuthorUpdate P body =
     (if \<not> is_object body then Inl [body_type_error body]
      else
        (let name = optional_str_field P (lit ''name'') body;
             email = optional_str_field P (lit ''email'') body
         in case (name, email) of
              (Inr n, Inr e) \<Rightarrow> Inr \<lparr>au_name = n, au_email = e\<rparr>
            | _ \<Rightarrow> Inl (field_errors name @ field_errors email)))"

subsection \<open>Lemmas about the checks\<close>

lemma re_match_Plus_iff:
  "re_match (Plus c # as) s \<longleftrightarrow> (\<exists>xs ys. s = xs @ ys \<and> xs \<noteq> [] \<and> list_all c xs \<and> re_match as ys)"
proof (induction s)
  case Nil
  then show ?case by simp
next
  case (Cons x s)
  show ?case
  proof
    assume "re_match (Plus c # as) (x # s)"
    then consider (more) "c x" "re_match (Plus c # as) s" | (last) "c x" "re_match as s" by auto
    then show "\<exists>xs ys. x # s = xs @ ys \<and> xs \<noteq> [] \<and> list_all c xs \<and> re_match as ys"
    proof cases
      case more
      with Cons.IH obtain xs ys where "s = xs @ ys" "list_all c xs" "re_match as ys" by blast
      with more(1) show ?thesis by (intro exI [of _ "x # xs"] exI [of _ ys]) simp
    next
      case last
      then show ?thesis by (intro exI [of _ "[x]"] exI [of _ s]) simp
    qed
  next
    assume "\<exists>xs ys. x # s = xs @ ys \<and> xs \<noteq> [] \<and> list_all c xs \<and> re_match as ys"
    then obtain xs ys where xs: "x # s = x # xs @ ys" "c x" "list_all c xs" "re_match as ys"
      by (auto simp: neq_Nil_conv)
    show "re_match (Plus c # as) (x # s)"
    proof (cases "xs = []")
      case True
      with xs show ?thesis by simp
    next
      case False
      with xs Cons.IH have "re_match (Plus c # as) s" by auto
      with xs(2) show ?thesis by simp
    qed
  qed
qed

lemma re_match_One_iff: "re_match (One c # as) s \<longleftrightarrow> (\<exists>x ys. s = x # ys \<and> c x \<and> re_match as ys)"
  by (cases s) auto

text \<open>The shape the pattern asks of a string that does not end in a newline.\<close>

definition email_shape :: "pystr \<Rightarrow> bool" where
  "email_shape t \<longleftrightarrow>
     (\<exists>local sub top. t = local @ [64] @ sub @ [46] @ top
        \<and> local \<noteq> [] \<and> sub \<noteq> [] \<and> top \<noteq> []
        \<and> list_all email_char (local @ sub @ top))"

lemma EMAIL_RE_iff:
  assumes "s = [] \<or> last s \<noteq> 10"
  shows "re_match EMAIL_RE s \<longleftrightarrow> email_shape s"
proof
  assume "re_match EMAIL_RE s"
  then obtain l a b e where s: "s = l @ 64 # a @ 46 # b @ e" and
    ne: "l \<noteq> []" "a \<noteq> []" "b \<noteq> []" and all: "list_all email_char l" "list_all email_char a"
    "list_all email_char b" and e: "e = [] \<or> e = [10]"
    unfolding EMAIL_RE_def by (auto simp: re_match_Plus_iff re_match_One_iff)
  have "e = []" using e assms s by auto
  then show "email_shape s" unfolding email_shape_def
    using s ne all by (intro exI [of _ l] exI [of _ a] exI [of _ b]) simp
next
  assume "email_shape s"
  then obtain l a b where s: "s = l @ 64 # a @ 46 # b" and
    ne: "l \<noteq> []" "a \<noteq> []" "b \<noteq> []" and all: "list_all email_char l" "list_all email_char a"
    "list_all email_char b" by (auto simp: email_shape_def)
  have "re_match [Plus email_char, End] b" using ne(3) all(3) by (subst re_match_Plus_iff) auto
  then have "re_match [One (\<lambda>c. c = 46), Plus email_char, End] (46 # b)" by simp
  then have "re_match [Plus email_char, One (\<lambda>c. c = 46), Plus email_char, End] (a @ 46 # b)"
    using ne(2) all(2) by (subst re_match_Plus_iff) blast
  then have "re_match [One (\<lambda>c. c = 64), Plus email_char, One (\<lambda>c. c = 46), Plus email_char, End]
      (64 # a @ 46 # b)" by simp
  then show "re_match EMAIL_RE s"
    unfolding EMAIL_RE_def s using ne(1) all(1) by (subst re_match_Plus_iff) blast
qed

text \<open>A stored string is trimmed, not blank and within its limit.\<close>

definition clean_text :: "nat \<Rightarrow> pystr \<Rightarrow> bool" where
  "clean_text n t \<longleftrightarrow> py_strip t = t \<and> t \<noteq> [] \<and> length t \<le> n"

lemma clean_Inr_iff: "clean v name n = Inr t \<longleftrightarrow> t = py_strip v \<and> clean_text n t"
  by (auto simp: clean_def clean_text_def Let_def)

lemma clean_text_last: "clean_text n t \<Longrightarrow> \<not> py_isspace (last t)"
  using py_strip_ends(2) [of t] by (auto simp: clean_text_def)

lemma clean_cases:
  obtains "clean v name n = Inr (py_strip v)" "clean_text n (py_strip v)"
  | m where "clean v name n = Inl (ValueError m)" "\<not> clean_text n (py_strip v)"
  by (cases "py_strip v = []"; cases "n < length (py_strip v)")
    (simp_all add: clean_def clean_text_def Let_def)

lemma clean_email_cases:
  obtains "clean_email v name n = Inr (py_strip v)" "clean_text n (py_strip v)" "email_shape (py_strip v)"
  | m where "clean_email v name n = Inl (ValueError m)"
      "\<not> (clean_text n (py_strip v) \<and> email_shape (py_strip v))"
proof (rule clean_cases [where v = v and name = name and n = n])
  assume 1: "clean v name n = Inr (py_strip v)" "clean_text n (py_strip v)"
  have "re_match EMAIL_RE (py_strip v) \<longleftrightarrow> email_shape (py_strip v)"
    by (rule EMAIL_RE_iff) (use clean_text_last [OF 1(2)] in \<open>auto simp: py_isspace_def\<close>)
  with 1 that show ?thesis by (cases "email_shape (py_strip v)") (simp_all add: clean_email_def)
next
  fix m assume "clean v name n = Inl (ValueError m)" "\<not> clean_text n (py_strip v)"
  with that show ?thesis by (simp add: clean_email_def)
qed

lemma clean_email_Inr_iff:
  "clean_email v name n = Inr t \<longleftrightarrow> t = py_strip v \<and> clean_text n t \<and> email_shape t"
  by (rule clean_email_cases [where v = v and name = name and n = n]) auto

lemma LIMITS_simps [simp]:
  "map_of LIMITS (lit ''title'') = Some TITLE_MAX" "map_of LIMITS (lit ''content'') = Some CONTENT_MAX"
  "map_of LIMITS (lit ''name'') = Some NAME_MAX" "map_of LIMITS (lit ''email'') = Some EMAIL_MAX"
  by (simp_all add: LIMITS_def)

text \<open>The check of each of the four fields.\<close>

definition field_ok :: "string \<Rightarrow> pystr \<Rightarrow> bool" where
  "field_ok f t \<longleftrightarrow>
     (case map_of LIMITS (lit f) of None \<Rightarrow> False
      | Some n \<Rightarrow> clean_text n t \<and> (f = ''email'' \<longrightarrow> email_shape t))"

lemma check_string_cases:
  assumes "f \<in> {''title'', ''content'', ''name'', ''email''}"
  obtains "check_string (Some v) (Some (lit f)) = Inr (Some (py_strip v))" "field_ok f (py_strip v)"
  | m where "check_string (Some v) (Some (lit f)) = Inl (ValueError m)" "\<not> field_ok f (py_strip v)"
proof -
  from assms obtain n where n: "map_of LIMITS (lit f) = Some n" and f: "f \<noteq> []" by auto
  show ?thesis
  proof (cases "f = ''email''")
    case True
    with n that show ?thesis
      by - (rule clean_email_cases [where v = v and name = "lit f" and n = n],
        simp_all add: check_string_def field_ok_def Let_def)
  next
    case False
    with n f that show ?thesis
      by - (rule clean_cases [where v = v and name = "lit f" and n = n],
        simp_all add: check_string_def field_ok_def Let_def)
  qed
qed

lemma check_string_Some_iff:
  assumes "f \<in> {''title'', ''content'', ''name'', ''email''}"
  shows "check_string (Some v) (Some (lit f)) = Inr r \<longleftrightarrow> r = Some (py_strip v) \<and> field_ok f (py_strip v)"
  by (rule check_string_cases [OF assms, where v = v]) auto

lemma check_string_None [simp]: "check_string None name = Inr None"
  by (simp add: check_string_def)

lemma str_field_Inr:
  assumes "f \<in> {''title'', ''content'', ''name'', ''email''}" and "str_field P (lit f) body = Inr t"
  shows "\<exists>v s. lookup_field (lit f) (lit f) body = Some v \<and> pyd_str P v = Inr s \<and> t = py_strip s
     \<and> field_ok f t"
  using assms
  by (auto simp: str_field_def check_string_Some_iff split: option.splits sum.splits)

lemma optional_str_field_Inr:
  assumes "f \<in> {''title'', ''content'', ''name'', ''email''}"
    and "optional_str_field P (lit f) body = Inr r"
  shows "(r = None \<longleftrightarrow> lookup_field (lit f) (lit f) body \<in> {None, Some JNull})
     \<and> (\<forall>t. r = Some t \<longrightarrow> field_ok f t
          \<and> (\<exists>v s. lookup_field (lit f) (lit f) body = Some v \<and> pyd_str P v = Inr s \<and> t = py_strip s))"
  using assms
  by (auto simp: optional_str_field_def check_string_Some_iff
      split: option.splits sum.splits json.splits)

lemma int_field_Inr:
  "int_field P name lo hi body = Inr i \<Longrightarrow> lo \<le> i \<and> i \<le> hi"
  by (auto simp: int_field_def int_bounds_def split: option.splits sum.splits if_splits)

subsection \<open>A pydantic that takes JSON values as they are\<close>

text \<open>A concrete instance of the parsers, for which \<open>pydantic_ok\<close> holds.\<close>

fun strict_str :: "json \<Rightarrow> type_error + pystr" where
  "strict_str (JStr s) = Inr s"
| "strict_str _ = Inl (''string_type'', None, lit ''Input should be a valid string'')"

fun strict_int :: "json \<Rightarrow> type_error + int" where
  "strict_int (JInt i) = Inr i"
| "strict_int _ = Inl (''int_type'', None, lit ''Input should be a valid integer'')"

fun strict_uuid :: "json \<Rightarrow> type_error + uuid" where
  "strict_uuid (JStr s) =
     (case uuid_parse s of Some u \<Rightarrow> Inr u
      | None \<Rightarrow> Inl (''uuid_parsing'', None, lit ''Input should be a valid UUID''))"
| "strict_uuid _ = Inl (''uuid_type'', None, lit ''UUID input should be a string'')"

definition strict_pydantic :: pydantic where
  "strict_pydantic = \<lparr>pyd_str = strict_str, pyd_uuid = strict_uuid, pyd_int = strict_int\<rparr>"

lemma strict_pydantic_ok: "pydantic_ok strict_pydantic"
proof -
  have "\<exists>ctx msg. strict_str j = Inl (''string_type'', ctx, msg)" if "\<nexists>s. j = JStr s" for j
    using that by (cases j) auto
  then show ?thesis by (simp add: pydantic_ok_def strict_pydantic_def)
qed

lemma strict_pydantic_sel [simp]:
  "pyd_str strict_pydantic = strict_str" "pyd_int strict_pydantic = strict_int"
  "pyd_uuid strict_pydantic = strict_uuid"
  by (simp_all add: strict_pydantic_def)

subsection \<open>Properties\<close>

text \<open>
  \<open>_clean\<close> accepts a string exactly when what is left of it after trimming is not blank and
  within the limit, returns the trimmed string, and accepts its own result unchanged; otherwise
  the error names the field.
\<close>

theorem clean_spec:
  "(clean v name n = Inr t \<longleftrightarrow> t = py_strip v \<and> t \<noteq> [] \<and> length t \<le> n)
   \<and> (clean v name n = Inr t \<longrightarrow> clean t name n = Inr t)
   \<and> ((\<exists>c \<in> set v. \<not> py_isspace c) \<and> length v \<le> n \<longrightarrow> clean v name n = Inr (py_strip v))
   \<and> (clean v name n = Inl e \<longrightarrow> (\<exists>m. e = ValueError (name @ m)))"
proof -
  have nonblank: "(\<exists>c \<in> set v. \<not> py_isspace c) \<longleftrightarrow> py_strip v \<noteq> []" by (simp add: py_strip_Nil_iff)
  show ?thesis
    unfolding nonblank using length_py_strip [of v] by (auto simp: clean_def Let_def split: if_splits)
qed

theorem clean_spec_witness:
  "clean (lit ''  Hi  '') (lit ''title'') TITLE_MAX = Inr (lit ''Hi'')
   \<and> clean (lit ''Hi'') (lit ''title'') TITLE_MAX = Inr (lit ''Hi'')"
  using clean_spec [of "lit ''  Hi  ''" "lit ''title''" TITLE_MAX "lit ''Hi''"]
  by (simp add: py_strip_def lit_def py_isspace_def TITLE_MAX_def)

text \<open>
  C34. The regular expression accepts, of trimmed strings, exactly those of the shape
  local\<open>@\<close>domain\<open>.\<close>suffix with three non-empty parts without whitespace or \<open>@\<close>, so an email
  is accepted exactly when its trimmed form has that shape and fits the column.
\<close>

theorem email_accepted_iff:
  "clean_email v name n = Inr t \<longleftrightarrow>
     t = py_strip v \<and> length t \<le> n
     \<and> (\<exists>local sub top. t = local @ [64] @ sub @ [46] @ top \<and> local \<noteq> [] \<and> sub \<noteq> [] \<and> top \<noteq> []
          \<and> list_all (\<lambda>c. \<not> py_isspace c \<and> c \<noteq> 64) (local @ sub @ top))"
proof -
  have ec: "email_char = (\<lambda>c. \<not> py_isspace c \<and> c \<noteq> 64)" by (auto simp: email_char_def)
  have "t = py_strip v \<Longrightarrow> clean_text n t \<longleftrightarrow> t \<noteq> [] \<and> length t \<le> n"
    using py_strip_idem [of v] by (simp add: clean_text_def)
  moreover have "email_shape t \<Longrightarrow> t \<noteq> []" by (auto simp: email_shape_def)
  ultimately have "clean_email v name n = Inr t \<longleftrightarrow> t = py_strip v \<and> length t \<le> n \<and> email_shape t"
    unfolding clean_email_Inr_iff by blast
  then show ?thesis unfolding email_shape_def ec .
qed

text \<open>
  What the checks establish of a payload, in the limits of \<open>LIMITS\<close>. That these are the lengths of the
  columns is \<open>accepted_payloads_fit_columns\<close> of theory \<open>Messages\<close>.
\<close>

definition MessageCreate_ok :: "MessageCreate \<Rightarrow> bool" where
  "MessageCreate_ok p \<longleftrightarrow> field_ok ''title'' (mc_title p) \<and> field_ok ''content'' (mc_content p)"

definition MessageUpdate_ok :: "MessageUpdate \<Rightarrow> bool" where
  "MessageUpdate_ok p \<longleftrightarrow>
     (case mu_title p of None \<Rightarrow> True | Some t \<Rightarrow> field_ok ''title'' t) \<and> field_ok ''content'' (mu_content p)
     \<and> 0 \<le> mu_version p \<and> mu_version p \<le> MAX_INT4"

definition AuthorCreate_ok :: "AuthorCreate \<Rightarrow> bool" where
  "AuthorCreate_ok p \<longleftrightarrow> field_ok ''name'' (ac_name p) \<and> field_ok ''email'' (ac_email p)"

definition AuthorUpdate_ok :: "AuthorUpdate \<Rightarrow> bool" where
  "AuthorUpdate_ok p \<longleftrightarrow>
     (case au_name p of None \<Rightarrow> True | Some n \<Rightarrow> field_ok ''name'' n)
     \<and> (case au_email p of None \<Rightarrow> True | Some e \<Rightarrow> field_ok ''email'' e)"

lemmas validate_defs =
  validate_MessageCreate_def validate_MessageUpdate_def validate_AuthorCreate_def validate_AuthorUpdate_def

lemma accepted_ok:
  "validate_MessageCreate P body = Inr mc \<Longrightarrow> MessageCreate_ok mc"
  "validate_MessageUpdate P body = Inr mu \<Longrightarrow> MessageUpdate_ok mu"
  "validate_AuthorCreate P body = Inr ac \<Longrightarrow> AuthorCreate_ok ac"
  "validate_AuthorUpdate P body = Inr au \<Longrightarrow> AuthorUpdate_ok au"
  by (auto simp: validate_defs MessageCreate_ok_def MessageUpdate_ok_def AuthorCreate_ok_def
      AuthorUpdate_ok_def Let_def split: if_splits sum.splits option.splits
      dest: str_field_Inr [rotated] optional_str_field_Inr [rotated] int_field_Inr)

text \<open>
  A rejected message reports every field that failed, once each, in the order of the model,
  and no field that did not fail.
\<close>

theorem every_failing_field_is_reported:
  assumes "validate_MessageCreate P (JObj kvs) = Inl errors"
  shows "map (\<lambda>e. param_name (ve_loc e)) errors =
     (if isl (str_field P (lit ''title'') (JObj kvs)) then [lit ''title''] else [])
     @ (if isl (str_field P (lit ''content'') (JObj kvs)) then [lit ''content''] else [])
     @ (if isl (uuid_field P (lit ''authorId'') (lit ''author_id'') (JObj kvs)) then [lit ''authorId''] else [])
     \<and> errors \<noteq> []"
proof -
  have name: "param_name (ve_loc (field_error f input e)) = f"
    if "f \<in> {lit ''title'', lit ''content'', lit ''authorId''}" for f input e
    using that by (auto simp: field_error_def param_name_def List.map_filter_def split: prod.split)
  have one: "\<exists>e. es = [e] \<and> param_name (ve_loc e) = lit f"
    if "f \<in> {''title'', ''content''}" "str_field P (lit f) (JObj kvs) = Inl es" for f es
    using that name
    by (auto simp: str_field_def missing_error_def validator_error_def
        split: option.splits sum.splits exn.splits)
  have uuid: "\<exists>e. es = [e] \<and> param_name (ve_loc e) = lit ''authorId''"
    if "uuid_field P (lit ''authorId'') (lit ''author_id'') (JObj kvs) = Inl es" for es
    using that name by (auto simp: uuid_field_def missing_error_def split: option.splits sum.splits)
  show ?thesis
    using assms one [of "''title''"] one [of "''content''"] uuid
    by (cases "str_field P (lit ''title'') (JObj kvs)"; cases "str_field P (lit ''content'') (JObj kvs)";
        cases "uuid_field P (lit ''authorId'') (lit ''author_id'') (JObj kvs)")
      (auto simp: validate_MessageCreate_def Let_def)
qed

theorem every_failing_field_is_reported_witness:
  "\<exists>errors. validate_MessageCreate strict_pydantic (JObj []) = Inl errors
     \<and> map (\<lambda>e. param_name (ve_loc e)) errors = [lit ''title'', lit ''content'', lit ''authorId'']"
proof -
  have f: "str_field strict_pydantic n (JObj []) = Inl [missing_error n (JObj [])]"
    "uuid_field strict_pydantic a n (JObj []) = Inl [missing_error a (JObj [])]" for n a
    by (simp_all add: str_field_def uuid_field_def lookup_field_def)
  then obtain errors where e: "validate_MessageCreate strict_pydantic (JObj []) = Inl errors"
    by (simp add: validate_MessageCreate_def)
  from every_failing_field_is_reported [OF e] e f show ?thesis by simp
qed

lemma removeprefix_append: "py_removeprefix (p @ s) p = s"
  by (simp add: py_removeprefix_def)

text \<open>
  A required string that is absent, \<open>null\<close> or blank is one and the same mistake for the
  client: each of the three is reported with the same reason.
\<close>

theorem absent_null_and_blank_agree:
  assumes "pydantic_ok P" and "f \<in> {''title'', ''content'', ''name'', ''email''}"
    and "lookup_field (lit f) (lit f) body \<in> {None, Some JNull, Some (JStr s)}"
    and "\<forall>c \<in> set s. py_isspace c"
  shows "\<exists>e. str_field P (lit f) body = Inl [e]
     \<and> invalid_param_of e = (lit f, lit f @ lit '' is required and cannot be blank'')"
proof -
  have pn: "param_name (ve_loc (field_error (lit f) input e)) = lit f" for input e
    using assms(2) by (auto simp: field_error_def param_name_def List.map_filter_def split: prod.split)
  have s: "py_strip s = []" using assms(4) by (simp add: py_strip_Nil_iff)
  have blank: "check_string (Some s) (Some (lit f))
      = Inl (ValueError (lit f @ lit '' is required and cannot be blank''))"
    using assms(2) s by (auto simp: check_string_def clean_email_def clean_def)
  obtain ctx msg where null: "pyd_str P JNull = Inl (''string_type'', ctx, msg)"
    using assms(1) unfolding pydantic_ok_def by blast
  have str: "pyd_str P (JStr s) = Inr s" using assms(1) by (simp add: pydantic_ok_def)
  from assms(3) consider "lookup_field (lit f) (lit f) body = None"
    | "lookup_field (lit f) (lit f) body = Some JNull"
    | "lookup_field (lit f) (lit f) body = Some (JStr s)" by auto
  then show ?thesis
  proof cases
    case 1
    then show ?thesis
      by (simp add: str_field_def missing_error_def invalid_param_of_def pn Let_def)
        (simp add: field_error_def reason_def)
  next
    case 2
    then show ?thesis
      by (simp add: str_field_def null invalid_param_of_def pn Let_def)
        (simp add: field_error_def reason_def input_is_None_def)
  next
    case 3
    then show ?thesis
      by (simp add: str_field_def str blank validator_error_def invalid_param_of_def pn Let_def)
        (simp add: field_error_def reason_def removeprefix_append)
  qed
qed

theorem absent_null_and_blank_agree_witness:
  "\<exists>e. str_field strict_pydantic (lit ''title'') (JObj [(lit ''title'', JStr (lit ''  ''))]) = Inl [e]
     \<and> invalid_param_of e = (lit ''title'', lit ''title'' @ lit '' is required and cannot be blank'')"
  by (rule absent_null_and_blank_agree [OF strict_pydantic_ok, of _ _ "lit ''  ''"])
    (auto simp: lookup_field_def lit_def py_isspace_def)

text \<open>
  In a PATCH an optional field is left unchanged exactly when it is absent or \<open>null\<close>; when
  it is present it must pass the check a create makes, so a blank title is an error and not "leave
  it alone".
\<close>

theorem patch_title_unchanged_iff_absent_or_null:
  assumes "validate_MessageUpdate P (JObj kvs) = Inr p"
  shows "(mu_title p = None \<longleftrightarrow> map_of kvs (lit ''title'') \<in> {None, Some JNull})
     \<and> (\<forall>t. mu_title p = Some t \<longrightarrow> str_field P (lit ''title'') (JObj kvs) = Inr t)"
proof -
  from assms have title: "optional_str_field P (lit ''title'') (JObj kvs) = Inr (mu_title p)"
    by (auto simp: validate_MessageUpdate_def Let_def split: sum.splits)
  have look: "lookup_field (lit ''title'') (lit ''title'') (JObj kvs) = map_of kvs (lit ''title'')"
    by (simp add: lookup_field_def split: option.split)
  have "str_field P (lit ''title'') (JObj kvs) = Inr t" if "mu_title p = Some t" for t
    using title that
    by (auto simp: optional_str_field_def str_field_def split: option.splits sum.splits json.splits)
  then show ?thesis using optional_str_field_Inr [OF _ title] look by simp
qed

definition sample_update_body :: json where
  "sample_update_body =
     JObj [(lit ''title'', JNull), (lit ''content'', JStr (lit ''New'')), (lit ''version'', JInt 3)]"

lemma validate_sample_update:
  "validate_MessageUpdate strict_pydantic sample_update_body =
     Inr \<lparr>mu_title = None, mu_content = lit ''New'', mu_version = 3\<rparr>"
proof -
  have "clean (lit ''New'') (lit ''content'') CONTENT_MAX = Inr (lit ''New'')"
    by (simp add: clean_def py_strip_def lit_def py_isspace_def CONTENT_MAX_def)
  then show ?thesis
    by (simp add: validate_MessageUpdate_def sample_update_body_def str_field_def
        optional_str_field_def int_field_def int_bounds_def MAX_INT4_def
        lookup_field_def check_string_def [of "Some _"] Let_def)
qed

theorem patch_title_unchanged_iff_absent_or_null_witness:
  "\<exists>p. validate_MessageUpdate strict_pydantic sample_update_body = Inr p \<and> mu_title p = None"
  using patch_title_unchanged_iff_absent_or_null
      [of strict_pydantic, OF validate_sample_update [unfolded sample_update_body_def]]
    validate_sample_update
  by simp

end
