(* ===== verification/Models.thy ===== *)
theory Models
  imports Validation "HOL-Library.List_Lexorder"
begin

section \<open>Tables and their constraints: \<open>app/models.py\<close> and the first migration\<close>

text \<open>
  The rows of the two tables, the constraints the migration creates (primary keys, the unique
  email, the foreign key, the column lengths, the 32-bit version), the order the list endpoints
  ask for, and the abstract store (a map from id to row per table) the specifications speak of.
  A timestamp is the number of microseconds since the epoch.
\<close>

subsection \<open>Rows\<close>

record author_row =
  a_id :: uuid
  a_name :: pystr
  a_email :: pystr
  a_created_at :: int

record message_row =
  m_id :: uuid
  m_title :: pystr
  m_content :: pystr
  m_author_id :: uuid
  m_created_at :: int
  m_version :: int

record db =
  db_authors :: "author_row list"
  db_messages :: "message_row list"

text \<open>
  A \<open>String(n)\<close> column holds at most \<open>n\<close> characters, each a Unicode scalar value (what UTF-8 can
  encode) other than NUL. An \<open>Integer\<close> column holds 32 bits.
\<close>

definition sql_char :: "nat \<Rightarrow> bool" where
  "sql_char c \<longleftrightarrow> 0 < c \<and> c < 1114112 \<and> \<not> (55296 \<le> c \<and> c < 57344)"

definition text_fits :: "nat \<Rightarrow> pystr \<Rightarrow> bool" where
  "text_fits n s \<longleftrightarrow> length s \<le> n \<and> list_all sql_char s"

definition int4_fits :: "int \<Rightarrow> bool" where
  "int4_fits i \<longleftrightarrow> - 2147483648 \<le> i \<and> i \<le> 2147483647"

definition author_row_fits :: "author_row \<Rightarrow> bool" where
  "author_row_fits a \<longleftrightarrow> text_fits 50 (a_name a) \<and> text_fits 100 (a_email a)"

definition message_row_fits :: "message_row \<Rightarrow> bool" where
  "message_row_fits m \<longleftrightarrow>
     text_fits 100 (m_title m) \<and> text_fits 1000 (m_content m) \<and> int4_fits (m_version m)"

text \<open>What the constraints of the migration say of the two tables.\<close>

definition schema_ok :: "db \<Rightarrow> bool" where
  "schema_ok d \<longleftrightarrow>
     distinct (map a_id (db_authors d)) \<and> distinct (map a_email (db_authors d))
     \<and> distinct (map m_id (db_messages d))
     \<and> (\<forall>m \<in> set (db_messages d). m_author_id m \<in> a_id ` set (db_authors d))
     \<and> list_all author_row_fits (db_authors d) \<and> list_all message_row_fits (db_messages d)"

lemma schema_okD:
  assumes "schema_ok d"
  shows "distinct (map a_id (db_authors d))" "distinct (map a_email (db_authors d))"
    "distinct (map m_id (db_messages d))"
    "m \<in> set (db_messages d) \<Longrightarrow> m_author_id m \<in> a_id ` set (db_authors d)"
  using assms by (auto simp: schema_ok_def)

subsection \<open>The abstract store\<close>

record store =
  st_authors :: "uuid \<Rightarrow> author_row option"
  st_messages :: "uuid \<Rightarrow> message_row option"

definition author_map :: "db \<Rightarrow> uuid \<Rightarrow> author_row option" where
  "author_map d k = find (\<lambda>a. a_id a = k) (db_authors d)"

definition message_map :: "db \<Rightarrow> uuid \<Rightarrow> message_row option" where
  "message_map d k = find (\<lambda>m. m_id m = k) (db_messages d)"

definition abs_store :: "db \<Rightarrow> store" where
  "abs_store d = \<lparr>st_authors = author_map d, st_messages = message_map d\<rparr>"

lemma abs_store_sel [simp]:
  "st_authors (abs_store d) = author_map d" "st_messages (abs_store d) = message_map d"
  by (simp_all add: abs_store_def)

lemma author_map_Some_iff:
  "schema_ok d \<Longrightarrow> author_map d k = Some a \<longleftrightarrow> a \<in> set (db_authors d) \<and> a_id a = k"
  by (simp add: author_map_def find_key_Some_iff schema_okD)

lemma message_map_Some_iff:
  "schema_ok d \<Longrightarrow> message_map d k = Some m \<longleftrightarrow> m \<in> set (db_messages d) \<and> m_id m = k"
  by (simp add: message_map_def find_key_Some_iff schema_okD)

lemma author_map_None_iff: "author_map d k = None \<longleftrightarrow> k \<notin> a_id ` set (db_authors d)"
  by (simp add: author_map_def find_key_None_iff)

lemma message_map_None_iff: "message_map d k = None \<longleftrightarrow> k \<notin> m_id ` set (db_messages d)"
  by (simp add: message_map_def find_key_None_iff)

lemma author_map_id: "author_map d k = Some a \<Longrightarrow> a_id a = k"
  by (auto simp: author_map_def find_Some_iff)

lemma message_map_id: "message_map d k = Some m \<Longrightarrow> m_id m = k"
  by (auto simp: message_map_def find_Some_iff)

lemma message_author_exists:
  assumes "schema_ok d" and "message_map d k = Some m"
  obtains a where "author_map d (m_author_id m) = Some a"
proof -
  from assms have "m \<in> set (db_messages d)" by (simp add: message_map_Some_iff)
  with assms(1) have "m_author_id m \<in> a_id ` set (db_authors d)" by (rule schema_okD)
  then show ?thesis using that by (cases "author_map d (m_author_id m)") (auto simp: author_map_None_iff)
qed

subsection \<open>The position of a row in a listing\<close>

text \<open>Rows are listed by creation time, with the id as the tiebreaker.\<close>

datatype page_key = PageKey (pk_created: int) (pk_id: uuid)

instantiation page_key :: linorder
begin

definition less_eq_page_key :: "page_key \<Rightarrow> page_key \<Rightarrow> bool" where
  "a \<le> b \<longleftrightarrow> pk_created a < pk_created b \<or> pk_created a = pk_created b \<and> pk_id a \<le> pk_id b"

definition less_page_key :: "page_key \<Rightarrow> page_key \<Rightarrow> bool" where
  "a < b \<longleftrightarrow> pk_created a < pk_created b \<or> pk_created a = pk_created b \<and> pk_id a < pk_id b"

instance
  by standard (auto simp: less_eq_page_key_def less_page_key_def page_key.expand)

end

definition message_key :: "message_row \<Rightarrow> page_key" where
  "message_key m = PageKey (m_created_at m) (m_id m)"

definition author_key :: "author_row \<Rightarrow> page_key" where
  "author_key a = PageKey (a_created_at a) (a_id a)"

end
