(* ===== verification/Sql.thy ===== *)
theory Sql
  imports Models
begin

section \<open>The SQL statements of the service and their meaning\<close>

text \<open>
  A statement is written as SQLAlchemy builds it: the table, the conditions of \<open>where\<close>, the
  columns of \<open>values\<close>, the order, the limit and the offset. \<open>sql_sem\<close> states what PostgreSQL
  documents of these statements on tables with the constraints of the migration: the rows
  returned and the changes made, or the error raised. It is not code of the repository: the
  handlers run on an engine that is an argument, and \<open>sql_sem\<close> occurs in what is assumed of it
  (theory \<open>Engine\<close>).
\<close>

subsection \<open>Statements\<close>

datatype column = ColCreatedAt | ColId
datatype direction = Asc | Desc

type_synonym order_by = "(column \<times> direction) list"

datatype message_cond = MessageIdIs uuid | MessageVersionIs int
datatype message_set = SetContent pystr | SetVersionPlus int | SetTitle pystr
datatype author_cond = AuthorIdIs uuid | AuthorEmailIs pystr
datatype author_set = SetName pystr | SetEmail pystr

datatype stmt =
    SelectMessages "message_cond list" order_by "(int \<times> int) option"
  | SelectMessageIds "message_cond list"
  | SelectAuthors "author_cond list" order_by "(int \<times> int) option" bool
  | SelectAuthorIds "author_cond list"
  | CountMessages
  | CountAuthors
  | InsertAuthor pystr pystr
  | InsertAuthorOrNothing pystr pystr
  | InsertMessage pystr pystr uuid
  | UpdateMessages "message_cond list" "message_set list"
  | UpdateAuthors "author_cond list" "author_set list"
  | DeleteMessages "message_cond list"
  | DeleteAuthors "author_cond list"
  | AdvisoryXactLock int

text \<open>
  What a statement returns. A message comes with its author (\<open>joinedload\<close>); an author comes with
  its messages only when they were asked for (\<open>selectinload\<close>; \<open>None\<close> is not loaded).
\<close>

datatype rows =
    MessageRows "(message_row \<times> author_row option) list"
  | AuthorRows "(author_row \<times> message_row list option) list"
  | IdRows "uuid list"
  | CountRow nat
  | NoRows

fun message_rows :: "rows \<Rightarrow> (message_row \<times> author_row option) list" where
  "message_rows (MessageRows xs) = xs"
| "message_rows _ = []"

fun author_rows :: "rows \<Rightarrow> (author_row \<times> message_row list option) list" where
  "author_rows (AuthorRows xs) = xs"
| "author_rows _ = []"

fun id_rows :: "rows \<Rightarrow> uuid list" where
  "id_rows (IdRows xs) = xs"
| "id_rows _ = []"

fun count_row :: "rows \<Rightarrow> nat" where
  "count_row (CountRow n) = n"
| "count_row _ = 0"

subsection \<open>Changes\<close>

text \<open>A transaction is the list of the row changes it has made.\<close>

datatype change =
    PutAuthor author_row
  | PutMessage message_row
  | DropAuthor uuid
  | DropMessage uuid

fun put_row :: "('r \<Rightarrow> uuid) \<Rightarrow> 'r \<Rightarrow> 'r list \<Rightarrow> 'r list" where
  "put_row key r [] = [r]"
| "put_row key r (x # xs) = (if key x = key r then r # xs else x # put_row key r xs)"

fun apply_change :: "change \<Rightarrow> db \<Rightarrow> db" where
  "apply_change (PutAuthor a) d = d\<lparr>db_authors := put_row a_id a (db_authors d)\<rparr>"
| "apply_change (PutMessage m) d = d\<lparr>db_messages := put_row m_id m (db_messages d)\<rparr>"
| "apply_change (DropAuthor k) d = d\<lparr>db_authors := [a \<leftarrow> db_authors d. a_id a \<noteq> k]\<rparr>"
| "apply_change (DropMessage k) d = d\<lparr>db_messages := [m \<leftarrow> db_messages d. m_id m \<noteq> k]\<rparr>"

definition apply_changes :: "change list \<Rightarrow> db \<Rightarrow> db" where
  "apply_changes chs d = fold apply_change chs d"

lemma apply_changes_simps [simp]:
  "apply_changes [] d = d" "apply_changes (c # cs) d = apply_changes cs (apply_change c d)"
  "apply_changes (cs @ cs') d = apply_changes cs' (apply_changes cs d)"
  by (simp_all add: apply_changes_def)

subsection \<open>Conditions, columns and order\<close>

fun message_cond_holds :: "message_cond \<Rightarrow> message_row \<Rightarrow> bool" where
  "message_cond_holds (MessageIdIs k) m \<longleftrightarrow> m_id m = k"
| "message_cond_holds (MessageVersionIs v) m \<longleftrightarrow> m_version m = v"

fun author_cond_holds :: "author_cond \<Rightarrow> author_row \<Rightarrow> bool" where
  "author_cond_holds (AuthorIdIs k) a \<longleftrightarrow> a_id a = k"
| "author_cond_holds (AuthorEmailIs e) a \<longleftrightarrow> a_email a = e"

definition messages_where :: "message_cond list \<Rightarrow> db \<Rightarrow> message_row list" where
  "messages_where conds d = [m \<leftarrow> db_messages d. list_all (\<lambda>c. message_cond_holds c m) conds]"

definition authors_where :: "author_cond list \<Rightarrow> db \<Rightarrow> author_row list" where
  "authors_where conds d = [a \<leftarrow> db_authors d. list_all (\<lambda>c. author_cond_holds c a) conds]"

text \<open>The value expressions of an UPDATE are evaluated on the row before the update.\<close>

fun set_message :: "message_row \<Rightarrow> message_set \<Rightarrow> message_row \<Rightarrow> message_row" where
  "set_message old (SetContent c) m = m\<lparr>m_content := c\<rparr>"
| "set_message old (SetVersionPlus k) m = m\<lparr>m_version := m_version old + k\<rparr>"
| "set_message old (SetTitle t) m = m\<lparr>m_title := t\<rparr>"

definition update_row :: "message_set list \<Rightarrow> message_row \<Rightarrow> message_row" where
  "update_row sets m = fold (set_message m) sets m"

fun set_author :: "author_set \<Rightarrow> author_row \<Rightarrow> author_row" where
  "set_author (SetName n) a = a\<lparr>a_name := n\<rparr>"
| "set_author (SetEmail e) a = a\<lparr>a_email := e\<rparr>"

definition update_author_row :: "author_set list \<Rightarrow> author_row \<Rightarrow> author_row" where
  "update_author_row sets a = fold set_author sets a"

text \<open>
  \<open>ORDER BY\<close> compares the listed columns one after the other; a descending column is compared by
  its negation. Ids compare as unsigned 128-bit numbers, as PostgreSQL compares them.
\<close>

fun column_value :: "int \<Rightarrow> uuid \<Rightarrow> column \<times> direction \<Rightarrow> int" where
  "column_value created k (ColCreatedAt, Asc) = created"
| "column_value created k (ColCreatedAt, Desc) = - created"
| "column_value created k (ColId, Asc) = uint k"
| "column_value created k (ColId, Desc) = - uint k"

definition order_messages :: "order_by \<Rightarrow> message_row list \<Rightarrow> message_row list" where
  "order_messages ob ms =
     sort_key (\<lambda>m. map (column_value (m_created_at m) (m_id m)) ob) ms"

definition order_authors :: "order_by \<Rightarrow> author_row list \<Rightarrow> author_row list" where
  "order_authors ob as =
     sort_key (\<lambda>a. map (column_value (a_created_at a) (a_id a)) ob) as"

definition page :: "int \<Rightarrow> int \<Rightarrow> 'a list \<Rightarrow> 'a list" where
  "page limit offset xs = take (nat limit) (drop (nat offset) xs)"

text \<open>The order of \<open>Author.messages\<close>, as the relationship declares it: newest first.\<close>

definition newest_first :: order_by where
  "newest_first = [(ColCreatedAt, Desc), (ColId, Desc)]"

definition oldest_first :: order_by where
  "oldest_first = [(ColCreatedAt, Asc), (ColId, Asc)]"

subsection \<open>The meaning of a statement\<close>

datatype sql_error = IntegrityErr string | DataErr string

text \<open>
  An integrity error carries its SQLSTATE: 23505 is a unique violation and 23503 a foreign key
  violation. A value that does not fit its column is a data exception (class 22).
\<close>

definition with_author :: "db \<Rightarrow> message_row \<Rightarrow> message_row \<times> author_row option" where
  "with_author d m = (m, author_map d (m_author_id m))"

definition with_messages :: "bool \<Rightarrow> db \<Rightarrow> author_row \<Rightarrow> author_row \<times> message_row list option" where
  "with_messages loaded d a =
     (a, if loaded then
           Some (order_messages newest_first [m \<leftarrow> db_messages d. m_author_id m = a_id a])
         else None)"

definition paged :: "(int \<times> int) option \<Rightarrow> 'a list \<Rightarrow> sql_error + 'a list" where
  "paged lo xs =
     (case lo of None \<Rightarrow> Inr xs
      | Some (limit, offset) \<Rightarrow>
          if limit < 0 then Inl (DataErr ''2201W'')
          else if offset < 0 then Inl (DataErr ''2201X'') else Inr (page limit offset xs))"

text \<open>
  The SQLSTATE of texts a column refuses: asyncpg cannot encode a surrogate (its DataError), PostgreSQL
  refuses a NUL as a character that is not in the repertoire, and a text that is too long is a string
  data right truncation. An integer out of range is 22003.
\<close>

definition misfit :: "pystr list \<Rightarrow> string" where
  "misfit texts =
     (if list_ex (list_ex (\<lambda>c. c \<noteq> 0 \<and> \<not> sql_char c)) texts then ''22000''
      else if list_ex (list_ex (\<lambda>c. c = 0)) texts then ''22021'' else ''22001'')"

lemma misfit_nul:
  "0 \<in> set (concat texts) \<Longrightarrow> \<forall>c \<in> set (concat texts). c = 0 \<or> sql_char c \<Longrightarrow> misfit texts = ''22021''"
  by (auto simp: misfit_def list_ex_iff)

definition insert_author_sem :: "uuid \<Rightarrow> int \<Rightarrow> pystr \<Rightarrow> pystr \<Rightarrow> db \<Rightarrow> sql_error + (rows \<times> change list)" where
  "insert_author_sem uid now name email d =
     (let a = \<lparr>a_id = uid, a_name = name, a_email = email, a_created_at = now\<rparr>
      in if \<not> author_row_fits a then Inl (DataErr (misfit [name, email]))
         else if uid \<in> a_id ` set (db_authors d) \<or> email \<in> a_email ` set (db_authors d) then
           Inl (IntegrityErr ''23505'')
         else Inr (AuthorRows [(a, None)], [PutAuthor a]))"

definition insert_message_sem ::
  "uuid \<Rightarrow> int \<Rightarrow> pystr \<Rightarrow> pystr \<Rightarrow> uuid \<Rightarrow> db \<Rightarrow> sql_error + (rows \<times> change list)" where
  "insert_message_sem uid now title content author_id d =
     (let m = \<lparr>m_id = uid, m_title = title, m_content = content, m_author_id = author_id,
               m_created_at = now, m_version = 0\<rparr>
      in if \<not> message_row_fits m then Inl (DataErr (misfit [title, content]))
         else if uid \<in> m_id ` set (db_messages d) then Inl (IntegrityErr ''23505'')
         else if author_id \<notin> a_id ` set (db_authors d) then Inl (IntegrityErr ''23503'')
         else Inr (MessageRows [(m, None)], [PutMessage m]))"

definition update_messages_sem ::
  "message_cond list \<Rightarrow> message_set list \<Rightarrow> db \<Rightarrow> sql_error + (rows \<times> change list)" where
  "update_messages_sem conds sets d =
     (let new = map (update_row sets) (messages_where conds d)
      in if \<not> list_all (\<lambda>m. int4_fits (m_version m)) new then Inl (DataErr ''22003'')
         else if \<not> list_all message_row_fits new then
           Inl (DataErr (misfit (concat (map (\<lambda>m. [m_title m, m_content m]) new))))
         else Inr (IdRows (map m_id new), map PutMessage new))"

definition update_authors_sem ::
  "author_cond list \<Rightarrow> author_set list \<Rightarrow> db \<Rightarrow> sql_error + (rows \<times> change list)" where
  "update_authors_sem conds sets d =
     (let new = map (update_author_row sets) (authors_where conds d);
          d' = apply_changes (map PutAuthor new) d
      in if \<not> list_all author_row_fits new then
           Inl (DataErr (misfit (concat (map (\<lambda>a. [a_name a, a_email a]) new))))
         else if \<not> distinct (map a_email (db_authors d')) then Inl (IntegrityErr ''23505'')
         else Inr (AuthorRows (map (\<lambda>a. (a, None)) new), map PutAuthor new))"

definition delete_authors_sem :: "author_cond list \<Rightarrow> db \<Rightarrow> sql_error + (rows \<times> change list)" where
  "delete_authors_sem conds d =
     (let victims = map a_id (authors_where conds d)
      in if \<exists>m \<in> set (db_messages d). m_author_id m \<in> set victims then
           Inl (IntegrityErr ''23503'')
         else Inr (IdRows victims, map DropAuthor victims))"

fun sql_sem :: "uuid \<Rightarrow> int \<Rightarrow> stmt \<Rightarrow> db \<Rightarrow> sql_error + (rows \<times> change list)" where
  "sql_sem uid now (SelectMessages conds ob lo) d =
     (case paged lo (order_messages ob (messages_where conds d)) of Inl e \<Rightarrow> Inl e
      | Inr ms \<Rightarrow> Inr (MessageRows (map (with_author d) ms), []))"
| "sql_sem uid now (SelectMessageIds conds) d = Inr (IdRows (map m_id (messages_where conds d)), [])"
| "sql_sem uid now (SelectAuthors conds ob lo loaded) d =
     (case paged lo (order_authors ob (authors_where conds d)) of Inl e \<Rightarrow> Inl e
      | Inr as \<Rightarrow> Inr (AuthorRows (map (with_messages loaded d) as), []))"
| "sql_sem uid now (SelectAuthorIds conds) d = Inr (IdRows (map a_id (authors_where conds d)), [])"
| "sql_sem uid now CountMessages d = Inr (CountRow (length (db_messages d)), [])"
| "sql_sem uid now CountAuthors d = Inr (CountRow (length (db_authors d)), [])"
| "sql_sem uid now (InsertAuthor name email) d = insert_author_sem uid now name email d"
| "sql_sem uid now (InsertAuthorOrNothing name email) d =
     (if email \<in> a_email ` set (db_authors d) then Inr (NoRows, [])
      else case insert_author_sem uid now name email d of
             Inl e \<Rightarrow> Inl e | Inr (_, chs) \<Rightarrow> Inr (NoRows, chs))"
| "sql_sem uid now (InsertMessage title content author_id) d =
     insert_message_sem uid now title content author_id d"
| "sql_sem uid now (UpdateMessages conds sets) d = update_messages_sem conds sets d"
| "sql_sem uid now (UpdateAuthors conds sets) d = update_authors_sem conds sets d"
| "sql_sem uid now (DeleteMessages conds) d =
     (let victims = map m_id (messages_where conds d)
      in Inr (IdRows victims, map DropMessage victims))"
| "sql_sem uid now (DeleteAuthors conds) d = delete_authors_sem conds d"
| "sql_sem uid now (AdvisoryXactLock key) d = Inr (NoRows, [])"

text \<open>The statements that draw an id and those that change or lock nothing.\<close>

fun is_insert :: "stmt \<Rightarrow> bool" where
  "is_insert (InsertAuthor _ _) = True"
| "is_insert (InsertAuthorOrNothing _ _) = True"
| "is_insert (InsertMessage _ _ _) = True"
| "is_insert _ = False"

fun is_read :: "stmt \<Rightarrow> bool" where
  "is_read (SelectMessages _ _ _) = True"
| "is_read (SelectMessageIds _) = True"
| "is_read (SelectAuthors _ _ _ _) = True"
| "is_read (SelectAuthorIds _) = True"
| "is_read CountMessages = True"
| "is_read CountAuthors = True"
| "is_read _ = False"

lemma is_read_no_changes: "is_read st \<Longrightarrow> sql_sem uid now st d = Inr (r, chs) \<Longrightarrow> chs = []"
  by (cases st) (auto split: sum.splits)

subsection \<open>Tables after a change\<close>

lemma find_put_row:
  "find (\<lambda>y. key y = k) (put_row key r xs) = (if k = key r then Some r else find (\<lambda>y. key y = k) xs)"
  by (induction xs) auto

lemma find_filter_neq:
  "find (\<lambda>y. key y = k) [x \<leftarrow> xs. key x \<noteq> k'] = (if k = k' then None else find (\<lambda>y. key y = k) xs)"
  by (induction xs) auto

lemma author_map_simps [simp, db_simps]:
  "author_map (apply_change (PutAuthor a) d) = (author_map d)(a_id a \<mapsto> a)"
  "author_map (apply_change (DropAuthor k) d) = (author_map d)(k := None)"
  "author_map (apply_change (PutMessage m) d) = author_map d"
  "author_map (apply_change (DropMessage k) d) = author_map d"
  by (auto simp: author_map_def find_put_row find_filter_neq fun_eq_iff)

lemma message_map_simps [simp, db_simps]:
  "message_map (apply_change (PutMessage m) d) = (message_map d)(m_id m \<mapsto> m)"
  "message_map (apply_change (DropMessage k) d) = (message_map d)(k := None)"
  "message_map (apply_change (PutAuthor a) d) = message_map d"
  "message_map (apply_change (DropAuthor k) d) = message_map d"
  by (auto simp: message_map_def find_put_row find_filter_neq fun_eq_iff)

declare apply_change.simps [simp del]

lemma map_key_put_row:
  "map key (put_row key r xs) = (if key r \<in> key ` set xs then map key xs else map key xs @ [key r])"
  by (induction xs) auto

lemma set_put_row: "set (put_row key r xs) \<subseteq> insert r (set xs)"
  by (induction xs) auto

lemma in_put_row: "r \<in> set (put_row key r xs)"
  by (induction xs) auto

lemma list_all_put_row: "list_all P xs \<Longrightarrow> P r \<Longrightarrow> list_all P (put_row key r xs)"
  by (induction xs) auto

lemma distinct_put_row: "distinct (map key xs) \<Longrightarrow> distinct (map key (put_row key r xs))"
  by (simp add: map_key_put_row)

lemma keys_put_row: "key ` set (put_row key r xs) = insert (key r) (key ` set xs)"
proof -
  have "set (map key (put_row key r xs)) = insert (key r) (set (map key xs))"
    unfolding map_key_put_row by auto
  then show ?thesis by simp
qed

subsection \<open>Statements keep the constraints\<close>

text \<open>The constraints but for the unique email, which a statement is checked for as a whole.\<close>

definition schema_core :: "db \<Rightarrow> bool" where
  "schema_core d \<longleftrightarrow>
     distinct (map a_id (db_authors d)) \<and> distinct (map m_id (db_messages d))
     \<and> (\<forall>m \<in> set (db_messages d). m_author_id m \<in> a_id ` set (db_authors d))
     \<and> list_all author_row_fits (db_authors d) \<and> list_all message_row_fits (db_messages d)"

lemma schema_ok_core: "schema_ok d \<longleftrightarrow> schema_core d \<and> distinct (map a_email (db_authors d))"
  by (auto simp: schema_ok_def schema_core_def)

lemma schema_core_PutAuthor:
  "schema_core d \<Longrightarrow> author_row_fits a \<Longrightarrow> schema_core (apply_change (PutAuthor a) d)"
  by (auto simp: schema_core_def apply_change.simps distinct_put_row keys_put_row list_all_put_row)

lemma schema_core_PutAuthors:
  "schema_core d \<Longrightarrow> list_all author_row_fits as \<Longrightarrow> schema_core (apply_changes (map PutAuthor as) d)"
  by (induction as arbitrary: d) (simp_all add: schema_core_PutAuthor)

lemma schema_ok_PutMessage:
  assumes "schema_ok d" and "m_author_id m \<in> a_id ` set (db_authors d)" and "message_row_fits m"
  shows "schema_ok (apply_change (PutMessage m) d)"
  using assms set_put_row [of m_id m "db_messages d"]
  by (auto simp: schema_ok_def apply_change.simps distinct_put_row list_all_put_row)

lemma db_authors_PutMessage [simp]: "db_authors (apply_change (PutMessage m) d) = db_authors d"
  "db_authors (apply_change (DropMessage k) d) = db_authors d"
  by (simp_all add: apply_change.simps)

lemma schema_ok_PutMessages:
  "schema_ok d \<Longrightarrow> \<forall>m \<in> set ms. m_author_id m \<in> a_id ` set (db_authors d) \<and> message_row_fits m
     \<Longrightarrow> schema_ok (apply_changes (map PutMessage ms) d)"
  by (induction ms arbitrary: d) (simp_all add: schema_ok_PutMessage)

lemma schema_ok_DropMessage: "schema_ok d \<Longrightarrow> schema_ok (apply_change (DropMessage k) d)"
  by (auto simp: schema_ok_def apply_change.simps distinct_map_filter list_all_iff)

lemma schema_ok_DropMessages: "schema_ok d \<Longrightarrow> schema_ok (apply_changes (map DropMessage ks) d)"
  by (induction ks arbitrary: d) (simp_all add: schema_ok_DropMessage)

lemma schema_ok_DropAuthor:
  "schema_ok d \<Longrightarrow> \<forall>m \<in> set (db_messages d). m_author_id m \<noteq> k \<Longrightarrow>
     schema_ok (apply_change (DropAuthor k) d)"
  by (simp add: schema_ok_def apply_change.simps distinct_map_filter list_all_iff) blast

lemma db_messages_DropAuthor [simp]: "db_messages (apply_change (DropAuthor k) d) = db_messages d"
  by (simp add: apply_change.simps)

lemma schema_ok_DropAuthors:
  "schema_ok d \<Longrightarrow> \<forall>m \<in> set (db_messages d). m_author_id m \<notin> set ks \<Longrightarrow>
     schema_ok (apply_changes (map DropAuthor ks) d)"
  by (induction ks arbitrary: d) (simp_all add: schema_ok_DropAuthor)

lemma update_row_sel [simp]:
  "m_id (update_row sets m) = m_id m" "m_author_id (update_row sets m) = m_author_id m"
  "m_created_at (update_row sets m) = m_created_at m"
proof -
  have "m_id (fold (set_message old) sets r) = m_id r
      \<and> m_author_id (fold (set_message old) sets r) = m_author_id r
      \<and> m_created_at (fold (set_message old) sets r) = m_created_at r" for old r
  proof (induction sets arbitrary: r)
    case (Cons x xs)
    then show ?case by (cases x) simp_all
  qed simp
  then show "m_id (update_row sets m) = m_id m" "m_author_id (update_row sets m) = m_author_id m"
    "m_created_at (update_row sets m) = m_created_at m" by (simp_all add: update_row_def)
qed

lemma update_author_row_sel [simp]:
  "a_id (update_author_row sets a) = a_id a" "a_created_at (update_author_row sets a) = a_created_at a"
proof -
  have "a_id (fold set_author sets r) = a_id r \<and> a_created_at (fold set_author sets r) = a_created_at r" for r
  proof (induction sets arbitrary: r)
    case (Cons x xs)
    then show ?case by (cases x) simp_all
  qed simp
  then show "a_id (update_author_row sets a) = a_id a"
    "a_created_at (update_author_row sets a) = a_created_at a" by (simp_all add: update_author_row_def)
qed

lemma insert_author_schema:
  assumes "schema_ok d" and "insert_author_sem uid now n e d = Inr (r, chs)"
  shows "schema_ok (apply_changes chs d)"
proof -
  let ?a = "\<lparr>a_id = uid, a_name = n, a_email = e, a_created_at = now\<rparr>"
  from assms(2) have f: "author_row_fits ?a" "uid \<notin> a_id ` set (db_authors d)"
    "e \<notin> a_email ` set (db_authors d)" "chs = [PutAuthor ?a]"
    by (auto simp: insert_author_sem_def Let_def split: if_splits)
  have "put_row a_id ?a as = as @ [?a]" if "uid \<notin> a_id ` set as" for as
    using that by (induction as) auto
  with f have "distinct (map a_email (db_authors (apply_change (PutAuthor ?a) d)))"
    using assms(1) by (simp add: apply_change.simps schema_ok_def)
  with f assms(1) schema_core_PutAuthor [of d ?a] show ?thesis
    by (simp add: schema_ok_core)
qed

text \<open>
  A statement that does not raise keeps every constraint: the two tables never reach a state the
  schema forbids, whatever the statement.
\<close>

lemma sql_sem_schema_ok:
  assumes "schema_ok d" and "sql_sem uid now st d = Inr (r, chs)"
  shows "schema_ok (apply_changes chs d)"
proof (cases st)
  case (UpdateMessages conds sets)
  let ?new = "map (update_row sets) (messages_where conds d)"
  from UpdateMessages assms(2) have "list_all message_row_fits ?new" "chs = map PutMessage ?new"
    by (auto simp: update_messages_sem_def Let_def split: if_splits)
  moreover have "m_author_id m \<in> a_id ` set (db_authors d)" if "m \<in> set ?new" for m
    using that schema_okD(4) [OF assms(1)] by (auto simp: messages_where_def)
  ultimately show ?thesis
    using schema_ok_PutMessages [OF assms(1), of ?new] by (auto simp: list_all_iff)
next
  case (UpdateAuthors conds sets)
  then show ?thesis
    using assms schema_core_PutAuthors [of d "map (update_author_row sets) (authors_where conds d)"]
    by (auto simp: update_authors_sem_def Let_def schema_ok_core split: if_splits)
next
  case (DeleteAuthors conds)
  then show ?thesis
    using assms schema_ok_DropAuthors [of d "map a_id (authors_where conds d)"]
    by (auto simp: delete_authors_sem_def Let_def split: if_splits)
next
  case (DeleteMessages conds)
  then show ?thesis
    using assms schema_ok_DropMessages [of d "map m_id (messages_where conds d)"]
    by (auto simp: Let_def)
next
  case (InsertMessage t c a)
  then show ?thesis
    using assms schema_ok_PutMessage [of d]
    by (auto simp: insert_message_sem_def Let_def split: if_splits)
next
  case (InsertAuthorOrNothing n e)
  then show ?thesis
    using assms by (auto split: if_splits sum.splits dest: insert_author_schema)
qed (use assms in \<open>auto split: sum.splits dest: insert_author_schema\<close>)

subsection \<open>Selections by id\<close>

text \<open>What the statements the handlers issue select, in terms of the abstract store.\<close>

lemma messages_where_id [db_simps]:
  "schema_ok d \<Longrightarrow> messages_where [MessageIdIs k] d = (case message_map d k of None \<Rightarrow> [] | Some m \<Rightarrow> [m])"
  by (simp add: messages_where_def message_map_def filter_key_find schema_okD)

lemma messages_where_id_version [db_simps]:
  assumes "schema_ok d"
  shows "messages_where [MessageIdIs k, MessageVersionIs v] d
     = (case message_map d k of None \<Rightarrow> [] | Some m \<Rightarrow> if m_version m = v then [m] else [])"
proof -
  have "messages_where [MessageIdIs k, MessageVersionIs v] d
      = [m \<leftarrow> messages_where [MessageIdIs k] d. m_version m = v]"
    by (simp add: messages_where_def conj_commute)
  then show ?thesis by (simp add: messages_where_id [OF assms] split: option.split)
qed

lemma authors_where_id [db_simps]:
  "schema_ok d \<Longrightarrow> authors_where [AuthorIdIs k] d = (case author_map d k of None \<Rightarrow> [] | Some a \<Rightarrow> [a])"
  by (simp add: authors_where_def author_map_def filter_key_find schema_okD)

lemma order_single [simp]:
  "order_messages ob [] = []" "order_messages ob [m] = [m]"
  "order_authors ob [] = []" "order_authors ob [a] = [a]"
  by (simp_all add: order_messages_def order_authors_def)

lemma paged_None [simp]: "paged None xs = Inr xs"
  by (simp add: paged_def)

lemma set_order [simp]:
  "set (order_messages ob ms) = set ms" "length (order_messages ob ms) = length ms"
  "set (order_authors ob as) = set as" "length (order_authors ob as) = length as"
  by (simp_all add: order_messages_def order_authors_def)

text \<open>The order of the two listings, in terms of the position of a row.\<close>

lemma newest_first_key:
  "map (column_value (m_created_at m) (m_id m)) newest_first
     \<le> map (column_value (m_created_at n) (m_id n)) newest_first \<longleftrightarrow> message_key n \<le> message_key m"
  by (auto simp: newest_first_def message_key_def less_eq_page_key_def word_le_def)

lemma oldest_first_key:
  "map (column_value (a_created_at a) (a_id a)) oldest_first
     \<le> map (column_value (a_created_at b) (a_id b)) oldest_first \<longleftrightarrow> author_key a \<le> author_key b"
  by (auto simp: oldest_first_def author_key_def less_eq_page_key_def word_le_def)

lemma sorted_newest_first: "sorted_wrt (\<lambda>m n. message_key n \<le> message_key m) (order_messages newest_first ms)"
proof -
  have "sorted (map (\<lambda>m. map (column_value (m_created_at m) (m_id m)) newest_first)
      (order_messages newest_first ms))" by (simp add: order_messages_def)
  then show ?thesis by (simp add: sorted_map newest_first_key)
qed

lemma sorted_oldest_first: "sorted_wrt (\<lambda>a b. author_key a \<le> author_key b) (order_authors oldest_first as)"
proof -
  have "sorted (map (\<lambda>a. map (column_value (a_created_at a) (a_id a)) oldest_first)
      (order_authors oldest_first as))" by (simp add: order_authors_def)
  then show ?thesis by (simp add: sorted_map oldest_first_key)
qed

text \<open>Consecutive pages put together are the whole list.\<close>

lemma take_pages:
  "concat (map (\<lambda>j. take n (drop (n * j) xs)) [0..<k]) = take (n * k) xs"
proof (induction k)
  case (Suc k)
  have "n * Suc k = n * k + n" by simp
  with Suc show ?case by (simp only: take_add upt_Suc_append map_append concat_append) simp
qed simp

lemma page_nat: "page (int n) (int n * int j) xs = take n (drop (n * j) xs)"
  by (simp add: page_def nat_mult_distrib)

lemma concat_pages:
  "length xs \<le> n * k \<Longrightarrow> concat (map (\<lambda>j. page (int n) (int n * int j) xs) [0..<k]) = xs"
  by (simp add: page_nat take_pages)

end
