(* ===== verification/Cache.thy ===== *)
theory Cache
  imports Problems "HOL-Library.AList"
begin

section \<open>The message cache: \<open>app/cache.py\<close>\<close>

text \<open>
  \<open>MessageCache\<close> is the protocol the service layer talks to: \<open>get\<close>, \<open>set\<close> and \<open>evict\<close> of a JSON
  string by message id. It is the locale \<open>message_cache\<close>, whose laws say what a call that returns
  does to the contents, and that a call that raises changes at most the entry it names. Two
  implementations: \<open>HazelcastCache\<close>, which wraps the map of a Hazelcast client in a span per call,
  and the in-memory \<open>FakeCache\<close> of the tests. Hazelcast's client is not code of the repository: it
  is the record \<open>hazelcast\<close>, an argument, with the laws of the locale \<open>hazelcast_map\<close>.
\<close>

subsection \<open>The protocol\<close>

record 'c cache_api =
  c_get :: "pystr \<Rightarrow> 'c \<Rightarrow> (string + pystr option) \<times> 'c"
  c_set :: "pystr \<Rightarrow> pystr \<Rightarrow> 'c \<Rightarrow> (string + unit) \<times> 'c"
  c_evict :: "pystr \<Rightarrow> 'c \<Rightarrow> (string + unit) \<times> 'c"

text \<open>
  \<open>contents\<close> is the map all clients share and \<open>up\<close> says that calls succeed. A call that raises may
  or may not have reached the member.
\<close>

locale message_cache =
  fixes C :: "'c cache_api"
    and contents :: "'c \<Rightarrow> pystr \<Rightarrow> pystr option"
    and up :: "'c \<Rightarrow> bool"
  assumes get_contents: "c_get C k c = (r, c') \<Longrightarrow> contents c' = contents c"
    and get_value: "c_get C k c = (Inr raw, c') \<Longrightarrow> raw = contents c k"
    and set_ok: "c_set C k v c = (Inr u, c') \<Longrightarrow> contents c' = (contents c)(k \<mapsto> v)"
    and set_err: "c_set C k v c = (Inl e, c') \<Longrightarrow> contents c' \<in> {contents c, (contents c)(k \<mapsto> v)}"
    and evict_ok: "c_evict C k c = (Inr u, c') \<Longrightarrow> contents c' = (contents c)(k := None)"
    and evict_err: "c_evict C k c = (Inl e, c') \<Longrightarrow> contents c' \<in> {contents c, (contents c)(k := None)}"
    and get_up: "up c \<Longrightarrow> c_get C k c = (r, c') \<Longrightarrow> (\<exists>raw. r = Inr raw) \<and> up c'"
    and set_up: "up c \<Longrightarrow> c_set C k v c = (r', c') \<Longrightarrow> (\<exists>u. r' = Inr u) \<and> up c'"
    and evict_up: "up c \<Longrightarrow> c_evict C k c = (r', c') \<Longrightarrow> (\<exists>u. r' = Inr u) \<and> up c'"
begin

lemma get_when_up:
  assumes "up c"
  obtains c' where "c_get C k c = (Inr (contents c k), c')" "contents c' = contents c" "up c'"
proof (cases "c_get C k c")
  case (Pair r c')
  with assms obtain v where "r = Inr v" "up c'" using get_up by blast
  with Pair that show ?thesis using get_value get_contents by blast
qed

lemma set_when_up:
  assumes "up c"
  obtains c' where "c_set C k v c = (Inr (), c')" "contents c' = (contents c)(k \<mapsto> v)" "up c'"
proof (cases "c_set C k v c")
  case (Pair r c')
  with assms obtain u where "r = Inr u" "up c'" using set_up by blast
  with Pair that show ?thesis using set_ok by (metis old.unit.exhaust)
qed

lemma evict_when_up:
  assumes "up c"
  obtains c' where "c_evict C k c = (Inr (), c')" "contents c' = (contents c)(k := None)" "up c'"
proof (cases "c_evict C k c")
  case (Pair r c')
  with assms obtain u where "r = Inr u" "up c'" using evict_up by blast
  with Pair that show ?thesis using evict_ok by (metis old.unit.exhaust)
qed

end

subsection \<open>The in-memory stand-in of the tests: \<open>tests/conftest.py\<close>\<close>

datatype fake_call = CallGet pystr | CallSet pystr | CallEvict pystr

record fake_cache =
  fc_data :: "(pystr \<times> pystr) list"
  fc_calls :: "fake_call list"

definition fake_get :: "pystr \<Rightarrow> fake_cache \<Rightarrow> (string + pystr option) \<times> fake_cache" where
  "fake_get k c = (Inr (map_of (fc_data c) k), c\<lparr>fc_calls := fc_calls c @ [CallGet k]\<rparr>)"

definition fake_set :: "pystr \<Rightarrow> pystr \<Rightarrow> fake_cache \<Rightarrow> (string + unit) \<times> fake_cache" where
  "fake_set k v c =
     (Inr (), c\<lparr>fc_data := AList.update k v (fc_data c), fc_calls := fc_calls c @ [CallSet k]\<rparr>)"

definition fake_evict :: "pystr \<Rightarrow> fake_cache \<Rightarrow> (string + unit) \<times> fake_cache" where
  "fake_evict k c =
     (Inr (), c\<lparr>fc_data := AList.delete k (fc_data c), fc_calls := fc_calls c @ [CallEvict k]\<rparr>)"

definition FakeCache :: "fake_cache cache_api" where
  "FakeCache = \<lparr>c_get = fake_get, c_set = fake_set, c_evict = fake_evict\<rparr>"

definition fake_contents :: "fake_cache \<Rightarrow> pystr \<Rightarrow> pystr option" where
  "fake_contents c = map_of (fc_data c)"

interpretation fake: message_cache FakeCache fake_contents "\<lambda>_. True"
  by unfold_locales
    (auto simp: FakeCache_def fake_get_def fake_set_def fake_evict_def fake_contents_def
      update_conv' delete_conv')

subsection \<open>Hazelcast's client\<close>

definition CLUSTER_NAME :: pystr where "CLUSTER_NAME = lit ''message-service-cache''"
definition MAP_NAME :: pystr where "MAP_NAME = lit ''messages''"

record hazelcast_config =
  hzc_cluster_name :: pystr
  hzc_cluster_members :: "pystr list"
  hzc_smart_routing :: bool
  hzc_cluster_connect_timeout :: nat

record 'h hazelcast =
  hz_connect :: "hazelcast_config \<Rightarrow> 'h \<Rightarrow> (string + unit) \<times> 'h"
  hz_get_map :: "pystr \<Rightarrow> 'h \<Rightarrow> (string + unit) \<times> 'h"
  hz_is_running :: "'h \<Rightarrow> bool"
  hz_get :: "pystr \<Rightarrow> 'h \<Rightarrow> (string + pystr option) \<times> 'h"
  hz_set :: "pystr \<Rightarrow> pystr \<Rightarrow> 'h \<Rightarrow> (string + unit) \<times> 'h"
  hz_delete :: "pystr \<Rightarrow> 'h \<Rightarrow> (string + unit) \<times> 'h"
  hz_shutdown :: "'h \<Rightarrow> (string + unit) \<times> 'h"

subsection \<open>\<open>HazelcastCache\<close>\<close>

text \<open>A finished span: its name, its attributes, the attribute \<open>cache.hit\<close> and the error recorded.\<close>

record span =
  sp_name :: pystr
  sp_attributes :: "(pystr \<times> pystr) list"
  sp_cache_hit :: "bool option"
  sp_error :: "string option"

text \<open>
  The fields \<open>_client\<close> and \<open>_map\<close> are present or \<open>None\<close>; \<open>hc_member\<close> is the state of the client
  and the member behind them, and \<open>hc_spans\<close> the spans exported.
\<close>

record 'h hz_cache =
  hc_client :: bool
  hc_map :: bool
  hc_member :: 'h
  hc_spans :: "span list"

definition hz_init :: "'h \<Rightarrow> 'h hz_cache" where
  "hz_init h = \<lparr>hc_client = False, hc_map = False, hc_member = h, hc_spans = []\<rparr>"

definition hz_cache_connect ::
  "'h hazelcast \<Rightarrow> pystr \<Rightarrow> int \<Rightarrow> 'h hz_cache \<Rightarrow> (string + unit) \<times> 'h hz_cache" where
  "hz_cache_connect H host port c =
     (let config = \<lparr>hzc_cluster_name = CLUSTER_NAME,
                    hzc_cluster_members = [host @ lit '':'' @ int_str port],
                    hzc_smart_routing = False, hzc_cluster_connect_timeout = 20\<rparr>;
          (r, h) = hz_connect H config (hc_member c)
      in case r of
           Inl e \<Rightarrow> (Inl e, c\<lparr>hc_member := h\<rparr>)
         | Inr _ \<Rightarrow>
             (let (m, h') = hz_get_map H MAP_NAME h;
                  c' = c\<lparr>hc_client := True, hc_member := h'\<rparr>
              in case m of Inl e \<Rightarrow> (Inl e, c') | Inr _ \<Rightarrow> (Inr (), c'\<lparr>hc_map := True\<rparr>)))"

definition hz_connected :: "'h hazelcast \<Rightarrow> 'h hz_cache \<Rightarrow> bool" where
  "hz_connected H c \<longleftrightarrow> hc_client c \<and> hz_is_running H (hc_member c)"

text \<open>
  \<open>_traced\<close>: the call runs inside a span; an exception is recorded in the span and raised again.
\<close>

definition traced ::
  "string \<Rightarrow> ('h hz_cache \<Rightarrow> (string + 'a) \<times> bool option \<times> 'h hz_cache)
     \<Rightarrow> 'h hz_cache \<Rightarrow> (string + 'a) \<times> 'h hz_cache" where
  "traced operation fn c =
     (let (r, hit, c') = fn c;
          span = \<lparr>sp_name = lit ''hazelcast.'' @ lit operation,
                  sp_attributes = [(lit ''db.system'', lit ''hazelcast''),
                                   (lit ''db.operation'', lit operation),
                                   (lit ''cache.map'', MAP_NAME)],
                  sp_cache_hit = hit,
                  sp_error = (case r of Inl e \<Rightarrow> Some e | Inr _ \<Rightarrow> None)\<rparr>
      in (r, c'\<lparr>hc_spans := hc_spans c' @ [span]\<rparr>))"

text \<open>A call on the map; without a map it is the AttributeError of \<open>None\<close>.\<close>

definition on_map :: "('h \<Rightarrow> (string + 'a) \<times> 'h) \<Rightarrow> 'h hz_cache \<Rightarrow> (string + 'a) \<times> 'h hz_cache" where
  "on_map f c =
     (if hc_map c then (let (r, h) = f (hc_member c) in (r, c\<lparr>hc_member := h\<rparr>))
      else (Inl ''AttributeError'', c))"

definition hz_cache_get ::
  "'h hazelcast \<Rightarrow> pystr \<Rightarrow> 'h hz_cache \<Rightarrow> (string + pystr option) \<times> 'h hz_cache" where
  "hz_cache_get H message_id =
     traced ''get'' (\<lambda>c. let (r, c') = on_map (hz_get H message_id) c
       in (r, (case r of Inl _ \<Rightarrow> None | Inr raw \<Rightarrow> Some (raw \<noteq> None)), c'))"

definition hz_cache_set ::
  "'h hazelcast \<Rightarrow> pystr \<Rightarrow> pystr \<Rightarrow> 'h hz_cache \<Rightarrow> (string + unit) \<times> 'h hz_cache" where
  "hz_cache_set H message_id value =
     traced ''set'' (\<lambda>c. let (r, c') = on_map (hz_set H message_id value) c in (r, None, c'))"

definition hz_cache_evict ::
  "'h hazelcast \<Rightarrow> pystr \<Rightarrow> 'h hz_cache \<Rightarrow> (string + unit) \<times> 'h hz_cache" where
  "hz_cache_evict H message_id =
     traced ''delete'' (\<lambda>c. let (r, c') = on_map (hz_delete H message_id) c in (r, None, c'))"

definition hz_cache_shutdown :: "'h hazelcast \<Rightarrow> 'h hz_cache \<Rightarrow> (string + unit) \<times> 'h hz_cache" where
  "hz_cache_shutdown H c =
     (if hc_client c then
        (let (r, h) = hz_shutdown H (hc_member c); c' = c\<lparr>hc_member := h\<rparr>
         in case r of Inl e \<Rightarrow> (Inl e, c')
            | Inr _ \<Rightarrow> (Inr (), c'\<lparr>hc_client := False, hc_map := False\<rparr>))
      else (Inr (), c))"

definition HazelcastCache :: "'h hazelcast \<Rightarrow> 'h hz_cache cache_api" where
  "HazelcastCache H = \<lparr>c_get = hz_cache_get H, c_set = hz_cache_set H, c_evict = hz_cache_evict H\<rparr>"

text \<open>
  What the wrapper relies on: the member's map is a map from keys to values shared by its
  clients. \<open>entries\<close> is the map \<open>messages\<close> of the member.
\<close>

locale hazelcast_map =
  fixes H :: "'h hazelcast"
    and entries :: "'h \<Rightarrow> pystr \<Rightarrow> pystr option"
    and reachable :: "'h \<Rightarrow> bool"
  assumes hz_get_entries: "hz_get H k h = (r, h') \<Longrightarrow> entries h' = entries h"
    and hz_get_value: "hz_get H k h = (Inr raw, h') \<Longrightarrow> raw = entries h k"
    and hz_set_ok: "hz_set H k v h = (Inr u, h') \<Longrightarrow> entries h' = (entries h)(k \<mapsto> v)"
    and hz_set_err: "hz_set H k v h = (Inl e, h') \<Longrightarrow> entries h' \<in> {entries h, (entries h)(k \<mapsto> v)}"
    and hz_delete_ok: "hz_delete H k h = (Inr u, h') \<Longrightarrow> entries h' = (entries h)(k := None)"
    and hz_delete_err: "hz_delete H k h = (Inl e, h') \<Longrightarrow>
          entries h' \<in> {entries h, (entries h)(k := None)}"
    and hz_get_up: "reachable h \<Longrightarrow> hz_get H k h = (r, h') \<Longrightarrow> (\<exists>raw. r = Inr raw) \<and> reachable h'"
    and hz_set_up: "reachable h \<Longrightarrow> hz_set H k v h = (r', h') \<Longrightarrow> (\<exists>u. r' = Inr u) \<and> reachable h'"
    and hz_delete_up: "reachable h \<Longrightarrow> hz_delete H k h = (r', h') \<Longrightarrow> (\<exists>u. r' = Inr u) \<and> reachable h'"

text \<open>The wrapper over any such map has the laws of the protocol, once it is connected.\<close>

sublocale hazelcast_map \<subseteq> hz: message_cache "HazelcastCache H" "\<lambda>c. entries (hc_member c)"
    "\<lambda>c. hc_map c \<and> reachable (hc_member c)"
proof (unfold_locales, goal_cases)
  case (1 k c r c')
  then show ?case
    by (auto simp: HazelcastCache_def hz_cache_get_def traced_def on_map_def hz_get_entries
        split: prod.splits if_splits)
next
  case (2 k c v c')
  then show ?case
    by (auto simp: HazelcastCache_def hz_cache_get_def traced_def on_map_def hz_get_value
        split: prod.splits if_splits)
next
  case (3 k v c u c')
  then show ?case
    by (auto simp: HazelcastCache_def hz_cache_set_def traced_def on_map_def hz_set_ok
        split: prod.splits if_splits)
next
  case (4 k v c e c')
  then show ?case
    by (auto simp: HazelcastCache_def hz_cache_set_def traced_def on_map_def dest: hz_set_err
        split: prod.splits if_splits)
next
  case (5 k c u c')
  then show ?case
    by (auto simp: HazelcastCache_def hz_cache_evict_def traced_def on_map_def hz_delete_ok
        split: prod.splits if_splits)
next
  case (6 k c e c')
  then show ?case
    by (auto simp: HazelcastCache_def hz_cache_evict_def traced_def on_map_def dest: hz_delete_err
        split: prod.splits if_splits)
next
  case (7 c k r c')
  then show ?case
    by (auto simp: HazelcastCache_def hz_cache_get_def traced_def on_map_def dest: hz_get_up
        split: prod.splits if_splits)
next
  case (8 c k v r' c')
  then show ?case
    by (auto simp: HazelcastCache_def hz_cache_set_def traced_def on_map_def dest: hz_set_up
        split: prod.splits if_splits)
next
  case (9 c k r' c')
  then show ?case
    by (auto simp: HazelcastCache_def hz_cache_evict_def traced_def on_map_def dest: hz_delete_up
        split: prod.splits if_splits)
qed

context hazelcast_map begin

lemmas axioms_of_wrapper = hz.message_cache_axioms

end

text \<open>A member that lives in the process, always reachable: the laws can hold.\<close>

definition local_member :: "fake_cache hazelcast" where
  "local_member =
     \<lparr>hz_connect = (\<lambda>config h. (Inr (), h)), hz_get_map = (\<lambda>name h. (Inr (), h)),
      hz_is_running = (\<lambda>h. True), hz_get = fake_get, hz_set = fake_set, hz_delete = fake_evict,
      hz_shutdown = (\<lambda>h. (Inr (), h))\<rparr>"

interpretation local_map: hazelcast_map local_member fake_contents "\<lambda>_. True"
  by unfold_locales
    (auto simp: local_member_def fake_get_def fake_set_def fake_evict_def fake_contents_def
      update_conv' delete_conv')

definition local_cache :: "fake_cache hz_cache" where
  "local_cache = snd (hz_cache_connect local_member (lit ''localhost'') 5701
     (hz_init \<lparr>fc_data = [], fc_calls = []\<rparr>))"

lemma local_cache_connected: "hc_map local_cache" "fake_contents (hc_member local_cache) = Map.empty"
  by (simp_all add: local_cache_def hz_cache_connect_def local_member_def hz_init_def
      fake_contents_def)

subsection \<open>Properties\<close>

text \<open>
  C36. \<open>HazelcastCache\<close> implements the protocol over any member whose map is a map: a read
  returns what was last set for that key, nothing once it has been evicted, and what it returned
  before for every other key.
\<close>

theorem hazelcast_cache_reads_last_write:
  assumes "hazelcast_map H entries reachable" and "hc_map c" and "reachable (hc_member c)"
  shows "\<exists>c1 c2 c3 c4.
     hz_cache_set H k v c = (Inr (), c1)
     \<and> hz_cache_get H k' c1 = (Inr (if k' = k then Some v else entries (hc_member c) k'), c2)
     \<and> hz_cache_evict H k c2 = (Inr (), c3)
     \<and> hz_cache_get H k' c3 = (Inr (if k' = k then None else entries (hc_member c) k'), c4)"
proof -
  have mc: "message_cache (HazelcastCache H) (\<lambda>c. entries (hc_member c))
      (\<lambda>c. hc_map c \<and> reachable (hc_member c))"
    using assms(1) by (rule hazelcast_map.axioms_of_wrapper)
  let ?up = "\<lambda>c. hc_map c \<and> reachable (hc_member c)"
  obtain c1 where c1: "hz_cache_set H k v c = (Inr (), c1)"
    "entries (hc_member c1) = (entries (hc_member c))(k \<mapsto> v)" "?up c1"
    using message_cache.set_when_up [OF mc, of c k v] assms(2,3) by (auto simp: HazelcastCache_def)
  obtain c2 where c2: "hz_cache_get H k' c1 = (Inr (entries (hc_member c1) k'), c2)"
    "entries (hc_member c2) = entries (hc_member c1)" "?up c2"
    using message_cache.get_when_up [OF mc, of c1 k'] c1(3) by (auto simp: HazelcastCache_def)
  obtain c3 where c3: "hz_cache_evict H k c2 = (Inr (), c3)"
    "entries (hc_member c3) = (entries (hc_member c2))(k := None)" "?up c3"
    using message_cache.evict_when_up [OF mc, of c2 k] c2(3) by (auto simp: HazelcastCache_def)
  obtain c4 where c4: "hz_cache_get H k' c3 = (Inr (entries (hc_member c3) k'), c4)"
    using message_cache.get_when_up [OF mc, of c3 k'] c3(3) by (auto simp: HazelcastCache_def)
  show ?thesis using c1 c2 c3 c4 by (intro exI [of _ c1] exI [of _ c2] exI [of _ c3] exI [of _ c4]) simp
qed

theorem hazelcast_cache_reads_last_write_witness:
  "\<exists>c1 c2. hz_cache_set local_member (lit ''k'') (lit ''v'') local_cache = (Inr (), c1)
     \<and> hz_cache_get local_member (lit ''k'') c1 = (Inr (Some (lit ''v'')), c2)"
  using hazelcast_cache_reads_last_write
      [OF local_map.hazelcast_map_axioms local_cache_connected(1) TrueI,
       of "lit ''k''" "lit ''v''" "lit ''k''"]
  by auto

text \<open>
  Every call on the cache leaves exactly one span, named after the operation; a get that
  returns records whether it was a hit, an exception is recorded in the span and raised unchanged,
  and a call before \<open>connect\<close> raises without touching the member.
\<close>

theorem cache_calls_are_traced:
  "\<exists>sp. hc_spans (snd (hz_cache_get H k c)) = hc_spans c @ [sp]
     \<and> sp_name sp = lit ''hazelcast.get''
     \<and> sp_cache_hit sp = (case fst (hz_cache_get H k c) of Inl _ \<Rightarrow> None | Inr raw \<Rightarrow> Some (raw \<noteq> None))
     \<and> sp_error sp = (case fst (hz_cache_get H k c) of Inl e \<Rightarrow> Some e | Inr _ \<Rightarrow> None)
     \<and> fst (hz_cache_get H k c)
         = (if hc_map c then fst (hz_get H k (hc_member c)) else Inl ''AttributeError'')
     \<and> (\<not> hc_map c \<longrightarrow> hc_member (snd (hz_cache_get H k c)) = hc_member c)"
proof -
  have name: "lit ''hazelcast.'' @ lit ''get'' = lit ''hazelcast.get''"
    by (simp add: lit_append [symmetric])
  show ?thesis
    by (auto simp: hz_cache_get_def traced_def on_map_def name split: prod.splits sum.splits)
qed

theorem cache_calls_are_traced_witness:
  "\<exists>sp. hc_spans (snd (hz_cache_get local_member (lit ''k'') (hz_init \<lparr>fc_data = [], fc_calls = []\<rparr>))) = [sp]
     \<and> sp_error sp = Some ''AttributeError''
     \<and> hc_member (snd (hz_cache_get local_member (lit ''k'') (hz_init \<lparr>fc_data = [], fc_calls = []\<rparr>)))
         = \<lparr>fc_data = [], fc_calls = []\<rparr>"
  using cache_calls_are_traced [of local_member "lit ''k''" "hz_init \<lparr>fc_data = [], fc_calls = []\<rparr>"]
  by (auto simp: hz_init_def)

text \<open>
  After \<open>connect\<close> the cache is connected to a running client and its calls reach the map
  \<open>messages\<close>; a refused connection raises and leaves no client; after \<open>shutdown\<close> it is not
  connected, and shutting down again does nothing.
\<close>

theorem cache_lifecycle:
  "(hz_cache_connect H host port (hz_init h) = (Inr (), c) \<longrightarrow> hc_client c \<and> hc_map c
      \<and> hz_connected H c = hz_is_running H (hc_member c))
   \<and> (fst (hz_connect H config h) = Inl e \<and>
        config = \<lparr>hzc_cluster_name = CLUSTER_NAME, hzc_cluster_members = [host @ lit '':'' @ int_str port],
                  hzc_smart_routing = False, hzc_cluster_connect_timeout = 20\<rparr> \<longrightarrow>
      fst (hz_cache_connect H host port (hz_init h)) = Inl e
      \<and> \<not> hc_client (snd (hz_cache_connect H host port (hz_init h))))
   \<and> (hz_cache_shutdown H c' = (Inr (), c'') \<longrightarrow>
        \<not> hz_connected H c'' \<and> (hc_client c' \<longrightarrow> \<not> hc_map c'') \<and> hz_cache_shutdown H c'' = (Inr (), c''))"
  by (auto simp: hz_cache_connect_def hz_cache_shutdown_def hz_init_def hz_connected_def Let_def
      split: prod.splits sum.splits if_splits)

theorem cache_lifecycle_witness:
  "hz_cache_connect local_member (lit ''localhost'') 5701 (hz_init \<lparr>fc_data = [], fc_calls = []\<rparr>)
     = (Inr (), local_cache) \<and> hz_connected local_member local_cache"
proof -
  have eq: "hz_cache_connect local_member (lit ''localhost'') 5701 (hz_init \<lparr>fc_data = [], fc_calls = []\<rparr>)
      = (Inr (), local_cache)"
    by (simp add: local_cache_def hz_cache_connect_def local_member_def hz_init_def)
  moreover from cache_lifecycle [THEN conjunct1, THEN mp, OF eq]
  have "hz_connected local_member local_cache = hz_is_running local_member (hc_member local_cache)"
    by blast
  ultimately show ?thesis by (simp add: local_member_def)
qed


end
