(* ===== verification/Program.thy ===== *)
theory Program
  imports Sql Cache
begin

section \<open>Handlers as programs\<close>

text \<open>
  A handler of the service layer awaits the database and the cache, and between two awaits other
  requests run. It is modelled once, as a tree of its effects: each node is one await (a statement,
  a commit, a rollback, a call on the cache), with the continuation for what the await returns and,
  where the source has a \<open>try ... except IntegrityError\<close>, the handler of that exception. The
  sequential interpreter \<open>run\<close> and the interleaving of many requests (theory \<open>Concurrency\<close>) read
  the same trees. The engine and the cache are arguments of the interpreters.
\<close>

subsection \<open>Programs\<close>

datatype 'a prog =
    Return 'a
  | Raise exn
  | Exec stmt "rows \<Rightarrow> 'a prog" "string option \<Rightarrow> 'a prog"
  | Commit "'a prog" "string option \<Rightarrow> 'a prog"
  | Rollback "'a prog"
  | CacheGet pystr "pystr option \<Rightarrow> 'a prog"
  | CacheSet pystr pystr "'a prog"
  | CacheEvict pystr "'a prog"

text \<open>An IntegrityError that no \<open>except\<close> catches.\<close>

definition reraise :: "string option \<Rightarrow> 'a prog" where
  "reraise sqlstate = Raise (IntegrityError sqlstate)"

primrec bind_prog :: "'a prog \<Rightarrow> ('a \<Rightarrow> 'b prog) \<Rightarrow> 'b prog" where
  "bind_prog (Return x) f = f x"
| "bind_prog (Raise e) f = Raise e"
| "bind_prog (Exec st k h) f = Exec st (\<lambda>r. bind_prog (k r) f) (\<lambda>e. bind_prog (h e) f)"
| "bind_prog (Commit k h) f = Commit (bind_prog k f) (\<lambda>e. bind_prog (h e) f)"
| "bind_prog (Rollback k) f = Rollback (bind_prog k f)"
| "bind_prog (CacheGet key k) f = CacheGet key (\<lambda>r. bind_prog (k r) f)"
| "bind_prog (CacheSet key v k) f = CacheSet key v (bind_prog k f)"
| "bind_prog (CacheEvict key k) f = CacheEvict key (bind_prog k f)"

lemma bind_prog_assoc: "bind_prog (bind_prog p f) g = bind_prog p (\<lambda>x. bind_prog (f x) g)"
  by (induction p) auto

lemma bind_reraise [simp]: "bind_prog (reraise e) f = reraise e"
  by (simp add: reraise_def)

text \<open>\<open>scalar_one_or_none\<close> and \<open>scalar_one\<close> of a result.\<close>

definition scalar_one_or_none :: "'r list \<Rightarrow> ('r option \<Rightarrow> 'a prog) \<Rightarrow> 'a prog" where
  "scalar_one_or_none rs k =
     (case rs of [] \<Rightarrow> k None | [r] \<Rightarrow> k (Some r) | _ \<Rightarrow> Raise MultipleResultsFound)"

definition scalar_one :: "'r list \<Rightarrow> ('r \<Rightarrow> 'a prog) \<Rightarrow> 'a prog" where
  "scalar_one rs k =
     (case rs of [] \<Rightarrow> Raise NoResultFound | [r] \<Rightarrow> k r | _ \<Rightarrow> Raise MultipleResultsFound)"

lemma scalar_one_or_none_simps [simp]:
  "scalar_one_or_none [] k = k None" "scalar_one_or_none [r] k = k (Some r)"
  "scalar_one [r] f = f r"
  by (simp_all add: scalar_one_or_none_def scalar_one_def)

lemma scalar_one_or_none_option [simp]:
  "scalar_one_or_none (case x of None \<Rightarrow> [] | Some r \<Rightarrow> [f r]) k
     = k (map_option f x)"
  by (cases x) simp_all

subsection \<open>The engine\<close>

text \<open>
  The database engine as the handlers see it, over states \<open>'s\<close>: a statement of a session returns
  its rows, raises an IntegrityError with its SQLSTATE or raises another database error; \<open>None\<close>
  means that it has to wait for a lock of another session.
\<close>

datatype reply = Reply rows | Violation "string option" | DbFail string

datatype commit_reply = CommitOk | CommitViolation "string option" | CommitFail string

record 's engine =
  e_exec :: "nat \<Rightarrow> stmt \<Rightarrow> 's \<Rightarrow> (reply \<times> 's) option"
  e_commit :: "nat \<Rightarrow> 's \<Rightarrow> commit_reply \<times> 's"
  e_rollback :: "nat \<Rightarrow> 's \<Rightarrow> 's"

subsection \<open>Running one program\<close>

datatype 'a outcome = Returned 'a | Raised exn | Waiting

primrec run ::
  "'s engine \<Rightarrow> 'c cache_api \<Rightarrow> nat \<Rightarrow> 'a prog \<Rightarrow> 's \<times> 'c \<Rightarrow> 'a outcome \<times> 's \<times> 'c" where
  "run E C i (Return x) = (\<lambda>(s, c). (Returned x, s, c))"
| "run E C i (Raise e) = (\<lambda>(s, c). (Raised e, s, c))"
| "run E C i (Exec st k h) = (\<lambda>(s, c).
     case e_exec E i st s of
       None \<Rightarrow> (Waiting, s, c)
     | Some (Reply r, s') \<Rightarrow> run E C i (k r) (s', c)
     | Some (Violation e, s') \<Rightarrow> run E C i (h e) (s', c)
     | Some (DbFail e, s') \<Rightarrow> (Raised (DatabaseError e), s', c))"
| "run E C i (Commit k h) = (\<lambda>(s, c).
     case e_commit E i s of
       (CommitOk, s') \<Rightarrow> run E C i k (s', c)
     | (CommitViolation e, s') \<Rightarrow> run E C i (h e) (s', c)
     | (CommitFail e, s') \<Rightarrow> (Raised (DatabaseError e), s', c))"
| "run E C i (Rollback k) = (\<lambda>(s, c). run E C i k (e_rollback E i s, c))"
| "run E C i (CacheGet key k) = (\<lambda>(s, c).
     case c_get C key c of
       (Inl e, c') \<Rightarrow> (Raised (CacheError e), s, c')
     | (Inr v, c') \<Rightarrow> run E C i (k v) (s, c'))"
| "run E C i (CacheSet key v k) = (\<lambda>(s, c).
     case c_set C key v c of
       (Inl e, c') \<Rightarrow> (Raised (CacheError e), s, c')
     | (Inr _, c') \<Rightarrow> run E C i k (s, c'))"
| "run E C i (CacheEvict key k) = (\<lambda>(s, c).
     case c_evict C key c of
       (Inl e, c') \<Rightarrow> (Raised (CacheError e), s, c')
     | (Inr _, c') \<Rightarrow> run E C i k (s, c'))"

text \<open>
  \<open>get_session\<close> (\<open>app/db.py\<close>): the request runs inside \<open>async with session_factory()\<close>, which
  closes the session on every way out, and closing rolls back what was not committed.
\<close>

definition with_session ::
  "'s engine \<Rightarrow> 'c cache_api \<Rightarrow> nat \<Rightarrow> 'a prog \<Rightarrow> 's \<times> 'c \<Rightarrow> 'a outcome \<times> 's \<times> 'c" where
  "with_session E C i p w = (let (r, s, c) = run E C i p w in (r, e_rollback E i s, c))"

end
