(* ===== verification/Engine.thy ===== *)
theory Engine
  imports Program
begin

section \<open>The database engine the handlers rely on\<close>

text \<open>
  PostgreSQL and SQLAlchemy's session are not code of the repository. The record \<open>engine\<close> of
  theory \<open>Program\<close> is an argument of the interpreters, and the locale \<open>sql_engine\<close> states what
  is documented of it and relied on: what a statement returns on the tables a session sees (READ
  COMMITTED: the committed rows and the session's own changes), that a failed statement makes the
  transaction unusable until it is rolled back, what a commit and a rollback do, that a row with
  an uncommitted change is locked, and that constraints hold. \<open>ref_engine\<close> is an executable
  engine with these laws: one writing session at a time.
\<close>

subsection \<open>What can be observed of an engine\<close>

text \<open>
  \<open>ob_uuid i s\<close> is the id \<open>uuid4\<close> draws for the next insert of session \<open>i\<close>, \<open>ob_now i s\<close> the time
  of its transaction, \<open>ob_up s\<close> says that no statement fails for a reason outside the tables, and
  \<open>ob_ok s\<close> that what is committed and what each session sees obeys the constraints.
\<close>

record 's db_obs =
  ob_committed :: "'s \<Rightarrow> db"
  ob_pending :: "nat \<Rightarrow> 's \<Rightarrow> change list"
  ob_aborted :: "nat \<Rightarrow> 's \<Rightarrow> bool"
  ob_active :: "nat \<Rightarrow> 's \<Rightarrow> bool"
  ob_locks :: "nat \<Rightarrow> 's \<Rightarrow> int set"
  ob_up :: "'s \<Rightarrow> bool"
  ob_ok :: "'s \<Rightarrow> bool"
  ob_uuid :: "nat \<Rightarrow> 's \<Rightarrow> uuid"
  ob_now :: "nat \<Rightarrow> 's \<Rightarrow> int"

definition ob_view :: "'s db_obs \<Rightarrow> nat \<Rightarrow> 's \<Rightarrow> db" where
  "ob_view B i s = apply_changes (ob_pending B i s) (ob_committed B s)"

text \<open>A step of one session leaves the others as they are.\<close>

definition others_same :: "'s db_obs \<Rightarrow> nat \<Rightarrow> 's \<Rightarrow> 's \<Rightarrow> bool" where
  "others_same B i s s' \<longleftrightarrow>
     (\<forall>j. j \<noteq> i \<longrightarrow> ob_pending B j s' = ob_pending B j s \<and> ob_aborted B j s' = ob_aborted B j s
        \<and> ob_active B j s' = ob_active B j s \<and> ob_locks B j s' = ob_locks B j s)"

text \<open>The row a change is made to.\<close>

fun change_row :: "change \<Rightarrow> bool \<times> uuid" where
  "change_row (PutAuthor a) = (True, a_id a)"
| "change_row (DropAuthor k) = (True, k)"
| "change_row (PutMessage m) = (False, m_id m)"
| "change_row (DropMessage k) = (False, k)"

definition rows_touched :: "change list \<Rightarrow> (bool \<times> uuid) set" where
  "rows_touched chs = change_row ` set chs"

text \<open>
  One session at work while no other is: what is committed, what the session sees, and the id and
  the time its next insert gets. In \<open>broken\<close> its transaction has failed.
\<close>

definition working :: "'s db_obs \<Rightarrow> nat \<Rightarrow> 's \<Rightarrow> db \<Rightarrow> db \<Rightarrow> uuid \<times> int \<Rightarrow> bool" where
  "working B i s d v u \<longleftrightarrow>
     ob_committed B s = d \<and> ob_view B i s = v \<and> (ob_uuid B i s, ob_now B i s) = u \<and> \<not> ob_aborted B i s
     \<and> ob_up B s \<and> ob_ok B s \<and> (\<forall>j. j \<noteq> i \<longrightarrow> \<not> ob_active B j s)"

definition broken :: "'s db_obs \<Rightarrow> nat \<Rightarrow> 's \<Rightarrow> db \<Rightarrow> bool" where
  "broken B i s d \<longleftrightarrow>
     ob_committed B s = d \<and> ob_up B s \<and> ob_ok B s \<and> (\<forall>j. j \<noteq> i \<longrightarrow> \<not> ob_active B j s)"

definition quiet :: "'s db_obs \<Rightarrow> 's \<Rightarrow> db \<Rightarrow> bool" where
  "quiet B s d \<longleftrightarrow> ob_committed B s = d \<and> ob_up B s \<and> ob_ok B s \<and> (\<forall>j. \<not> ob_active B j s)"

subsection \<open>The laws\<close>

locale sql_engine =
  fixes E :: "'s engine" and B :: "'s db_obs"
  assumes exec_progress: "\<forall>j. j \<noteq> i \<longrightarrow> \<not> ob_active B j s \<Longrightarrow> \<exists>rep s'. e_exec E i st s = Some (rep, s')"
    and exec_frame: "e_exec E i st s = Some (rep, s') \<Longrightarrow>
          ob_committed B s' = ob_committed B s \<and> others_same B i s s'
          \<and> ob_now B i s' = ob_now B i s \<and> (\<not> is_insert st \<longrightarrow> ob_uuid B i s' = ob_uuid B i s)"
    and exec_up: "e_exec E i st s = Some (rep, s') \<Longrightarrow> ob_up B s \<Longrightarrow> ob_up B s'"
    and exec_ok: "e_exec E i st s = Some (rep, s') \<Longrightarrow> ob_ok B s \<Longrightarrow> ob_ok B s'"
    and exec_result: "e_exec E i st s = Some (rep, s') \<Longrightarrow> \<not> ob_aborted B i s \<Longrightarrow>
          (case sql_sem (ob_uuid B i s) (ob_now B i s) st (ob_view B i s) of
             Inr (r, chs) \<Rightarrow> rep = Reply r \<and> ob_pending B i s' = ob_pending B i s @ chs
               \<and> \<not> ob_aborted B i s'
           | Inl (IntegrityErr e) \<Rightarrow> rep = Violation (Some e) \<and> ob_aborted B i s'
               \<and> ob_pending B i s' = ob_pending B i s
           | Inl (DataErr e) \<Rightarrow> rep = DbFail e \<and> ob_aborted B i s'
               \<and> ob_pending B i s' = ob_pending B i s)
          \<or> \<not> ob_up B s \<and> (\<exists>e. rep = DbFail e) \<and> ob_aborted B i s' \<and> ob_pending B i s' = ob_pending B i s"
    and exec_aborted: "e_exec E i st s = Some (rep, s') \<Longrightarrow> ob_aborted B i s \<Longrightarrow>
          (\<exists>e. rep = DbFail e) \<and> ob_aborted B i s' \<and> ob_pending B i s' = ob_pending B i s"
    and exec_row_locks: "e_exec E i st s = Some (rep, s') \<Longrightarrow> j \<noteq> i \<Longrightarrow>
          ob_pending B i s' = ob_pending B i s @ chs \<Longrightarrow>
          rows_touched chs \<inter> rows_touched (ob_pending B j s) = {}"
    and exec_advisory: "e_exec E i (AdvisoryXactLock key) s = Some (Reply r, s') \<Longrightarrow>
          key \<in> ob_locks B i s' \<and> (\<forall>j. j \<noteq> i \<longrightarrow> key \<notin> ob_locks B j s)"
    and exec_locks: "e_exec E i st s = Some (rep, s') \<Longrightarrow> ob_locks B i s \<subseteq> ob_locks B i s'"
    and inactive: "\<not> ob_active B i s \<Longrightarrow>
          ob_pending B i s = [] \<and> \<not> ob_aborted B i s \<and> ob_locks B i s = {}"
    and commit_end: "e_commit E i s = (cr, s') \<Longrightarrow>
          \<not> ob_active B i s' \<and> others_same B i s s' \<and> (\<forall>j. ob_uuid B j s' = ob_uuid B j s)
          \<and> ob_committed B s' \<in> {ob_committed B s, ob_view B i s}"
    and commit_ok: "e_commit E i s = (CommitOk, s') \<Longrightarrow> \<not> ob_aborted B i s \<Longrightarrow>
          ob_committed B s' = ob_view B i s"
    and commit_up: "e_commit E i s = (cr, s') \<Longrightarrow> ob_up B s \<Longrightarrow> cr = CommitOk \<and> ob_up B s'"
    and commit_keeps_ok: "e_commit E i s = (cr, s') \<Longrightarrow> ob_ok B s \<Longrightarrow> ob_ok B s'"
    and rollback_end: "\<not> ob_active B i (e_rollback E i s) \<and> others_same B i s (e_rollback E i s)
          \<and> ob_committed B (e_rollback E i s) = ob_committed B s
          \<and> (\<forall>j. ob_uuid B j (e_rollback E i s) = ob_uuid B j s)"
    and rollback_up: "ob_up B s \<Longrightarrow> ob_up B (e_rollback E i s)"
    and rollback_ok: "ob_ok B s \<Longrightarrow> ob_ok B (e_rollback E i s)"
    and ok_schema: "ob_ok B s \<Longrightarrow> schema_ok (ob_committed B s) \<and> schema_ok (ob_view B i s)"
begin

lemma working_schema: "working B i s d v u \<Longrightarrow> schema_ok d \<and> schema_ok v"
  by (auto simp: working_def dest: ok_schema)

lemma quiet_working: "quiet B s d \<Longrightarrow> working B i s d d (ob_uuid B i s, ob_now B i s)"
  using inactive [of i s] by (simp add: quiet_def working_def ob_view_def)

lemma quiet_schema: "quiet B s d \<Longrightarrow> schema_ok d"
  using quiet_working working_schema by blast

lemma working_broken: "working B i s d v u \<Longrightarrow> broken B i s d"
  by (simp add: working_def broken_def)

lemma exec_alone:
  assumes "broken B i s d"
  obtains rep s' where "e_exec E i st s = Some (rep, s')" "broken B i s' d"
proof -
  from assms obtain rep s' where e: "e_exec E i st s = Some (rep, s')"
    using exec_progress [of i s st] by (auto simp: broken_def)
  with assms exec_frame [OF e] exec_up [OF e] exec_ok [OF e] have "broken B i s' d"
    by (auto simp: broken_def others_same_def)
  with e that show ?thesis by blast
qed

lemma exec_working:
  assumes "working B i s d v u" and "sql_sem (fst u) (snd u) st v = Inr (r, chs)"
  obtains s' u' where "e_exec E i st s = Some (Reply r, s')" "working B i s' d (apply_changes chs v) u'"
    "\<not> is_insert st \<Longrightarrow> u' = u"
proof -
  obtain rep s' where e: "e_exec E i st s = Some (rep, s')" and b: "broken B i s' d"
    using exec_alone [OF working_broken [OF assms(1)]] by blast
  have w: "\<not> ob_aborted B i s" "ob_up B s" "ob_uuid B i s = fst u" "ob_now B i s = snd u" "ob_view B i s = v"
    "ob_committed B s = d" using assms(1) by (auto simp: working_def)
  from exec_result [OF e w(1)] w assms(2)
  have r: "rep = Reply r" "ob_pending B i s' = ob_pending B i s @ chs" "\<not> ob_aborted B i s'" by auto
  have "ob_view B i s' = apply_changes chs v"
    using r(2) exec_frame [OF e] w by (simp add: ob_view_def)
  with b r(3) have "working B i s' d (apply_changes chs v) (ob_uuid B i s', ob_now B i s')"
    by (simp add: working_def broken_def)
  moreover have "\<not> is_insert st \<Longrightarrow> (ob_uuid B i s', ob_now B i s') = u"
    using exec_frame [OF e] w(3,4) by simp
  ultimately show ?thesis using e r(1) that by blast
qed

lemma exec_violation:
  assumes "working B i s d v u" and "sql_sem (fst u) (snd u) st v = Inl (IntegrityErr e)"
  obtains s' where "e_exec E i st s = Some (Violation (Some e), s')" "broken B i s' d"
proof -
  obtain rep s' where x: "e_exec E i st s = Some (rep, s')" and b: "broken B i s' d"
    using exec_alone [OF working_broken [OF assms(1)]] by blast
  have w: "\<not> ob_aborted B i s" "ob_up B s" "ob_uuid B i s = fst u" "ob_now B i s = snd u" "ob_view B i s = v"
    using assms(1) by (auto simp: working_def)
  from exec_result [OF x w(1)] w assms(2) have "rep = Violation (Some e)" by simp
  with x b that show ?thesis by blast
qed

lemma exec_data_error:
  assumes "working B i s d v u" and "sql_sem (fst u) (snd u) st v = Inl (DataErr e)"
  obtains s' where "e_exec E i st s = Some (DbFail e, s')" "broken B i s' d"
proof -
  obtain rep s' where x: "e_exec E i st s = Some (rep, s')" and b: "broken B i s' d"
    using exec_alone [OF working_broken [OF assms(1)]] by blast
  have w: "\<not> ob_aborted B i s" "ob_up B s" "ob_uuid B i s = fst u" "ob_now B i s = snd u" "ob_view B i s = v"
    using assms(1) by (auto simp: working_def)
  from exec_result [OF x w(1)] w assms(2) have "rep = DbFail e" by simp
  with x b that show ?thesis by blast
qed

lemma commit_working:
  assumes "working B i s d v u"
  obtains s' where "e_commit E i s = (CommitOk, s')" "quiet B s' v"
proof (cases "e_commit E i s")
  case (Pair cr s')
  with assms commit_up [of i s cr s'] have ok: "cr = CommitOk" "ob_up B s'"
    by (auto simp: working_def)
  with Pair have e: "e_commit E i s = (CommitOk, s')" by simp
  from assms commit_ok [OF e] commit_end [OF e] commit_keeps_ok [OF e] ok
  have "quiet B s' v"
    by (auto simp: working_def quiet_def others_same_def)
  with e that show ?thesis by blast
qed

lemma rollback_broken:
  assumes "broken B i s d"
  shows "quiet B (e_rollback E i s) d"
  using assms rollback_end [of i s] rollback_up [of s i] rollback_ok [of s i]
  by (auto simp: broken_def quiet_def others_same_def)

lemma rollback_quiet: "quiet B s d \<Longrightarrow> quiet B (e_rollback E i s) d"
  using rollback_broken [of i s d] quiet_working working_broken by blast

lemma rollback_working: "working B i s d v u \<Longrightarrow> quiet B (e_rollback E i s) d"
  using rollback_broken working_broken by blast

end

end
