(* ===== verification/RefEngine.thy ===== *)
theory RefEngine
  imports Engine
begin

section \<open>An executable engine with the laws\<close>

text \<open>
  One session writes at a time: the first statement that is not a read makes the session the owner,
  and until it commits or rolls back every other session that wants to write waits. Reads see what
  is committed and never wait. Ids are drawn from a counter. The engine shows that the laws of
  \<open>sql_engine\<close> can hold together, and the concrete inputs of the theorems run on it.
\<close>

record ref_db =
  rd_committed :: db
  rd_owner :: "nat option"
  rd_pending :: "change list"
  rd_aborted :: "nat list"
  rd_locks :: "int list"
  rd_next :: nat
  rd_clock :: int

definition ref_pending :: "nat \<Rightarrow> ref_db \<Rightarrow> change list" where
  "ref_pending i s = (if rd_owner s = Some i then rd_pending s else [])"

definition ref_view :: "nat \<Rightarrow> ref_db \<Rightarrow> db" where
  "ref_view i s = apply_changes (ref_pending i s) (rd_committed s)"

definition ref_uuid :: "ref_db \<Rightarrow> uuid" where
  "ref_uuid s = of_nat (rd_next s)"

fun new_locks :: "stmt \<Rightarrow> int list" where
  "new_locks (AdvisoryXactLock key) = [key]"
| "new_locks _ = []"

definition ref_exec :: "nat \<Rightarrow> stmt \<Rightarrow> ref_db \<Rightarrow> (reply \<times> ref_db) option" where
  "ref_exec i st s =
     (if i \<in> set (rd_aborted s) then Some (DbFail ''25P02'', s)
      else if \<not> is_read st \<and> rd_owner s \<noteq> None \<and> rd_owner s \<noteq> Some i then None
      else
        (case sql_sem (ref_uuid s) (rd_clock s) st (ref_view i s) of
           Inl (IntegrityErr e) \<Rightarrow> Some (Violation (Some e), s\<lparr>rd_aborted := i # rd_aborted s\<rparr>)
         | Inl (DataErr e) \<Rightarrow> Some (DbFail e, s\<lparr>rd_aborted := i # rd_aborted s\<rparr>)
         | Inr (r, chs) \<Rightarrow>
             Some (Reply r,
               if is_read st then s
               else s\<lparr>rd_owner := Some i, rd_pending := ref_pending i s @ chs,
                      rd_locks := (if rd_owner s = Some i then rd_locks s else []) @ new_locks st,
                      rd_next := (if is_insert st then Suc (rd_next s) else rd_next s)\<rparr>)))"

definition ref_end :: "nat \<Rightarrow> ref_db \<Rightarrow> ref_db" where
  "ref_end i s =
     (if rd_owner s = Some i then
        s\<lparr>rd_owner := None, rd_pending := [], rd_locks := [], rd_aborted := removeAll i (rd_aborted s)\<rparr>
      else s\<lparr>rd_aborted := removeAll i (rd_aborted s)\<rparr>)"

definition ref_commit :: "nat \<Rightarrow> ref_db \<Rightarrow> commit_reply \<times> ref_db" where
  "ref_commit i s =
     (CommitOk,
      if i \<in> set (rd_aborted s) then ref_end i s
      else (ref_end i s)\<lparr>rd_committed := ref_view i s, rd_clock := rd_clock s + 1\<rparr>)"

definition ref_engine :: "ref_db engine" where
  "ref_engine = \<lparr>e_exec = ref_exec, e_commit = ref_commit, e_rollback = ref_end\<rparr>"

definition ref_obs :: "ref_db db_obs" where
  "ref_obs =
     \<lparr>ob_committed = rd_committed, ob_pending = ref_pending,
      ob_aborted = (\<lambda>i s. i \<in> set (rd_aborted s)),
      ob_active = (\<lambda>i s. rd_owner s = Some i \<or> i \<in> set (rd_aborted s)),
      ob_locks = (\<lambda>i s. if rd_owner s = Some i then set (rd_locks s) else {}),
      ob_up = (\<lambda>s. True),
      ob_ok = (\<lambda>s. schema_ok (rd_committed s)
        \<and> (case rd_owner s of None \<Rightarrow> True | Some i \<Rightarrow> schema_ok (ref_view i s))),
      ob_uuid = (\<lambda>i s. ref_uuid s), ob_now = (\<lambda>i s. rd_clock s)\<rparr>"

lemma ref_engine_sel [simp]:
  "e_exec ref_engine = ref_exec" "e_commit ref_engine = ref_commit" "e_rollback ref_engine = ref_end"
  by (simp_all add: ref_engine_def)

lemma ref_obs_sel [simp]:
  "ob_committed ref_obs = rd_committed" "ob_pending ref_obs = ref_pending"
  "ob_aborted ref_obs i s \<longleftrightarrow> i \<in> set (rd_aborted s)"
  "ob_active ref_obs i s \<longleftrightarrow> rd_owner s = Some i \<or> i \<in> set (rd_aborted s)"
  "ob_locks ref_obs i s = (if rd_owner s = Some i then set (rd_locks s) else {})"
  "ob_up ref_obs s"
  "ob_ok ref_obs s \<longleftrightarrow> schema_ok (rd_committed s)
     \<and> (case rd_owner s of None \<Rightarrow> True | Some i \<Rightarrow> schema_ok (ref_view i s))"
  "ob_uuid ref_obs i s = ref_uuid s" "ob_now ref_obs i s = rd_clock s"
  by (simp_all add: ref_obs_def)

lemma ref_obs_view [simp]: "ob_view ref_obs i s = ref_view i s"
  by (simp add: ob_view_def ref_view_def)

text \<open>The four ways a statement can end.\<close>

lemma ref_exec_cases:
  assumes "ref_exec i st s = Some (rep, s')"
  obtains (aborted) "i \<in> set (rd_aborted s)" "rep = DbFail ''25P02''" "s' = s"
  | (error) e where "i \<notin> set (rd_aborted s)" "sql_sem (ref_uuid s) (rd_clock s) st (ref_view i s) = Inl e"
      "rep = (case e of IntegrityErr x \<Rightarrow> Violation (Some x) | DataErr x \<Rightarrow> DbFail x)"
      "s' = s\<lparr>rd_aborted := i # rd_aborted s\<rparr>"
  | (read) r where "i \<notin> set (rd_aborted s)" "is_read st"
      "sql_sem (ref_uuid s) (rd_clock s) st (ref_view i s) = Inr (r, [])" "rep = Reply r" "s' = s"
  | (wrote) r chs where "i \<notin> set (rd_aborted s)" "\<not> is_read st" "rd_owner s \<in> {None, Some i}"
      "sql_sem (ref_uuid s) (rd_clock s) st (ref_view i s) = Inr (r, chs)" "rep = Reply r"
      "s' = s\<lparr>rd_owner := Some i, rd_pending := ref_pending i s @ chs,
              rd_locks := (if rd_owner s = Some i then rd_locks s else []) @ new_locks st,
              rd_next := (if is_insert st then Suc (rd_next s) else rd_next s)\<rparr>"
proof (cases "sql_sem (ref_uuid s) (rd_clock s) st (ref_view i s)")
  case (Inl e)
  with assms aborted error show ?thesis
    by (cases e) (auto simp: ref_exec_def split: if_splits)
next
  case (Inr p)
  then obtain r chs where p: "sql_sem (ref_uuid s) (rd_clock s) st (ref_view i s) = Inr (r, chs)"
    by (cases p) auto
  show ?thesis
  proof (cases "is_read st")
    case True
    with p have "chs = []" by (auto dest: is_read_no_changes)
    with p True assms aborted read show ?thesis by (auto simp: ref_exec_def split: if_splits)
  next
    case False
    with p assms aborted wrote show ?thesis by (auto simp: ref_exec_def split: if_splits)
  qed
qed

lemma ref_view_other: "rd_owner s \<noteq> Some i \<Longrightarrow> ref_view i s = rd_committed s"
  by (simp add: ref_view_def ref_pending_def)

lemma ref_exec_ok:
  assumes "ref_exec i st s = Some (rep, s')" and "ob_ok ref_obs s"
  shows "ob_ok ref_obs s'"
  using assms(1)
proof (cases rule: ref_exec_cases)
  case (wrote r chs)
  have v: "schema_ok (ref_view i s)"
    using assms(2) wrote(3) by (auto simp: ref_view_other)
  have "ref_view i s' = apply_changes chs (ref_view i s)"
    using wrote by (simp add: ref_view_def ref_pending_def)
  with sql_sem_schema_ok [OF v wrote(4)] wrote(6) assms(2) show ?thesis by simp
qed (use assms(2) in \<open>auto simp: ref_view_def ref_pending_def split: option.splits\<close>)

interpretation ref: sql_engine ref_engine ref_obs
proof (unfold_locales, goal_cases)
  case (1 i s st)
  then show ?case
    by (cases "rd_owner s"; cases "sql_sem (ref_uuid s) (rd_clock s) st (ref_view i s)")
      (auto simp: ref_exec_def split: sum.splits sql_error.splits prod.splits)
next
  case (2 i st s rep s')
  then have "ref_exec i st s = Some (rep, s')" by simp
  then show ?case
    by (cases rule: ref_exec_cases)
      (auto simp: others_same_def ref_pending_def ref_uuid_def)
next
  case (3 i st s rep s')
  then show ?case by simp
next
  case (4 i st s rep s')
  then show ?case using ref_exec_ok by simp
next
  case (5 i st s rep s')
  then have "ref_exec i st s = Some (rep, s')" "i \<notin> set (rd_aborted s)" by simp_all
  then show ?case
    by (cases rule: ref_exec_cases) (auto simp: ref_pending_def split: sql_error.splits)
next
  case (6 i st s rep s')
  then have "ref_exec i st s = Some (rep, s')" "i \<in> set (rd_aborted s)" by simp_all
  then show ?case by (cases rule: ref_exec_cases) auto
next
  case (7 i st s rep s' j chs)
  then have "ref_exec i st s = Some (rep, s')" by simp
  then show ?case using 7(2,3)
    by (cases rule: ref_exec_cases) (auto simp: ref_pending_def rows_touched_def)
next
  case (8 i key s r s')
  then have "ref_exec i (AdvisoryXactLock key) s = Some (Reply r, s')" by simp
  then show ?case by (cases rule: ref_exec_cases) (auto split: sql_error.splits)
next
  case (9 i st s rep s')
  then have "ref_exec i st s = Some (rep, s')" by simp
  then show ?case by (cases rule: ref_exec_cases) auto
next
  case (10 i s)
  then show ?case by (simp add: ref_pending_def)
next
  case (11 i s cr s')
  then show ?case
    by (cases "i \<in> set (rd_aborted s)"; cases "rd_owner s = Some i")
      (auto simp: ref_commit_def ref_end_def others_same_def ref_pending_def ref_uuid_def ref_view_def)
next
  case (12 i s s')
  then show ?case by (auto simp: ref_commit_def)
next
  case (13 i s cr s')
  then show ?case by (auto simp: ref_commit_def)
next
  case (14 i s cr s')
  then show ?case
    by (cases "i \<in> set (rd_aborted s)"; cases "rd_owner s = Some i") (auto simp: ref_commit_def ref_end_def ref_view_def ref_pending_def split: option.splits if_splits)
next
  case (15 i s)
  then show ?case by (auto simp: ref_end_def others_same_def ref_pending_def ref_uuid_def)
next
  case (16 s i)
  then show ?case by simp
next
  case (17 s i)
  then show ?case
    by (auto simp: ref_end_def ref_view_def ref_pending_def split: option.splits)
next
  case (18 s i)
  then show ?case by (cases "rd_owner s = Some i") (auto simp: ref_view_other)
qed

text \<open>An engine at rest with the given tables.\<close>

definition ref_state :: "db \<Rightarrow> nat \<Rightarrow> ref_db" where
  "ref_state d n =
     \<lparr>rd_committed = d, rd_owner = None, rd_pending = [], rd_aborted = [], rd_locks = [],
      rd_next = n, rd_clock = 0\<rparr>"

lemma ref_state_quiet: "schema_ok d \<Longrightarrow> quiet ref_obs (ref_state d n) d"
  by (simp add: quiet_def ref_state_def)

end
