(* ===== verification/Sequential.thy ===== *)
theory Sequential
  imports RefEngine
begin

section \<open>One request alone\<close>

text \<open>
  What a program does when no other request is at work is a function of the tables and of the
  cache. \<open>alone\<close> computes it: on the committed tables and those the session sees, with the id and
  the time the next insert gets. It is undefined (\<open>None\<close>) for a program that goes on using a
  transaction that has failed, or that inserts twice. \<open>run_alone\<close> shows once, for every engine and
  every cache with the documented laws, that running the program is what \<open>alone\<close> computes, so that
  the lemmas on the handlers are evaluations of \<open>alone\<close>.
\<close>

datatype tx = Tx db | Failed

type_synonym contents = "pystr \<Rightarrow> pystr option"

primrec alone ::
  "'a prog \<Rightarrow> (uuid \<times> int) option \<Rightarrow> db \<Rightarrow> tx \<Rightarrow> contents \<Rightarrow> ('a outcome \<times> db \<times> contents) option" where
  "alone (Return x) = (\<lambda>u d v m. Some (Returned x, d, m))"
| "alone (Raise e) = (\<lambda>u d v m. Some (Raised e, d, m))"
| "alone (Exec st k h) = (\<lambda>u d v m.
     case v of
       Failed \<Rightarrow> None
     | Tx w \<Rightarrow>
         if is_insert st \<and> u = None then None
         else (case sql_sem (fst (the u)) (snd (the u)) st w of
                 Inr (r, chs) \<Rightarrow>
                   alone (k r) (if is_insert st then None else u) d (Tx (apply_changes chs w)) m
               | Inl (IntegrityErr e) \<Rightarrow> alone (h (Some e)) None d Failed m
               | Inl (DataErr e) \<Rightarrow> Some (Raised (DatabaseError e), d, m)))"
| "alone (Commit k h) = (\<lambda>u d v m.
     case v of Failed \<Rightarrow> None | Tx w \<Rightarrow> alone k None w (Tx w) m)"
| "alone (Rollback k) = (\<lambda>u d v m. alone k None d (Tx d) m)"
| "alone (CacheGet key k) = (\<lambda>u d v m. alone (k (m key)) u d v m)"
| "alone (CacheSet key x k) = (\<lambda>u d v m. alone k u d v (m(key \<mapsto> x)))"
| "alone (CacheEvict key k) = (\<lambda>u d v m. alone k u d v (m(key := None)))"

lemma sql_sem_no_insert: "\<not> is_insert st \<Longrightarrow> sql_sem u n st w = sql_sem u' n' st w"
  by (cases st) (simp_all split: option.splits)

lemma alone_not_Waiting: "alone p u d v m \<noteq> Some (Waiting, d', m')"
proof (induction p arbitrary: u d v m)
  case (Exec st k h)
  have k: "alone (k r) u d v m \<noteq> Some (Waiting, d', m')" for r u d v m by (rule Exec.IH) simp
  have h: "alone (h e) u d v m \<noteq> Some (Waiting, d', m')" for e u d v m by (rule Exec.IH) simp
  show ?case by (simp add: k h split: tx.splits sum.splits sql_error.splits)
qed (auto split: tx.splits)

lemma alone_not_waiting: "alone p u d v m = Some (r, d', m') \<Longrightarrow> r \<noteq> Waiting"
  using alone_not_Waiting by blast

text \<open>A program that only changes the value another one returns.\<close>

fun map_outcome :: "('a \<Rightarrow> 'b) \<Rightarrow> 'a outcome \<Rightarrow> 'b outcome" where
  "map_outcome g (Returned x) = Returned (g x)"
| "map_outcome g (Raised e) = Raised e"
| "map_outcome g Waiting = Waiting"

lemma alone_map:
  "alone p u d v m = Some (r, d', m') \<Longrightarrow>
     alone (bind_prog p (\<lambda>x. Return (g x))) u d v m = Some (map_outcome g r, d', m')"
proof (induction p arbitrary: u d v m)
  case (Exec st k h)
  from Exec.prems show ?case
    by (auto split: tx.splits if_splits sum.splits sql_error.splits
        dest: Exec.IH(1) [OF rangeI] Exec.IH(2) [OF rangeI])
next
  case (Commit k h)
  then show ?case by (auto split: tx.splits)
qed auto

text \<open>The state of the engine that a state of \<open>alone\<close> speaks of.\<close>

definition in_tx :: "'s db_obs \<Rightarrow> nat \<Rightarrow> 's \<Rightarrow> (uuid \<times> int) option \<Rightarrow> db \<Rightarrow> tx \<Rightarrow> bool" where
  "in_tx B i s u d v \<longleftrightarrow>
     (case v of
        Failed \<Rightarrow> broken B i s d
      | Tx w \<Rightarrow> (\<exists>u'. working B i s d w u' \<and> (u = None \<or> u = Some u')))"

text \<open>A request that ran to its end, and left the engine at rest with the tables \<open>d'\<close>.\<close>

definition finished ::
  "'s db_obs \<Rightarrow> ('c \<Rightarrow> contents) \<Rightarrow> ('c \<Rightarrow> bool) \<Rightarrow> 'a outcome \<times> 's \<times> 'c \<Rightarrow> 'a outcome \<Rightarrow> db \<Rightarrow> contents \<Rightarrow> bool" where
  "finished B contents up res r d' m' \<longleftrightarrow>
     (case res of (r', s', c') \<Rightarrow> r' = r \<and> quiet B s' d' \<and> contents c' = m' \<and> up c')"

lemma finishedE:
  assumes "finished B contents up res r d' m'"
  obtains s' c' where "res = (r, s', c')" "quiet B s' d'" "contents c' = m'" "up c'"
  using assms by (cases res) (simp add: finished_def)

locale service_setting = sql_engine E B + message_cache C contents up
  for E :: "'s engine" and B :: "'s db_obs" and C :: "'c cache_api"
    and contents :: "'c \<Rightarrow> contents" and up :: "'c \<Rightarrow> bool"
begin

lemma in_tx_broken: "in_tx B i s u d v \<Longrightarrow> broken B i s d"
  by (auto simp: in_tx_def working_broken split: tx.splits)

lemma quiet_in_tx: "quiet B s d \<Longrightarrow> u = None \<or> u = Some (ob_uuid B i s, ob_now B i s) \<Longrightarrow> in_tx B i s u d (Tx d)"
  unfolding in_tx_def tx.case by (intro exI [of _ "(ob_uuid B i s, ob_now B i s)"] conjI quiet_working)

text \<open>One statement does to the engine what \<open>alone\<close> computes.\<close>

lemma statement_alone:
  assumes "in_tx B i s u d (Tx w)" and "\<not> (is_insert st \<and> u = None)"
  shows "case sql_sem (fst (the u)) (snd (the u)) st w of
      Inr (r, chs) \<Rightarrow> \<exists>s'. e_exec E i st s = Some (Reply r, s')
        \<and> in_tx B i s' (if is_insert st then None else u) d (Tx (apply_changes chs w))
    | Inl (IntegrityErr e) \<Rightarrow> \<exists>s'. e_exec E i st s = Some (Violation (Some e), s') \<and> in_tx B i s' None d Failed
    | Inl (DataErr e) \<Rightarrow> \<exists>s'. e_exec E i st s = Some (DbFail e, s') \<and> broken B i s' d"
proof -
  from assms(1) obtain u' where w: "working B i s d w u'" and u: "u = None \<or> u = Some u'"
    by (auto simp: in_tx_def)
  have sem: "sql_sem (fst (the u)) (snd (the u)) st w = sql_sem (fst u') (snd u') st w"
    using u assms(2) sql_sem_no_insert by (cases "is_insert st") auto
  show ?thesis
  proof (cases "sql_sem (fst u') (snd u') st w")
    case (Inl err)
    then show ?thesis
      by (cases err)
        (use exec_violation [OF w, of st] exec_data_error [OF w, of st] sem in \<open>auto simp: in_tx_def\<close>)
  next
    case (Inr rc)
    obtain r chs where rc: "rc = (r, chs)" by (cases rc)
    with exec_working [OF w, of st r chs] Inr obtain s' v where
      s': "e_exec E i st s = Some (Reply r, s')" "working B i s' d (apply_changes chs w) v"
      "\<not> is_insert st \<Longrightarrow> v = u'" by auto
    have "in_tx B i s' (if is_insert st then None else u) d (Tx (apply_changes chs w))"
      unfolding in_tx_def tx.case using s' u by (intro exI [of _ v] conjI) auto
    with s'(1) sem Inr rc show ?thesis by auto
  qed
qed

lemma run_alone:
  assumes "alone p u d v m = Some (r, d', m')" and "in_tx B i s u d v" and "contents c = m" and "up c"
  shows "\<exists>s' c'. run E C i p (s, c) = (r, s', c') \<and> broken B i s' d' \<and> contents c' = m' \<and> up c'"
  using assms
proof (induction p arbitrary: u d v m s c)
  case (Return x)
  then show ?case using in_tx_broken by fastforce
next
  case (Raise e)
  then show ?case using in_tx_broken by fastforce
next
  case (Exec st k h)
  note k = Exec.IH(1) [OF rangeI] and h = Exec.IH(2) [OF rangeI]
  from Exec.prems(1) obtain w where v: "v = Tx w" by (cases v) auto
  from Exec.prems(1) v have ins: "\<not> (is_insert st \<and> u = None)" by (auto split: if_splits)
  from statement_alone [OF Exec.prems(2) [unfolded v] ins] Exec.prems v ins show ?case
    by (auto split: sum.splits sql_error.splits dest: k h)
next
  case (Commit k h)
  from Commit.prems(1) obtain w where v: "v = Tx w" by (cases v) auto
  with Commit.prems(2) obtain u' where "working B i s d w u'" by (auto simp: in_tx_def)
  then obtain s' where s': "e_commit E i s = (CommitOk, s')" "quiet B s' w" by (rule commit_working)
  then have "in_tx B i s' None w (Tx w)" by (simp add: quiet_in_tx)
  from Commit.IH(1) [OF _ this Commit.prems(3,4)] Commit.prems(1) v s'(1) show ?case by simp
next
  case (Rollback k)
  have "quiet B (e_rollback E i s) d" using rollback_broken in_tx_broken [OF Rollback.prems(2)] by blast
  then have "in_tx B i (e_rollback E i s) None d (Tx d)" by (simp add: quiet_in_tx)
  from Rollback.IH [OF _ this Rollback.prems(3,4)] Rollback.prems(1) show ?case by simp
next
  case (CacheGet key k)
  from get_when_up [OF CacheGet.prems(4), of key] obtain c' where
    c': "c_get C key c = (Inr (contents c key), c')" "contents c' = contents c" "up c'" by blast
  from CacheGet.prems(1,3) have "alone (k (contents c key)) u d v m = Some (r, d', m')" by simp
  from CacheGet.IH [OF _ this CacheGet.prems(2), of c'] c' CacheGet.prems(3) show ?case by simp
next
  case (CacheSet key x k)
  from set_when_up [OF CacheSet.prems(4), of key x] obtain c' where
    c': "c_set C key x c = (Inr (), c')" "contents c' = (contents c)(key \<mapsto> x)" "up c'" by blast
  from CacheSet.prems(1) have "alone k u d v (m(key \<mapsto> x)) = Some (r, d', m')" by simp
  from CacheSet.IH [OF this CacheSet.prems(2), of c'] c' CacheSet.prems(3) show ?case by simp
next
  case (CacheEvict key k)
  from evict_when_up [OF CacheEvict.prems(4), of key] obtain c' where
    c': "c_evict C key c = (Inr (), c')" "contents c' = (contents c)(key := None)" "up c'" by blast
  from CacheEvict.prems(1) have "alone k u d v (m(key := None)) = Some (r, d', m')" by simp
  from CacheEvict.IH [OF this CacheEvict.prems(2), of c'] c' CacheEvict.prems(3) show ?case by simp
qed

text \<open>The same for a request with a session of its own, from an engine at rest.\<close>

lemma with_session_alone:
  assumes "quiet B s d" and "up c"
    and "alone p (Some (ob_uuid B i s, ob_now B i s)) d (Tx d) (contents c) = Some (r, d', m')"
  shows "finished B contents up (with_session E C i p (s, c)) r d' m'"
proof -
  have "in_tx B i s (Some (ob_uuid B i s, ob_now B i s)) d (Tx d)"
    using assms(1) by (simp add: quiet_in_tx)
  from run_alone [OF assms(3) this refl assms(2)] show ?thesis
    by (auto simp: with_session_def finished_def rollback_broken)
qed

lemma quiet_ok: "quiet B s d \<Longrightarrow> schema_ok d"
  by (rule quiet_schema)

lemma refines:
  assumes "quiet B s d" and "up c"
    and "schema_ok d \<Longrightarrow> \<exists>d'. alone p (Some (ob_uuid B i s, ob_now B i s)) d (Tx d) (contents c)
           = Some (r, d', m') \<and> Q d'"
  shows "\<exists>d'. finished B contents up (with_session E C i p (s, c)) r d' m' \<and> Q d'"
  using assms(3) [OF quiet_schema [OF assms(1)]] with_session_alone [OF assms(1,2)] by blast

lemma reads:
  assumes "quiet B s d" and "up c"
    and "schema_ok d \<Longrightarrow> alone p (Some (ob_uuid B i s, ob_now B i s)) d (Tx d) (contents c)
           = Some (r, d, m')"
  shows "finished B contents up (with_session E C i p (s, c)) r d m'"
  using assms(3) [OF quiet_schema [OF assms(1)]] with_session_alone [OF assms(1,2)] by blast

end

interpretation ref_service: service_setting ref_engine ref_obs FakeCache fake_contents "\<lambda>_. True"
  by unfold_locales

end
