(* ===== verification/Authors.thy ===== *)
theory Authors
  imports Sequential
begin

section \<open>Authors: \<open>app/services/authors.py\<close>\<close>

text \<open>
  The response models of authors and messages (\<open>app/schemas.py\<close>), the handlers of the author
  endpoints as programs over the database, the specification of each operation on the abstract
  store, and the lemmas that a handler alone does what its specification says.
\<close>

subsection \<open>Response models\<close>

record AuthorOut =
  ao_id :: uuid
  ao_name :: pystr
  ao_email :: pystr
  ao_created_at :: int

record MessageSummary =
  ms_id :: uuid
  ms_title :: pystr
  ms_content :: pystr
  ms_created_at :: int
  ms_version :: int

record MessageOut = MessageSummary +
  mo_author :: AuthorOut

record AuthorDetailOut = AuthorOut +
  ad_messages :: "MessageSummary list option"

record 'a Page =
  pg_items :: "'a list"
  pg_total_count :: nat

text \<open>\<open>model_validate\<close> reads the attributes of a row; a message without its author is rejected.\<close>

definition AuthorOut_of :: "author_row \<Rightarrow> AuthorOut" where
  "AuthorOut_of a =
     \<lparr>ao_id = a_id a, ao_name = a_name a, ao_email = a_email a, ao_created_at = a_created_at a\<rparr>"

definition MessageSummary_of :: "message_row \<Rightarrow> MessageSummary" where
  "MessageSummary_of m =
     \<lparr>ms_id = m_id m, ms_title = m_title m, ms_content = m_content m, ms_created_at = m_created_at m,
      ms_version = m_version m\<rparr>"

definition MessageOut_of :: "message_row \<Rightarrow> author_row option \<Rightarrow> MessageOut option" where
  "MessageOut_of m author =
     map_option (\<lambda>a.
       \<lparr>ms_id = m_id m, ms_title = m_title m, ms_content = m_content m, ms_created_at = m_created_at m,
        ms_version = m_version m, mo_author = AuthorOut_of a\<rparr>) author"

lemma out_ids [simp]:
  "ao_id (AuthorOut_of a) = a_id a" "ao_id \<circ> AuthorOut_of = a_id"
  "ms_id (MessageSummary_of m) = m_id m" "ms_id \<circ> MessageSummary_of = m_id"
  by (auto simp: AuthorOut_of_def MessageSummary_of_def)

subsection \<open>Handlers\<close>

definition UNIQUE_VIOLATION :: string where "UNIQUE_VIOLATION = ''23505''"
definition FK_VIOLATION :: string where "FK_VIOLATION = ''23503''"

definition author_not_found :: "uuid \<Rightarrow> api_error" where
  "author_not_found k = NotFoundError (lit ''Author with ID '' @ quoted (uuid_str k) @ lit '' was not found.'')"

definition duplicate_email :: "pystr \<Rightarrow> api_error" where
  "duplicate_email email =
     ConflictError (lit ''Author with email '' @ quoted email @ lit '' already exists.'')"

definition author_has_messages :: "uuid \<Rightarrow> api_error" where
  "author_has_messages k =
     ConflictError (lit ''Author with ID '' @ quoted (uuid_str k)
       @ lit '' still has messages and cannot be deleted.'')"

definition list_authors :: "int \<Rightarrow> int \<Rightarrow> AuthorOut Page prog" where
  "list_authors limit offset =
     Exec (SelectAuthors [] [(ColCreatedAt, Asc), (ColId, Asc)] (Some (limit, offset)) False)
       (\<lambda>rows. Exec CountAuthors
          (\<lambda>total. Return \<lparr>pg_items = map (\<lambda>(a, _). AuthorOut_of a) (author_rows rows),
                           pg_total_count = count_row total\<rparr>)
          reraise)
       reraise"

text \<open>
  Without \<open>include=messages\<close> the messages are not loaded, and not read either: \<open>messages\<close> is
  \<open>None\<close> in the response.
\<close>

definition get_author :: "uuid \<Rightarrow> bool \<Rightarrow> AuthorDetailOut prog" where
  "get_author author_id include_messages =
     Exec (SelectAuthors [AuthorIdIs author_id] [] None include_messages)
       (\<lambda>rows. scalar_one_or_none (author_rows rows)
          (\<lambda>author. case author of
               None \<Rightarrow> Raise (ApiExn (author_not_found author_id))
             | Some (a, messages) \<Rightarrow>
                 Return (AuthorOut.extend (AuthorOut_of a)
                   (AuthorDetailOut.fields
                     (if include_messages then map_option (map MessageSummary_of) messages else None)))))
       reraise"

definition create_author :: "AuthorCreate \<Rightarrow> AuthorOut prog" where
  "create_author payload =
     Exec (InsertAuthor (ac_name payload) (ac_email payload))
       (\<lambda>rows. scalar_one (author_rows rows)
          (\<lambda>(author, _). Commit (Return (AuthorOut_of author)) reraise))
       (\<lambda>sqlstate. Rollback
          (if sqlstate = Some UNIQUE_VIOLATION then Raise (ApiExn (duplicate_email (ac_email payload)))
           else reraise sqlstate))"

text \<open>The columns an update changes, in the order of the source.\<close>

definition author_changes :: "AuthorUpdate \<Rightarrow> author_set list" where
  "author_changes payload =
     (case au_name payload of None \<Rightarrow> [] | Some n \<Rightarrow> [SetName n])
     @ (case au_email payload of None \<Rightarrow> [] | Some e \<Rightarrow> [SetEmail e])"

definition update_author :: "uuid \<Rightarrow> AuthorUpdate \<Rightarrow> AuthorOut prog" where
  "update_author author_id payload =
     (if author_changes payload = [] then
        Exec (SelectAuthors [AuthorIdIs author_id] [] None False)
          (\<lambda>rows. scalar_one_or_none (author_rows rows)
             (\<lambda>author. case author of
                  None \<Rightarrow> Raise (ApiExn (author_not_found author_id))
                | Some (a, _) \<Rightarrow> Return (AuthorOut_of a)))
          reraise
      else
        Exec (UpdateAuthors [AuthorIdIs author_id] (author_changes payload))
          (\<lambda>rows. scalar_one_or_none (author_rows rows)
             (\<lambda>author. case author of
                  None \<Rightarrow> Raise (ApiExn (author_not_found author_id))
                | Some (a, _) \<Rightarrow> Commit (Return (AuthorOut_of a)) reraise))
          (\<lambda>sqlstate. Rollback
             (if sqlstate = Some UNIQUE_VIOLATION then
                Raise (ApiExn (duplicate_email (case au_email payload of None \<Rightarrow> [] | Some e \<Rightarrow> e)))
              else reraise sqlstate)))"

text \<open>Here the commit is inside the \<open>try\<close> as well.\<close>

definition delete_author_failed :: "uuid \<Rightarrow> string option \<Rightarrow> unit prog" where
  "delete_author_failed author_id sqlstate =
     Rollback
       (if sqlstate = Some FK_VIOLATION then Raise (ApiExn (author_has_messages author_id))
        else reraise sqlstate)"

definition delete_author :: "uuid \<Rightarrow> unit prog" where
  "delete_author author_id =
     Exec (DeleteAuthors [AuthorIdIs author_id])
       (\<lambda>rows. scalar_one_or_none (id_rows rows)
          (\<lambda>deleted. Commit
             (if deleted = None then Raise (ApiExn (author_not_found author_id)) else Return ())
             (delete_author_failed author_id)))
       (delete_author_failed author_id)"

lemmas author_handler_defs [svc_defs] = list_authors_def get_author_def create_author_def update_author_def
  delete_author_failed_def delete_author_def

subsection \<open>What the operations promise\<close>

text \<open>
  The specification of an operation is a function of the abstract store: the answer, an error of
  the service or a value, and the store after it.
\<close>

fun answer :: "api_error + 'a \<Rightarrow> 'a outcome" where
  "answer (Inl e) = Raised (ApiExn e)"
| "answer (Inr x) = Returned x"

definition email_of_other :: "store \<Rightarrow> uuid \<Rightarrow> pystr \<Rightarrow> bool" where
  "email_of_other st k email \<longleftrightarrow> (\<exists>k' a. k' \<noteq> k \<and> st_authors st k' = Some a \<and> a_email a = email)"

definition has_messages :: "store \<Rightarrow> uuid \<Rightarrow> bool" where
  "has_messages st k \<longleftrightarrow> (\<exists>k' m. st_messages st k' = Some m \<and> m_author_id m = k)"

definition spec_create_author ::
  "uuid \<Rightarrow> int \<Rightarrow> AuthorCreate \<Rightarrow> store \<Rightarrow> (api_error + AuthorOut) \<times> store" where
  "spec_create_author u now p st =
     (if email_of_other st u (ac_email p) then (Inl (duplicate_email (ac_email p)), st)
      else let a = \<lparr>a_id = u, a_name = ac_name p, a_email = ac_email p, a_created_at = now\<rparr>
           in (Inr (AuthorOut_of a), st\<lparr>st_authors := (st_authors st)(u \<mapsto> a)\<rparr>))"

definition changed_author :: "AuthorUpdate \<Rightarrow> author_row \<Rightarrow> author_row" where
  "changed_author p a =
     a\<lparr>a_name := (case au_name p of None \<Rightarrow> a_name a | Some n \<Rightarrow> n),
       a_email := (case au_email p of None \<Rightarrow> a_email a | Some e \<Rightarrow> e)\<rparr>"

definition spec_update_author ::
  "uuid \<Rightarrow> AuthorUpdate \<Rightarrow> store \<Rightarrow> (api_error + AuthorOut) \<times> store" where
  "spec_update_author k p st =
     (case st_authors st k of
        None \<Rightarrow> (Inl (author_not_found k), st)
      | Some a \<Rightarrow>
          (case au_email p of
             Some e \<Rightarrow>
               if email_of_other st k e then (Inl (duplicate_email e), st)
               else (Inr (AuthorOut_of (changed_author p a)),
                     st\<lparr>st_authors := (st_authors st)(k \<mapsto> changed_author p a)\<rparr>)
           | None \<Rightarrow> (Inr (AuthorOut_of (changed_author p a)),
                     st\<lparr>st_authors := (st_authors st)(k \<mapsto> changed_author p a)\<rparr>)))"

definition spec_delete_author :: "uuid \<Rightarrow> store \<Rightarrow> (api_error + unit) \<times> store" where
  "spec_delete_author k st =
     (if has_messages st k then (Inl (author_has_messages k), st)
      else if st_authors st k = None then (Inl (author_not_found k), st)
      else (Inr (), st\<lparr>st_authors := (st_authors st)(k := None)\<rparr>))"

subsection \<open>Tables and the store\<close>

lemma set_put_row_distinct:
  "distinct (map key xs) \<Longrightarrow> set (put_row key r xs) = insert r {x \<in> set xs. key x \<noteq> key r}"
  by (induction xs) (auto simp: image_iff)

lemma distinct_put_row_other:
  "distinct (map f xs) \<Longrightarrow> distinct (map key xs) \<Longrightarrow>
     distinct (map f (put_row key r xs)) \<longleftrightarrow> f r \<notin> f ` {x \<in> set xs. key x \<noteq> key r}"
proof (induction xs)
  case (Cons x xs)
  then have d: "distinct (map f xs)" "distinct (map key xs)" "f x \<notin> f ` set xs" "key x \<notin> key ` set xs"
    by simp_all
  show ?case
  proof (cases "key x = key r")
    case True
    with d(4) have "\<forall>y \<in> set xs. key y \<noteq> key r" by (metis image_eqI)
    with True have "{y \<in> set (x # xs). key y \<noteq> key r} = set xs" by auto
    with True d show ?thesis by simp
  next
    case False
    then have "{y \<in> set (x # xs). key y \<noteq> key r} = insert x {y \<in> set xs. key y \<noteq> key r}" by auto
    with False d Cons.IH show ?thesis by (auto simp: set_put_row_distinct)
  qed
qed simp

lemma email_of_other_tables:
  "schema_ok d \<Longrightarrow>
     email_of_other (abs_store d) k email \<longleftrightarrow> email \<in> a_email ` {a \<in> set (db_authors d). a_id a \<noteq> k}"
  by (auto simp: email_of_other_def author_map_Some_iff)

lemma email_of_other_fresh:
  "schema_ok d \<Longrightarrow> author_map d u = None \<Longrightarrow>
     email_of_other (abs_store d) u email \<longleftrightarrow> email \<in> a_email ` set (db_authors d)"
  by (auto simp: email_of_other_tables author_map_None_iff)

lemma has_messages_tables:
  "schema_ok d \<Longrightarrow> has_messages (abs_store d) k \<longleftrightarrow> (\<exists>m \<in> set (db_messages d). m_author_id m = k)"
  by (auto simp: has_messages_def message_map_Some_iff)

lemma abs_store_simps [simp]:
  "abs_store (apply_change (PutAuthor a) d) = (abs_store d)\<lparr>st_authors := (author_map d)(a_id a \<mapsto> a)\<rparr>"
  "abs_store (apply_change (DropAuthor k) d) = (abs_store d)\<lparr>st_authors := (author_map d)(k := None)\<rparr>"
  "abs_store (apply_change (PutMessage m) d) = (abs_store d)\<lparr>st_messages := (message_map d)(m_id m \<mapsto> m)\<rparr>"
  "abs_store (apply_change (DropMessage k) d) = (abs_store d)\<lparr>st_messages := (message_map d)(k := None)\<rparr>"
  by (simp_all add: abs_store_def)

text \<open>A string the request models accept and the database can encode fits its column.\<close>

lemma field_ok_fits:
  assumes "list_all sql_char t"
  shows "field_ok ''name'' t \<Longrightarrow> text_fits 50 t" "field_ok ''email'' t \<Longrightarrow> text_fits 100 t"
    "field_ok ''title'' t \<Longrightarrow> text_fits 100 t" "field_ok ''content'' t \<Longrightarrow> text_fits 1000 t"
  using assms
  by (simp_all add: field_ok_def clean_text_def text_fits_def NAME_MAX_def EMAIL_MAX_def TITLE_MAX_def
      CONTENT_MAX_def)

text \<open>The strings of a payload the database can encode: no NUL and no surrogates.\<close>

definition author_encodable :: "AuthorCreate \<Rightarrow> bool" where
  "author_encodable p \<longleftrightarrow> list_all sql_char (ac_name p) \<and> list_all sql_char (ac_email p)"

definition author_update_encodable :: "AuthorUpdate \<Rightarrow> bool" where
  "author_update_encodable p \<longleftrightarrow>
     (case au_name p of None \<Rightarrow> True | Some n \<Rightarrow> list_all sql_char n)
     \<and> (case au_email p of None \<Rightarrow> True | Some e \<Rightarrow> list_all sql_char e)"

subsection \<open>The handlers alone\<close>

lemma alone_create_author:
  assumes "schema_ok d" and "author_map d u = None" and "AuthorCreate_ok p" and "author_encodable p"
  shows "\<exists>d'. alone (create_author p) (Some (u, now)) d (Tx d) m
       = Some (answer (fst (spec_create_author u now p (abs_store d))), d', m)
     \<and> abs_store d' = snd (spec_create_author u now p (abs_store d))"
proof -
  let ?a = "\<lparr>a_id = u, a_name = ac_name p, a_email = ac_email p, a_created_at = now\<rparr>"
  have fits: "author_row_fits ?a"
    using assms(3,4) by (simp add: author_row_fits_def AuthorCreate_ok_def author_encodable_def field_ok_fits)
  have "u \<notin> a_id ` set (db_authors d)" using assms(2) by (simp add: author_map_None_iff)
  with fits show ?thesis
    using assms(1,2)
    by (cases "ac_email p \<in> a_email ` set (db_authors d)")
      (simp_all add: create_author_def spec_create_author_def insert_author_sem_def Let_def
        email_of_other_fresh UNIQUE_VIOLATION_def)
qed

lemma update_author_row_changes: "update_author_row (author_changes p) a = changed_author p a"
  by (simp add: update_author_row_def author_changes_def changed_author_def split: option.split)

lemma author_changes_Nil:
  "author_changes p = [] \<longleftrightarrow> au_name p = None \<and> au_email p = None"
  by (simp add: author_changes_def split: option.split)

lemma changed_author_fits:
  assumes "author_row_fits a" and "AuthorUpdate_ok p" and "author_update_encodable p"
  shows "author_row_fits (changed_author p a)"
  using assms
  by (simp add: author_row_fits_def AuthorUpdate_ok_def author_update_encodable_def changed_author_def
      field_ok_fits split: option.splits)

lemma changed_author_sel [simp]:
  "a_id (changed_author p a) = a_id a" "a_created_at (changed_author p a) = a_created_at a"
  "a_email (changed_author p a) = (case au_email p of None \<Rightarrow> a_email a | Some e \<Rightarrow> e)"
  "a_name (changed_author p a) = (case au_name p of None \<Rightarrow> a_name a | Some n \<Rightarrow> n)"
  by (simp_all add: changed_author_def)

lemma author_map_fits: "schema_ok d \<Longrightarrow> author_map d k = Some a \<Longrightarrow> author_row_fits a"
  by (auto simp: author_map_Some_iff schema_ok_def list_all_iff)

text \<open>What the UPDATE of \<open>update_author\<close> does.\<close>

lemma update_one_author:
  assumes "schema_ok d" and "AuthorUpdate_ok p" and "author_update_encodable p"
  shows "update_authors_sem [AuthorIdIs k] (author_changes p) d =
    (case author_map d k of
       None \<Rightarrow> Inr (AuthorRows [], [])
     | Some a \<Rightarrow>
         if a_email (changed_author p a) \<in> a_email ` {x \<in> set (db_authors d). a_id x \<noteq> k} then
           Inl (IntegrityErr ''23505'')
         else Inr (AuthorRows [(changed_author p a, None)], [PutAuthor (changed_author p a)]))"
proof (cases "author_map d k")
  case None
  with assms(1) show ?thesis
    by (simp add: update_authors_sem_def authors_where_id schema_okD)
next
  case (Some a)
  then have "a_id a = k" by (rule author_map_id)
  with Some assms show ?thesis
    by (simp add: update_authors_sem_def authors_where_id update_author_row_changes changed_author_fits
        author_map_fits apply_change.simps distinct_put_row_other schema_okD Let_def)
qed

lemma alone_update_author:
  assumes "schema_ok d" and "AuthorUpdate_ok p" and "author_update_encodable p"
  shows "\<exists>d'. alone (update_author k p) u d (Tx d) m
       = Some (answer (fst (spec_update_author k p (abs_store d))), d', m)
     \<and> abs_store d' = snd (spec_update_author k p (abs_store d))"
proof (cases "author_map d k")
  case None
  then show ?thesis
    using assms
    by (cases "author_changes p = []")
      (simp_all add: update_author_def spec_update_author_def authors_where_id update_one_author)
next
  case (Some a)
  then have k: "a_id a = k" by (rule author_map_id)
  show ?thesis
  proof (cases "author_changes p = []")
    case True
    then have same: "changed_author p a = a" "au_email p = None"
      by (simp_all add: author_changes_Nil changed_author_def)
    have "(author_map d)(k \<mapsto> a) = author_map d" using Some by auto
    with True Some same assms(1) show ?thesis
      by (simp add: update_author_def spec_update_author_def authors_where_id with_messages_def abs_store_def)
  next
    case False
    have own: "a_email a \<notin> a_email ` {x \<in> set (db_authors d). a_id x \<noteq> k}"
    proof
      assume "a_email a \<in> a_email ` {x \<in> set (db_authors d). a_id x \<noteq> k}"
      then obtain x where x: "x \<in> set (db_authors d)" "a_id x \<noteq> k" "a_email a = a_email x" by auto
      from Some assms(1) have "a \<in> set (db_authors d)" by (simp add: author_map_Some_iff)
      with x distinct_map_same [OF schema_okD(2) [OF assms(1)], of a x] k show False by simp
    qed
    show ?thesis
    proof (cases "au_email p")
      case None
      with False Some own k assms show ?thesis
        by (simp add: update_author_def spec_update_author_def update_one_author)
    next
      case (Some e)
      with False \<open>author_map d k = Some a\<close> k assms show ?thesis
        by (cases "e \<in> a_email ` {x \<in> set (db_authors d). a_id x \<noteq> k}")
          (simp_all add: update_author_def spec_update_author_def update_one_author
            email_of_other_tables UNIQUE_VIOLATION_def)
    qed
  qed
qed

lemma alone_delete_author:
  assumes "schema_ok d"
  shows "\<exists>d'. alone (delete_author k) u d (Tx d) m
       = Some (answer (fst (spec_delete_author k (abs_store d))), d', m)
     \<and> abs_store d' = snd (spec_delete_author k (abs_store d))"
proof (cases "author_map d k")
  case None
  have "\<not> (\<exists>m \<in> set (db_messages d). m_author_id m = k)"
    using None schema_okD(4) [OF assms] by (auto simp: author_map_None_iff)
  with None assms show ?thesis
    by (auto simp: delete_author_def spec_delete_author_def delete_authors_sem_def authors_where_id
        has_messages_tables Let_def)
next
  case (Some a)
  then have "a_id a = k" by (rule author_map_id)
  with Some assms show ?thesis
    by (cases "\<exists>m \<in> set (db_messages d). m_author_id m = k")
      (auto simp: delete_author_def spec_delete_author_def delete_authors_sem_def authors_where_id
        has_messages_tables delete_author_failed_def FK_VIOLATION_def Let_def)
qed

lemma alone_get_author:
  assumes "schema_ok d"
  shows "alone (get_author k include_messages) u d (Tx d) m =
    Some (case author_map d k of
            None \<Rightarrow> Raised (ApiExn (author_not_found k))
          | Some a \<Rightarrow> Returned (AuthorOut.extend (AuthorOut_of a) (AuthorDetailOut.fields
              (if include_messages then
                 Some (map MessageSummary_of (order_messages newest_first
                   [m \<leftarrow> db_messages d. m_author_id m = k])) else None))), d, m)"
  using assms author_map_id [of d k]
  by (cases "author_map d k") (simp_all add: get_author_def authors_where_id with_messages_def)

lemma alone_list_authors:
  assumes "0 \<le> limit" and "0 \<le> offset"
  shows "alone (list_authors limit offset) u d (Tx d) m =
    Some (Returned \<lparr>pg_items = map AuthorOut_of (page limit offset (order_authors oldest_first (db_authors d))),
                    pg_total_count = length (db_authors d)\<rparr>, d, m)"
  using assms
  by (simp add: list_authors_def paged_def authors_where_def oldest_first_def with_messages_def comp_def)

subsection \<open>Sample tables\<close>

definition sample_author :: author_row where
  "sample_author = \<lparr>a_id = 1, a_name = lit ''Ann'', a_email = lit ''ann@x.io'', a_created_at = 5\<rparr>"

definition sample_reader :: author_row where
  "sample_reader = \<lparr>a_id = 2, a_name = lit ''Bob'', a_email = lit ''bob@x.io'', a_created_at = 6\<rparr>"

definition sample_message :: message_row where
  "sample_message =
     \<lparr>m_id = 7, m_title = lit ''Hi'', m_content = lit ''Hello'', m_author_id = 1, m_created_at = 9, m_version = 3\<rparr>"

definition sample_db :: db where
  "sample_db = \<lparr>db_authors = [sample_author, sample_reader], db_messages = [sample_message]\<rparr>"

definition empty_cache :: fake_cache where
  "empty_cache = \<lparr>fc_data = [], fc_calls = []\<rparr>"

definition sample_state :: ref_db where
  "sample_state = ref_state sample_db 40"

lemma sample_schema: "schema_ok sample_db"
  by (simp add: schema_ok_def sample_db_def sample_author_def sample_reader_def sample_message_def
      author_row_fits_def message_row_fits_def text_fits_def int4_fits_def lit_def sql_char_def)

lemma sample_quiet: "quiet ref_obs sample_state sample_db"
  unfolding sample_state_def using sample_schema by (rule ref_state_quiet)

lemma sample_maps:
  "author_map sample_db 1 = Some sample_author" "author_map sample_db 2 = Some sample_reader"
  "author_map sample_db 40 = None" "message_map sample_db 7 = Some sample_message"
  "message_map sample_db 40 = None"
  by (simp_all add: author_map_def message_map_def sample_db_def sample_author_def sample_reader_def
      sample_message_def)

lemma sample_engine: "ref_uuid sample_state = 40" "rd_clock sample_state = 0"
  by (simp_all add: sample_state_def ref_state_def ref_uuid_def)

lemmas sample_setting = ref_service.service_setting_axioms sample_quiet sample_schema sample_engine sample_maps

subsection \<open>Properties\<close>

text \<open>
  C15. Creating an author refines its specification on any engine and cache with the documented
  laws: the author is stored with a fresh id and is the answer, unless another author has the
  email, which is a 409 and changes nothing. What the request model accepts fits the columns.
\<close>

theorem create_author_refines:
  assumes "service_setting E B C contents up" and "quiet B s d" and "up c"
    and "author_map d (ob_uuid B i s) = None" and "AuthorCreate_ok p" and "author_encodable p"
  shows "\<exists>d'. finished B contents up (with_session E C i (create_author p) (s, c))
       (answer (fst (spec_create_author (ob_uuid B i s) (ob_now B i s) p (abs_store d)))) d' (contents c)
     \<and> abs_store d' = snd (spec_create_author (ob_uuid B i s) (ob_now B i s) p (abs_store d))"
  by (rule service_setting.refines [OF assms(1-3)], rule alone_create_author) (use assms in simp_all)

definition sample_author_payload :: AuthorCreate where
  "sample_author_payload = \<lparr>ac_name = lit ''Cy'', ac_email = lit ''cy@x.io''\<rparr>"

lemma sample_texts:
  "clean_text 50 (lit ''Cy'')" "clean_text 50 (lit ''Al'')" "list_all sql_char (lit ''Al'')"
  by (simp_all add: clean_text_def py_strip_def lit_def py_isspace_def sql_char_def)

lemma sample_author_payload_ok:
  "AuthorCreate_ok sample_author_payload" "author_encodable sample_author_payload"
proof -
  have "clean_email (lit ''cy@x.io'') (lit ''email'') EMAIL_MAX = Inr (lit ''cy@x.io'')"
    by (simp add: clean_email_def clean_def py_strip_def lit_def py_isspace_def EMAIL_MAX_def EMAIL_RE_def
        email_char_def)
  then have "email_shape (lit ''cy@x.io'')" "clean_text 100 (lit ''cy@x.io'')"
    by (simp_all add: clean_email_Inr_iff EMAIL_MAX_def)
  then show "AuthorCreate_ok sample_author_payload"
    using sample_texts by (simp add: AuthorCreate_ok_def field_ok_def sample_author_payload_def EMAIL_MAX_def NAME_MAX_def)
  show "author_encodable sample_author_payload"
    by (simp add: author_encodable_def sample_author_payload_def lit_def sql_char_def)
qed

theorem create_author_refines_witness:
  "\<exists>d'. finished ref_obs fake_contents (\<lambda>_. True)
       (with_session ref_engine FakeCache 0 (create_author sample_author_payload) (sample_state, empty_cache))
       (answer (fst (spec_create_author 40 0 sample_author_payload (abs_store sample_db)))) d'
       (fake_contents empty_cache)
     \<and> abs_store d' = snd (spec_create_author 40 0 sample_author_payload (abs_store sample_db))"
  using create_author_refines [OF ref_service.service_setting_axioms sample_quiet, where c = empty_cache
      and i = 0 and p = sample_author_payload] sample_author_payload_ok
  by (simp add: sample_engine sample_maps)

text \<open>
  C14. Updating an author refines its specification: absent fields are left alone, an unknown id is
  a 404, an email of another author is a 409 that changes nothing, and keeping one's own email is
  not a conflict.
\<close>

theorem update_author_refines:
  assumes "service_setting E B C contents up" and "quiet B s d" and "up c"
    and "AuthorUpdate_ok p" and "author_update_encodable p"
  shows "\<exists>d'. finished B contents up (with_session E C i (update_author k p) (s, c))
       (answer (fst (spec_update_author k p (abs_store d)))) d' (contents c)
     \<and> abs_store d' = snd (spec_update_author k p (abs_store d))"
  by (rule service_setting.refines [OF assms(1-3)], rule alone_update_author) (use assms in simp_all)

theorem update_author_refines_witness:
  "\<exists>d'. finished ref_obs fake_contents (\<lambda>_. True)
       (with_session ref_engine FakeCache 0 (update_author 1 \<lparr>au_name = Some (lit ''Al''), au_email = None\<rparr>)
          (sample_state, empty_cache))
       (answer (fst (spec_update_author 1 \<lparr>au_name = Some (lit ''Al''), au_email = None\<rparr> (abs_store sample_db)))) d'
       (fake_contents empty_cache)
     \<and> author_map d' 1 = Some (sample_author\<lparr>a_name := lit ''Al''\<rparr>)"
proof -
  let ?p = "\<lparr>au_name = Some (lit ''Al''), au_email = None\<rparr>"
  have "AuthorUpdate_ok ?p" "author_update_encodable ?p"
    using sample_texts
    by (simp_all add: AuthorUpdate_ok_def author_update_encodable_def field_ok_def NAME_MAX_def)
  from update_author_refines [OF ref_service.service_setting_axioms sample_quiet, where c = empty_cache and p = ?p
      and i = 0 and k = 1] this
  obtain d' where d': "finished ref_obs fake_contents (\<lambda>_. True)
       (with_session ref_engine FakeCache 0 (update_author 1 ?p) (sample_state, empty_cache))
       (answer (fst (spec_update_author 1 ?p (abs_store sample_db)))) d' (fake_contents empty_cache)"
    "abs_store d' = snd (spec_update_author 1 ?p (abs_store sample_db))" by blast
  from d'(2) have "st_authors (abs_store d') 1 = Some (sample_author\<lparr>a_name := lit ''Al''\<rparr>)"
    by (simp add: spec_update_author_def sample_maps changed_author_def sample_author_def)
  with d'(1) show ?thesis by auto
qed

text \<open>
  C16. Deleting an author refines its specification: an author with messages stays and the answer
  is a 409, an unknown id is a 404, and otherwise exactly this author is gone. No message is ever
  left without its author.
\<close>

theorem delete_author_refines:
  assumes "service_setting E B C contents up" and "quiet B s d" and "up c"
  shows "\<exists>d'. finished B contents up (with_session E C i (delete_author k) (s, c))
       (answer (fst (spec_delete_author k (abs_store d)))) d' (contents c)
     \<and> abs_store d' = snd (spec_delete_author k (abs_store d))"
  by (rule service_setting.refines [OF assms(1-3)], rule alone_delete_author)

theorem delete_author_refines_witness:
  "\<exists>d'. finished ref_obs fake_contents (\<lambda>_. True)
       (with_session ref_engine FakeCache 0 (delete_author 1) (sample_state, empty_cache))
       (Raised (ApiExn (author_has_messages 1))) d' (fake_contents empty_cache)"
proof -
  have "has_messages (abs_store sample_db) 1"
    by (simp add: has_messages_tables sample_schema) (simp add: sample_db_def sample_message_def)
  then show ?thesis
    using delete_author_refines [OF ref_service.service_setting_axioms sample_quiet, where c = empty_cache
      and i = 0 and k = 1]
    by (auto simp: spec_delete_author_def)
qed

text \<open>
  Reading the authors page by page returns every author exactly once, the oldest first with
  the id as tiebreaker, and each page carries the total count. A read changes nothing.
\<close>

theorem author_pages_partition:
  assumes "service_setting E B C contents up" and "quiet B s d" and "up c" and "0 < n"
  shows "\<exists>all pages.
     (\<forall>j. finished B contents up (with_session E C i (list_authors (int n) (int n * int j)) (s, c))
        (Returned \<lparr>pg_items = pages j, pg_total_count = length all\<rparr>) d (contents c))
     \<and> (\<forall>j. length (pages j) \<le> n)
     \<and> (\<forall>k. length all \<le> n * k \<longrightarrow> concat (map pages [0..<k]) = all)
     \<and> distinct (map ao_id all)
     \<and> (\<forall>out. out \<in> set all \<longleftrightarrow> (\<exists>a. author_map d (ao_id out) = Some a \<and> out = AuthorOut_of a))
     \<and> sorted_wrt (\<lambda>x y. PageKey (ao_created_at x) (ao_id x) \<le> PageKey (ao_created_at y) (ao_id y)) all"
proof -
  let ?rows = "order_authors oldest_first (db_authors d)"
  let ?pages = "\<lambda>j. page (int n) (int n * int j) (map AuthorOut_of ?rows)"
  have ok: "schema_ok d" using service_setting.quiet_ok [OF assms(1,2)] .
  have run: "finished B contents up (with_session E C i (list_authors (int n) (int n * int j)) (s, c))
        (Returned \<lparr>pg_items = ?pages j, pg_total_count = length (map AuthorOut_of ?rows)\<rparr>) d (contents c)" for j
    by (rule service_setting.reads [OF assms(1-3)])
      (simp add: alone_list_authors page_def take_map drop_map)
  have "distinct (map a_id ?rows)"
    using schema_okD(1) [OF ok] by (simp add: order_authors_def distinct_map)
  moreover have "out \<in> set (map AuthorOut_of ?rows)
      \<longleftrightarrow> (\<exists>a. author_map d (ao_id out) = Some a \<and> out = AuthorOut_of a)" for out
    using ok by (auto simp: author_map_Some_iff AuthorOut_of_def)
  moreover have "sorted_wrt (\<lambda>x y. PageKey (ao_created_at x) (ao_id x) \<le> PageKey (ao_created_at y) (ao_id y))
      (map AuthorOut_of ?rows)"
    using sorted_oldest_first [of "db_authors d"]
    by (simp add: sorted_wrt_map author_key_def AuthorOut_of_def)
  ultimately show ?thesis
    using run concat_pages [of "map AuthorOut_of ?rows" n]
    by (intro exI [of _ "map AuthorOut_of ?rows"] exI [of _ ?pages]) (simp add: page_def)
qed

theorem author_pages_partition_witness:
  "\<exists>all pages.
     finished ref_obs fake_contents (\<lambda>_. True)
        (with_session ref_engine FakeCache 0 (list_authors 1 0) (sample_state, empty_cache))
        (Returned \<lparr>pg_items = pages (0::nat), pg_total_count = length all\<rparr>) sample_db (fake_contents empty_cache)
     \<and> AuthorOut_of sample_author \<in> set all"
proof -
  from author_pages_partition [OF ref_service.service_setting_axioms sample_quiet, where c = empty_cache
      and i = 0 and n = 1]
  obtain all pages where p: "\<And>j. finished ref_obs fake_contents (\<lambda>_. True)
        (with_session ref_engine FakeCache 0 (list_authors (int 1) (int 1 * int j)) (sample_state, empty_cache))
        (Returned \<lparr>pg_items = pages j, pg_total_count = length all\<rparr>) sample_db (fake_contents empty_cache)"
    "\<And>out. out \<in> set all \<longleftrightarrow> (\<exists>a. author_map sample_db (ao_id out) = Some a \<and> out = AuthorOut_of a)"
    by auto
  have "AuthorOut_of sample_author \<in> set all"
    by (simp add: p(2)) (simp add: AuthorOut_of_def sample_author_def sample_maps)
  with p(1) [of 0] show ?thesis by auto
qed

text \<open>
  An author is returned with its messages exactly when they were asked for: then all of them,
  each once, the newest first; without \<open>include=messages\<close> the member is absent. An unknown id is a
  404.
\<close>

theorem get_author_spec:
  assumes "service_setting E B C contents up" and "quiet B s d" and "up c"
  shows "\<exists>res. finished B contents up (with_session E C i (get_author k include_messages) (s, c)) res d (contents c)
     \<and> (case author_map d k of
          None \<Rightarrow> res = Raised (ApiExn (author_not_found k))
        | Some a \<Rightarrow> (\<exists>out. res = Returned out \<and> AuthorOut.truncate out = AuthorOut_of a
            \<and> (case ad_messages out of
                 None \<Rightarrow> \<not> include_messages
               | Some ms \<Rightarrow> include_messages \<and> distinct (map ms_id ms)
                   \<and> (\<forall>x. x \<in> set ms \<longleftrightarrow> (\<exists>m. message_map d (ms_id x) = Some m \<and> m_author_id m = k
                        \<and> x = MessageSummary_of m))
                   \<and> sorted_wrt (\<lambda>x y. PageKey (ms_created_at y) (ms_id y) \<le> PageKey (ms_created_at x) (ms_id x)) ms)))"
proof -
  have ok: "schema_ok d" using service_setting.quiet_ok [OF assms(1,2)] .
  let ?ms = "order_messages newest_first [m \<leftarrow> db_messages d. m_author_id m = k]"
  have "distinct (map m_id ?ms)"
    using schema_okD(3) [OF ok] by (simp add: order_messages_def distinct_map_filter distinct_map inj_on_def)
  moreover have "x \<in> set (map MessageSummary_of ?ms) \<longleftrightarrow> (\<exists>m. message_map d (ms_id x) = Some m \<and> m_author_id m = k
      \<and> x = MessageSummary_of m)" for x
    using ok by (auto simp: message_map_Some_iff MessageSummary_of_def)
  moreover have "sorted_wrt (\<lambda>x y. PageKey (ms_created_at y) (ms_id y) \<le> PageKey (ms_created_at x) (ms_id x))
      (map MessageSummary_of ?ms)"
    using sorted_newest_first [of "[m \<leftarrow> db_messages d. m_author_id m = k]"]
    by (simp add: sorted_wrt_map message_key_def MessageSummary_of_def)
  moreover have "AuthorOut.truncate (AuthorOut.extend (AuthorOut_of a) z) = AuthorOut_of a" for a z
    by (simp add: AuthorOut.defs)
  moreover note service_setting.reads [OF assms(1-3) alone_get_author, of i k include_messages]
  ultimately show ?thesis
    by (cases "author_map d k"; cases include_messages) (auto simp: AuthorOut.defs AuthorDetailOut.defs)
qed

theorem get_author_spec_witness:
  "\<exists>res out. finished ref_obs fake_contents (\<lambda>_. True)
       (with_session ref_engine FakeCache 0 (get_author 1 True) (sample_state, empty_cache))
       res sample_db (fake_contents empty_cache)
     \<and> res = Returned out \<and> AuthorOut.truncate out = AuthorOut_of sample_author \<and> ad_messages out \<noteq> None"
  using get_author_spec [OF ref_service.service_setting_axioms sample_quiet TrueI, where c = empty_cache
      and i = 0 and k = 1 and include_messages = True]
  unfolding sample_maps(1) option.case
  apply (elim exE conjE)
  subgoal for res out by (intro exI [of _ res] exI [of _ out]) (cases "ad_messages out"; simp)
  done

end
