(* ===== verification/Messages.thy ===== *)
theory Messages
  imports Authors
begin

section \<open>Messages: \<open>app/services/messages.py\<close>\<close>

text \<open>
  The handlers of the message endpoints as programs over the database and the cache, their
  specification on the abstract store and on the contents of the cache, and the lemmas that a
  handler alone does what its specification says. What happens when several run at once is in
  theory \<open>Concurrency\<close>.
\<close>

subsection \<open>The JSON of a cached message\<close>

text \<open>
  The cache holds \<open>model_dump_json(by_alias=True)\<close> of a message, and a hit is read back with
  \<open>model_validate_json\<close>. Both are pydantic's, so they are an argument of the handlers; what is
  relied on is that a message of the table is read back as it was written.
\<close>

record json_codec =
  jc_dump :: "MessageOut \<Rightarrow> pystr"
  jc_load :: "pystr \<Rightarrow> MessageOut option"

definition author_out_text :: "AuthorOut \<Rightarrow> bool" where
  "author_out_text a \<longleftrightarrow> list_all sql_char (ao_name a) \<and> list_all sql_char (ao_email a)"

definition message_out_text :: "MessageOut \<Rightarrow> bool" where
  "message_out_text m \<longleftrightarrow>
     list_all sql_char (ms_title m) \<and> list_all sql_char (ms_content m) \<and> author_out_text (mo_author m)"

definition codec_ok :: "json_codec \<Rightarrow> bool" where
  "codec_ok J \<longleftrightarrow> (\<forall>m. message_out_text m \<longrightarrow> jc_load J (jc_dump J m) = Some m)"

subsection \<open>Handlers\<close>

definition message_not_found :: "uuid \<Rightarrow> api_error" where
  "message_not_found k = NotFoundError (lit ''Message with ID '' @ quoted (uuid_str k) @ lit '' was not found.'')"

definition stale_version :: "uuid \<Rightarrow> int \<Rightarrow> api_error" where
  "stale_version k v =
     ConflictError (lit ''Message with ID '' @ quoted (uuid_str k) @ lit '' has changed since version ''
       @ int_str v @ lit '' was read; refetch and retry.'')"

text \<open>\<open>_load\<close>: the message with its author, or nothing; a row without author fails validation.\<close>

definition load_message :: "uuid \<Rightarrow> (MessageOut option \<Rightarrow> 'a prog) \<Rightarrow> 'a prog" where
  "load_message message_id k =
     Exec (SelectMessages [MessageIdIs message_id] [] None)
       (\<lambda>rows. scalar_one_or_none (message_rows rows)
          (\<lambda>row. case row of
               None \<Rightarrow> k None
             | Some (m, author) \<Rightarrow>
                 (case MessageOut_of m author of None \<Rightarrow> Raise ValidationError | Some out \<Rightarrow> k (Some out))))
       reraise"

definition list_messages :: "int \<Rightarrow> int \<Rightarrow> MessageOut Page prog" where
  "list_messages limit offset =
     Exec (SelectMessages [] [(ColCreatedAt, Desc), (ColId, Desc)] (Some (limit, offset)))
       (\<lambda>rows. Exec CountMessages
          (\<lambda>total. case those (map (\<lambda>(m, author). MessageOut_of m author) (message_rows rows)) of
               None \<Rightarrow> Raise ValidationError
             | Some items \<Rightarrow> Return \<lparr>pg_items = items, pg_total_count = count_row total\<rparr>)
          reraise)
       reraise"

definition get_message :: "json_codec \<Rightarrow> uuid \<Rightarrow> MessageOut prog" where
  "get_message J message_id =
     CacheGet (uuid_str message_id)
       (\<lambda>cached. case cached of
            Some text \<Rightarrow>
              (case jc_load J text of None \<Rightarrow> Raise ValidationError | Some message \<Rightarrow> Return message)
          | None \<Rightarrow>
              load_message message_id
                (\<lambda>message. case message of
                     None \<Rightarrow> Raise (ApiExn (message_not_found message_id))
                   | Some message \<Rightarrow>
                       CacheSet (uuid_str message_id) (jc_dump J message) (Return message)))"

text \<open>
  \<open>create_message\<close> looks the author up first; the author may be deleted between the check and the
  insert, which the foreign key reports.
\<close>

definition create_message :: "MessageCreate \<Rightarrow> MessageOut prog" where
  "create_message payload =
     Exec (SelectAuthors [AuthorIdIs (mc_author_id payload)] [] None False)
       (\<lambda>rows. scalar_one_or_none (author_rows rows)
          (\<lambda>author. case author of
               None \<Rightarrow> Raise (ApiExn (author_not_found (mc_author_id payload)))
             | Some (a, _) \<Rightarrow>
                 Exec (InsertMessage (mc_title payload) (mc_content payload) (a_id a))
                   (\<lambda>rows. scalar_one (message_rows rows)
                      (\<lambda>(m, _). case MessageOut_of m (Some a) of
                           None \<Rightarrow> Raise ValidationError
                         | Some out \<Rightarrow> Commit (Return out) reraise))
                   (\<lambda>sqlstate. Rollback
                      (if sqlstate = Some FK_VIOLATION then
                         Raise (ApiExn (author_not_found (mc_author_id payload)))
                       else reraise sqlstate))))
       reraise"

text \<open>
  \<open>update_message\<close>: one UPDATE with the version the caller read among its conditions. When no row
  matches, the cached copy is dropped before the answer is chosen, because it may be the stale one
  the caller read. When a row matches, the entry is dropped after the commit.
\<close>

definition message_changes :: "MessageUpdate \<Rightarrow> message_set list" where
  "message_changes payload =
     [SetContent (mu_content payload), SetVersionPlus 1]
     @ (case mu_title payload of None \<Rightarrow> [] | Some t \<Rightarrow> [SetTitle t])"

definition update_stale :: "uuid \<Rightarrow> MessageUpdate \<Rightarrow> MessageOut prog" where
  "update_stale message_id payload =
     Rollback
       (CacheEvict (uuid_str message_id)
         (Exec (SelectMessageIds [MessageIdIs message_id])
            (\<lambda>rows. if id_rows rows = [] then Raise (ApiExn (message_not_found message_id))
                    else Raise (ApiExn (stale_version message_id (mu_version payload))))
            reraise))"

definition update_message :: "uuid \<Rightarrow> MessageUpdate \<Rightarrow> MessageOut prog" where
  "update_message message_id payload =
     Exec (UpdateMessages [MessageIdIs message_id, MessageVersionIs (mu_version payload)]
             (message_changes payload))
       (\<lambda>rows. scalar_one_or_none (id_rows rows)
          (\<lambda>updated_id. case updated_id of
               None \<Rightarrow> update_stale message_id payload
             | Some _ \<Rightarrow>
                 load_message message_id
                   (\<lambda>out. Commit
                      (CacheEvict (uuid_str message_id)
                        (case out of None \<Rightarrow> Raise AssertionError | Some message \<Rightarrow> Return message))
                      reraise)))
       reraise"

definition delete_message :: "uuid \<Rightarrow> unit prog" where
  "delete_message message_id =
     Exec (DeleteMessages [MessageIdIs message_id])
       (\<lambda>rows. scalar_one_or_none (id_rows rows)
          (\<lambda>deleted. Commit
             (CacheEvict (uuid_str message_id)
               (if deleted = None then Raise (ApiExn (message_not_found message_id)) else Return ()))
             reraise))
       reraise"

lemmas message_handler_defs [svc_defs] = list_messages_def get_message_def create_message_def update_stale_def
  update_message_def delete_message_def

subsection \<open>What the operations promise\<close>

text \<open>The message as the API shows it: the row with its author.\<close>

definition shown_message :: "store \<Rightarrow> uuid \<Rightarrow> MessageOut option" where
  "shown_message st k =
     (case st_messages st k of None \<Rightarrow> None | Some m \<Rightarrow> MessageOut_of m (st_authors st (m_author_id m)))"

definition spec_create_message ::
  "uuid \<Rightarrow> int \<Rightarrow> MessageCreate \<Rightarrow> store \<Rightarrow> (api_error + MessageOut) \<times> store" where
  "spec_create_message u now p st =
     (let m = \<lparr>m_id = u, m_title = mc_title p, m_content = mc_content p, m_author_id = mc_author_id p,
               m_created_at = now, m_version = 0\<rparr>
      in case MessageOut_of m (st_authors st (mc_author_id p)) of
           None \<Rightarrow> (Inl (author_not_found (mc_author_id p)), st)
         | Some out \<Rightarrow> (Inr out, st\<lparr>st_messages := (st_messages st)(u \<mapsto> m)\<rparr>))"

definition changed_message :: "MessageUpdate \<Rightarrow> message_row \<Rightarrow> message_row" where
  "changed_message p m =
     m\<lparr>m_title := (case mu_title p of None \<Rightarrow> m_title m | Some t \<Rightarrow> t), m_content := mu_content p,
       m_version := m_version m + 1\<rparr>"

text \<open>Of an update that is not applied, only the cache entry changes.\<close>

definition spec_update_message ::
  "uuid \<Rightarrow> MessageUpdate \<Rightarrow> store \<Rightarrow> (api_error + MessageOut) \<times> store" where
  "spec_update_message k p st =
     (case st_messages st k of
        None \<Rightarrow> (Inl (message_not_found k), st)
      | Some m \<Rightarrow>
          if m_version m \<noteq> mu_version p then (Inl (stale_version k (mu_version p)), st)
          else (let st' = st\<lparr>st_messages := (st_messages st)(k \<mapsto> changed_message p m)\<rparr>
                in case shown_message st' k of
                     None \<Rightarrow> (Inl (message_not_found k), st) | Some out \<Rightarrow> (Inr out, st')))"

definition spec_delete_message :: "uuid \<Rightarrow> store \<Rightarrow> (api_error + unit) \<times> store" where
  "spec_delete_message k st =
     (if st_messages st k = None then (Inl (message_not_found k), st)
      else (Inr (), st\<lparr>st_messages := (st_messages st)(k := None)\<rparr>))"

subsection \<open>The handlers alone\<close>

lemma shown_message_None [simp]: "message_map d k = None \<Longrightarrow> shown_message (abs_store d) k = None"
  by (simp add: shown_message_def)

lemma shown_message_Some:
  assumes "schema_ok d" and "message_map d k = Some m"
  obtains a out where "author_map d (m_author_id m) = Some a" "MessageOut_of m (Some a) = Some out"
    "shown_message (abs_store d) k = Some out"
proof -
  from message_author_exists [OF assms] obtain a where "author_map d (m_author_id m) = Some a" .
  with assms(2) that show ?thesis by (simp add: shown_message_def MessageOut_of_def)
qed

lemma shown_message_None_iff: "schema_ok d \<Longrightarrow> shown_message (abs_store d) k = None \<longleftrightarrow> message_map d k = None"
  by (cases "message_map d k") (auto elim: shown_message_Some)

lemma alone_load_message:
  assumes "schema_ok w"
  shows "alone (load_message k f) u d (Tx w) m = alone (f (shown_message (abs_store w) k)) u d (Tx w) m"
proof (cases "message_map w k")
  case None
  then show ?thesis using assms by (simp add: load_message_def messages_where_id)
next
  case (Some r)
  with assms obtain a out where "author_map w (m_author_id r) = Some a" "MessageOut_of r (Some a) = Some out"
    "shown_message (abs_store w) k = Some out" by (rule shown_message_Some)
  with Some assms show ?thesis by (simp add: load_message_def messages_where_id with_author_def)
qed

lemma alone_get_message:
  assumes "schema_ok d"
  shows "alone (get_message J k) u d (Tx d) m =
    (case m (uuid_str k) of
       Some text \<Rightarrow>
         Some (case jc_load J text of None \<Rightarrow> Raised ValidationError | Some out \<Rightarrow> Returned out, d, m)
     | None \<Rightarrow>
         (case shown_message (abs_store d) k of
            None \<Rightarrow> Some (Raised (ApiExn (message_not_found k)), d, m)
          | Some out \<Rightarrow> Some (Returned out, d, m(uuid_str k \<mapsto> jc_dump J out))))"
  using assms
  by (cases "m (uuid_str k)"; cases "shown_message (abs_store d) k")
    (simp_all add: get_message_def alone_load_message split: option.split)

lemma alone_list_messages:
  assumes "schema_ok d" and "0 \<le> limit" and "0 \<le> offset"
  shows "\<exists>items. alone (list_messages limit offset) u d (Tx d) m =
      Some (Returned \<lparr>pg_items = items, pg_total_count = length (db_messages d)\<rparr>, d, m)
    \<and> map Some items = map (\<lambda>r. shown_message (abs_store d) (m_id r))
         (page limit offset (order_messages newest_first (db_messages d)))"
proof -
  let ?rows = "page limit offset (order_messages newest_first (db_messages d))"
  have rows: "set ?rows \<subseteq> set (db_messages d)"
    by (auto simp: page_def dest!: in_set_takeD in_set_dropD)
  have shown: "\<exists>out. shown_message (abs_store d) (m_id r) = Some out
      \<and> MessageOut_of r (author_map d (m_author_id r)) = Some out" if "r \<in> set ?rows" for r
  proof -
    from that rows have r: "message_map d (m_id r) = Some r" using assms(1) by (auto simp: message_map_Some_iff)
    with assms(1) show ?thesis by (auto elim!: shown_message_Some)
  qed
  let ?items = "map (\<lambda>r. the (shown_message (abs_store d) (m_id r))) ?rows"
  have a: "map Some ?items = map (\<lambda>r. shown_message (abs_store d) (m_id r)) ?rows"
    using shown by fastforce
  have b: "map (\<lambda>(m, author). MessageOut_of m author) (map (with_author d) ?rows)
      = map (\<lambda>r. shown_message (abs_store d) (m_id r)) ?rows"
    using shown by (fastforce simp: with_author_def)
  have c: "those (map Some xs) = Some xs" for xs :: "MessageOut list"
    by (induction xs) simp_all
  have "those (map (\<lambda>(m, author). MessageOut_of m author) (map (with_author d) ?rows)) = Some ?items"
    unfolding b a [symmetric] c ..
  moreover have "messages_where [] d = db_messages d" by (simp add: messages_where_def)
  ultimately show ?thesis
    using assms a
    by (intro exI [of _ ?items]) (simp add: list_messages_def paged_def newest_first_def)
qed

definition message_encodable :: "MessageCreate \<Rightarrow> bool" where
  "message_encodable p \<longleftrightarrow> list_all sql_char (mc_title p) \<and> list_all sql_char (mc_content p)"

definition message_update_encodable :: "MessageUpdate \<Rightarrow> bool" where
  "message_update_encodable p \<longleftrightarrow>
     (case mu_title p of None \<Rightarrow> True | Some t \<Rightarrow> list_all sql_char t) \<and> list_all sql_char (mu_content p)"

lemma alone_create_message:
  assumes "schema_ok d" and "message_map d u = None" and "MessageCreate_ok p" and "message_encodable p"
  shows "\<exists>d'. alone (create_message p) (Some (u, now)) d (Tx d) m
       = Some (answer (fst (spec_create_message u now p (abs_store d))), d', m)
     \<and> abs_store d' = snd (spec_create_message u now p (abs_store d))"
proof -
  let ?m = "\<lparr>m_id = u, m_title = mc_title p, m_content = mc_content p, m_author_id = mc_author_id p,
             m_created_at = now, m_version = 0\<rparr>"
  have fits: "message_row_fits ?m"
    using assms(3,4)
    by (simp add: message_row_fits_def MessageCreate_ok_def message_encodable_def field_ok_fits int4_fits_def)
  have new: "u \<notin> m_id ` set (db_messages d)" using assms(2) by (simp add: message_map_None_iff)
  show ?thesis
  proof (cases "author_map d (mc_author_id p)")
    case None
    with assms(1) show ?thesis
      by (simp add: create_message_def spec_create_message_def authors_where_id MessageOut_of_def Let_def)
  next
    case (Some a)
    then have "a_id a = mc_author_id p" by (rule author_map_id)
    moreover have "mc_author_id p \<in> a_id ` set (db_authors d)"
      using Some by (metis author_map_None_iff option.distinct(1))
    ultimately show ?thesis
      using assms(1) Some fits new
      by (simp add: create_message_def spec_create_message_def authors_where_id insert_message_sem_def
          with_messages_def MessageOut_of_def Let_def)
  qed
qed

text \<open>A text with a NUL is not stored.\<close>

lemma alone_create_message_nul:
  assumes "schema_ok d" and "author_map d (mc_author_id p) = Some a" and "0 \<in> set (mc_title p @ mc_content p)"
    and "\<forall>c \<in> set (mc_title p @ mc_content p). c = 0 \<or> sql_char c"
  shows "alone (create_message p) (Some (u, now)) d (Tx d) m = Some (Raised (DatabaseError ''22021''), d, m)"
proof -
  have "\<not> message_row_fits \<lparr>m_id = u, m_title = mc_title p, m_content = mc_content p,
      m_author_id = x, m_created_at = now, m_version = 0\<rparr>" for x
    using assms(3) by (auto simp: message_row_fits_def text_fits_def list_all_iff sql_char_def)
  moreover have "misfit [mc_title p, mc_content p] = ''22021''" by (rule misfit_nul) (use assms(3,4) in simp_all)
  ultimately show ?thesis
    using assms(1,2) by (simp add: create_message_def authors_where_id insert_message_sem_def with_messages_def Let_def)
qed

lemma update_row_changes: "update_row (message_changes p) m = changed_message p m"
  by (simp add: update_row_def message_changes_def changed_message_def split: option.split)

lemma changed_message_sel [simp]:
  "m_id (changed_message p m) = m_id m" "m_version (changed_message p m) = m_version m + 1"
  "m_author_id (changed_message p m) = m_author_id m" "m_content (changed_message p m) = mu_content p"
  "m_created_at (changed_message p m) = m_created_at m"
  by (simp_all add: changed_message_def)

lemma message_map_fits: "schema_ok d \<Longrightarrow> message_map d k = Some m \<Longrightarrow> message_row_fits m"
  by (auto simp: message_map_Some_iff schema_ok_def list_all_iff)

lemma changed_message_fits:
  assumes "message_row_fits m" and "m_version m = mu_version p" and "MessageUpdate_ok p"
    and "message_update_encodable p" and "mu_version p < MAX_INT4"
  shows "message_row_fits (changed_message p m)" and "int4_fits (m_version m + 1)"
proof -
  show fits: "int4_fits (m_version m + 1)"
    using assms(2,3,5) by (simp add: int4_fits_def MessageUpdate_ok_def MAX_INT4_def)
  have "text_fits 100 (m_title (changed_message p m))"
    using assms by (simp add: changed_message_def message_row_fits_def MessageUpdate_ok_def
        message_update_encodable_def field_ok_fits split: option.splits)
  with assms fits show "message_row_fits (changed_message p m)"
    by (simp add: message_row_fits_def MessageUpdate_ok_def message_update_encodable_def field_ok_fits)
qed

text \<open>The conditional UPDATE: it changes the row exactly when it is at the version of the caller.\<close>

lemma update_one_message:
  assumes "schema_ok d" and "MessageUpdate_ok p" and "message_update_encodable p" and "mu_version p < MAX_INT4"
  shows "update_messages_sem [MessageIdIs k, MessageVersionIs (mu_version p)] (message_changes p) d =
    (case message_map d k of
       None \<Rightarrow> Inr (IdRows [], [])
     | Some m \<Rightarrow>
         if m_version m = mu_version p then Inr (IdRows [k], [PutMessage (changed_message p m)])
         else Inr (IdRows [], []))"
proof (cases "message_map d k")
  case None
  with assms(1) show ?thesis by (simp add: update_messages_sem_def messages_where_id_version)
next
  case (Some m)
  then have k: "m_id m = k" and fits: "message_row_fits m"
    using message_map_id message_map_fits [OF assms(1)] by blast+
  show ?thesis
  proof (cases "m_version m = mu_version p")
    case True
    with Some k assms changed_message_fits [OF fits True assms(2-4)] show ?thesis
      by (simp add: update_messages_sem_def messages_where_id_version update_row_changes)
  next
    case False
    with Some assms(1) show ?thesis
      by (simp add: update_messages_sem_def messages_where_id_version)
  qed
qed

text \<open>The greatest version is not incremented.\<close>

lemma alone_update_message_overflow:
  assumes "schema_ok d" and "message_map d k = Some r" and "m_version r = MAX_INT4" and "mu_version p = MAX_INT4"
  shows "alone (update_message k p) u d (Tx d) m = Some (Raised (DatabaseError ''22003''), d, m)"
  using assms
  by (simp add: update_message_def update_messages_sem_def messages_where_id_version
      update_row_changes int4_fits_def MAX_INT4_def Let_def)

lemma schema_ok_changed:
  assumes "schema_ok d" and "message_map d k = Some m" and "message_row_fits (changed_message p m)"
  shows "schema_ok (apply_change (PutMessage (changed_message p m)) d)"
proof -
  from assms(1,2) have "m_author_id m \<in> a_id ` set (db_authors d)"
    using schema_okD(4) by (auto simp: message_map_Some_iff)
  with assms schema_ok_PutMessage [of d "changed_message p m"] show ?thesis by simp
qed

lemma alone_update_message:
  assumes "schema_ok d" and "MessageUpdate_ok p" and "message_update_encodable p" and "mu_version p < MAX_INT4"
  shows "\<exists>d'. alone (update_message k p) u d (Tx d) m
       = Some (answer (fst (spec_update_message k p (abs_store d))), d', m(uuid_str k := None))
     \<and> abs_store d' = snd (spec_update_message k p (abs_store d))"
proof (cases "message_map d k")
  case None
  with assms show ?thesis
    by (simp add: update_message_def spec_update_message_def update_one_message update_stale_def
        messages_where_id)
next
  case (Some r)
  then have k: "m_id r = k" by (rule message_map_id)
  show ?thesis
  proof (cases "m_version r = mu_version p")
    case False
    with Some k assms show ?thesis
      by (simp add: update_message_def spec_update_message_def update_one_message update_stale_def
          messages_where_id)
  next
    case True
    let ?d = "apply_change (PutMessage (changed_message p r)) d"
    have ok: "schema_ok ?d"
      using schema_ok_changed [OF assms(1) Some] changed_message_fits [OF message_map_fits [OF assms(1) Some] True]
        assms(2-4) by blast
    have "message_map ?d k = Some (changed_message p r)" using k by simp
    with ok obtain out where out: "shown_message (abs_store ?d) k = Some out" by (rule shown_message_Some)
    with True Some k assms ok show ?thesis
      by (simp add: update_message_def spec_update_message_def update_one_message alone_load_message)
  qed
qed

lemma alone_delete_message:
  assumes "schema_ok d"
  shows "\<exists>d'. alone (delete_message k) u d (Tx d) m
       = Some (answer (fst (spec_delete_message k (abs_store d))), d', m(uuid_str k := None))
     \<and> abs_store d' = snd (spec_delete_message k (abs_store d))"
  using assms message_map_id [of d k]
  by (cases "message_map d k")
    (simp_all add: delete_message_def spec_delete_message_def messages_where_id)

subsection \<open>The cache and the tables\<close>

text \<open>
  An entry of the cache is coherent when it is the JSON of the message as the tables show it, so
  that a hit and a miss give the same answer.
\<close>

definition cache_coherent :: "json_codec \<Rightarrow> store \<Rightarrow> contents \<Rightarrow> bool" where
  "cache_coherent J st m \<longleftrightarrow>
     (\<forall>k text. m (uuid_str k) = Some text \<longrightarrow>
        (\<exists>out. shown_message st k = Some out \<and> jc_load J text = Some out))"

lemma cache_coherent_entry:
  "cache_coherent J st m \<Longrightarrow> m (uuid_str k) = Some text \<Longrightarrow> jc_load J text = shown_message st k"
  by (fastforce simp: cache_coherent_def)

lemma cache_coherent_evict:
  "cache_coherent J st m \<Longrightarrow> (\<And>j. j \<noteq> k \<Longrightarrow> shown_message st' j = shown_message st j) \<Longrightarrow>
     cache_coherent J st' (m(uuid_str k := None))"
  by (auto simp: cache_coherent_def)

lemma cache_coherent_put:
  "cache_coherent J st m \<Longrightarrow> shown_message st k = Some out \<Longrightarrow> jc_load J text = Some out \<Longrightarrow>
     cache_coherent J st (m(uuid_str k \<mapsto> text))"
  by (auto simp: cache_coherent_def)

lemma cache_coherent_grow:
  "cache_coherent J st m \<Longrightarrow> (\<And>j out. shown_message st j = Some out \<Longrightarrow> shown_message st' j = Some out) \<Longrightarrow>
     cache_coherent J st' m"
  by (fastforce simp: cache_coherent_def)

lemma shown_message_text:
  assumes "schema_ok d" and "shown_message (abs_store d) k = Some out"
  shows "message_out_text out"
proof -
  from assms(2) obtain m where m: "message_map d k = Some m"
    by (cases "message_map d k") simp_all
  with assms(1) obtain a o' where a: "author_map d (m_author_id m) = Some a" "MessageOut_of m (Some a) = Some o'"
    "shown_message (abs_store d) k = Some o'" by (rule shown_message_Some)
  from message_map_fits [OF assms(1) m] author_map_fits [OF assms(1) a(1)] a assms(2) show ?thesis
    by (auto simp: message_out_text_def author_out_text_def MessageOut_of_def AuthorOut_of_def
        message_row_fits_def author_row_fits_def text_fits_def)
qed

lemma cached_shown:
  "codec_ok J \<Longrightarrow> schema_ok d \<Longrightarrow> shown_message (abs_store d) k = Some out \<Longrightarrow>
     jc_load J (jc_dump J out) = Some out"
  by (simp add: codec_ok_def shown_message_text)

lemma shown_message_upd [simp]:
  "j \<noteq> k \<Longrightarrow> shown_message (st\<lparr>st_messages := f(k := v)\<rparr>) j = shown_message (st\<lparr>st_messages := f\<rparr>) j"
  by (simp add: shown_message_def split: option.split)

text \<open>The operations keep the cache coherent, each with what it does to the entry.\<close>

lemma create_message_coherent:
  assumes "cache_coherent J st m" and "st_messages st u = None"
  shows "cache_coherent J (snd (spec_create_message u now p st)) m"
  by (rule cache_coherent_grow [OF assms(1)])
    (use assms(2) in \<open>auto simp: spec_create_message_def shown_message_def Let_def split: option.splits\<close>)

lemma update_message_coherent:
  "cache_coherent J st m \<Longrightarrow> cache_coherent J (snd (spec_update_message k p st)) (m(uuid_str k := None))"
  by (erule cache_coherent_evict)
    (auto simp: spec_update_message_def shown_message_def Let_def split: option.splits)

lemma delete_message_coherent:
  "cache_coherent J st m \<Longrightarrow> cache_coherent J (snd (spec_delete_message k st)) (m(uuid_str k := None))"
  by (erule cache_coherent_evict) (auto simp: spec_delete_message_def shown_message_def split: option.splits)

lemma create_author_coherent:
  assumes "cache_coherent J st m" and "st_authors st u = None"
  shows "cache_coherent J (snd (spec_create_author u now p st)) m"
  by (rule cache_coherent_grow [OF assms(1)])
    (use assms(2) in \<open>auto simp: spec_create_author_def shown_message_def MessageOut_of_def Let_def split: option.splits\<close>)

lemma delete_author_coherent:
  assumes "cache_coherent J st m"
  shows "cache_coherent J (snd (spec_delete_author k st)) m"
  by (rule cache_coherent_grow [OF assms])
    (auto simp: spec_delete_author_def has_messages_def shown_message_def split: option.splits)

definition spec_get_message :: "uuid \<Rightarrow> store \<Rightarrow> api_error + MessageOut" where
  "spec_get_message k st =
     (case shown_message st k of None \<Rightarrow> Inl (message_not_found k) | Some out \<Rightarrow> Inr out)"

lemma alone_get_message_coherent:
  assumes "schema_ok d" and "codec_ok J" and "cache_coherent J (abs_store d) m"
  shows "\<exists>m'. alone (get_message J k) u d (Tx d) m = Some (answer (spec_get_message k (abs_store d)), d, m')
     \<and> cache_coherent J (abs_store d) m'
     \<and> (shown_message (abs_store d) k \<noteq> None \<longrightarrow> m' (uuid_str k) \<noteq> None)"
proof (cases "m (uuid_str k)")
  case None
  with assms show ?thesis
    by (cases "shown_message (abs_store d) k")
      (simp_all add: alone_get_message spec_get_message_def cache_coherent_put cached_shown)
next
  case (Some js)
  with assms(3) obtain out where "shown_message (abs_store d) k = Some out" "jc_load J js = Some out"
    by (auto simp: cache_coherent_def)
  with Some assms show ?thesis by (simp add: alone_get_message spec_get_message_def)
qed

subsection \<open>A codec\<close>

text \<open>
  A codec with the law, for the concrete inputs: numbers first, then the four texts, each after its
  length.
\<close>

definition int_code :: "int \<Rightarrow> nat list" where
  "int_code i = [if i < 0 then 1 else 0, nat \<bar>i\<bar>]"

definition int_decode :: "nat \<Rightarrow> nat \<Rightarrow> int" where
  "int_decode s n = (if s = 1 then - int n else int n)"

definition sample_dump :: "MessageOut \<Rightarrow> pystr" where
  "sample_dump m =
     [unat (ms_id m), unat (ao_id (mo_author m))] @ int_code (ms_created_at m) @ int_code (ms_version m)
     @ int_code (ao_created_at (mo_author m))
     @ [length (ms_title m), length (ms_content m), length (ao_name (mo_author m))]
     @ ms_title m @ ms_content m @ ao_name (mo_author m) @ ao_email (mo_author m)"

fun sample_load :: "pystr \<Rightarrow> MessageOut option" where
  "sample_load (k # ak # s1 # n1 # s2 # n2 # s3 # n3 # lt # lc # ln # text) =
     (let rest = drop lt text; rest' = drop lc rest
      in Some \<lparr>ms_id = of_nat k, ms_title = take lt text, ms_content = take lc rest,
               ms_created_at = int_decode s1 n1, ms_version = int_decode s2 n2,
               mo_author = \<lparr>ao_id = of_nat ak, ao_name = take ln rest', ao_email = drop ln rest',
                            ao_created_at = int_decode s3 n3\<rparr>\<rparr>)"
| "sample_load _ = None"

definition sample_codec :: json_codec where
  "sample_codec = \<lparr>jc_dump = sample_dump, jc_load = sample_load\<rparr>"

lemma int_decode_code: "int_code i = [s, n] \<Longrightarrow> int_decode s n = i"
  by (auto simp: int_code_def int_decode_def split: if_splits)

lemma sample_codec_ok: "codec_ok sample_codec"
proof -
  have "sample_load (sample_dump m) = Some m" for m
    by (simp add: sample_dump_def int_code_def Let_def int_decode_def)
  then show ?thesis by (simp add: codec_ok_def sample_codec_def)
qed

subsection \<open>Properties\<close>

text \<open>
  C11. Reading a message gives the message as the tables show it, or 404, whether the answer comes
  from the cache or from the database; the tables stay as they are, and afterwards the cache is
  still coherent and holds the message.
\<close>

theorem get_message_refines:
  assumes "service_setting E B C contents up" and "quiet B s d" and "up c"
    and "codec_ok J" and "cache_coherent J (abs_store d) (contents c)"
  shows "\<exists>m. finished B contents up (with_session E C i (get_message J k) (s, c))
       (case shown_message (abs_store d) k of
          None \<Rightarrow> Raised (ApiExn (message_not_found k)) | Some out \<Rightarrow> Returned out) d m
     \<and> cache_coherent J (abs_store d) m
     \<and> (shown_message (abs_store d) k \<noteq> None \<longrightarrow> m (uuid_str k) \<noteq> None)"
proof -
  have ok: "schema_ok d" using service_setting.quiet_ok [OF assms(1,2)] .
  from alone_get_message_coherent [OF ok assms(4,5), of k "Some (ob_uuid B i s, ob_now B i s)"]
  obtain m where m: "alone (get_message J k) (Some (ob_uuid B i s, ob_now B i s)) d (Tx d) (contents c)
      = Some (answer (spec_get_message k (abs_store d)), d, m)"
    "cache_coherent J (abs_store d) m" "shown_message (abs_store d) k \<noteq> None \<longrightarrow> m (uuid_str k) \<noteq> None" by blast
  have "answer (spec_get_message k (abs_store d)) = (case shown_message (abs_store d) k of
      None \<Rightarrow> Raised (ApiExn (message_not_found k)) | Some out \<Rightarrow> Returned out)"
    by (simp add: spec_get_message_def split: option.split)
  with service_setting.with_session_alone [OF assms(1-3) m(1)] m(2,3) show ?thesis by auto
qed

theorem get_message_refines_witness:
  "\<exists>m. finished ref_obs fake_contents (\<lambda>_. True)
       (with_session ref_engine FakeCache 0 (get_message sample_codec 7) (sample_state, empty_cache))
       (case shown_message (abs_store sample_db) 7 of
          None \<Rightarrow> Raised (ApiExn (message_not_found 7)) | Some out \<Rightarrow> Returned out) sample_db m
     \<and> m (uuid_str 7) \<noteq> None"
proof -
  have "cache_coherent sample_codec (abs_store sample_db) (fake_contents empty_cache)"
    by (simp add: cache_coherent_def fake_contents_def empty_cache_def)
  moreover have "shown_message (abs_store sample_db) 7 \<noteq> None"
    by (simp add: shown_message_None_iff sample_schema sample_maps)
  ultimately show ?thesis
    using get_message_refines [OF ref_service.service_setting_axioms sample_quiet TrueI sample_codec_ok,
      where c = empty_cache and i = 0 and k = 7] by blast
qed

text \<open>
  C12. Creating a message refines its specification: it is stored with a fresh id and version 0 and
  is the answer with its author, an unknown author is a 404 that stores nothing, and the cache
  stays coherent without being touched.
\<close>

theorem create_message_refines:
  assumes "service_setting E B C contents up" and "quiet B s d" and "up c"
    and "message_map d (ob_uuid B i s) = None" and "MessageCreate_ok p" and "message_encodable p"
  shows "\<exists>d'. finished B contents up (with_session E C i (create_message p) (s, c))
       (answer (fst (spec_create_message (ob_uuid B i s) (ob_now B i s) p (abs_store d)))) d' (contents c)
     \<and> abs_store d' = snd (spec_create_message (ob_uuid B i s) (ob_now B i s) p (abs_store d))
     \<and> (cache_coherent J (abs_store d) (contents c) \<longrightarrow> cache_coherent J (abs_store d') (contents c))"
proof -
  have "\<exists>d'. finished B contents up (with_session E C i (create_message p) (s, c))
       (answer (fst (spec_create_message (ob_uuid B i s) (ob_now B i s) p (abs_store d)))) d' (contents c) \<and> abs_store d' = snd (spec_create_message (ob_uuid B i s) (ob_now B i s) p (abs_store d))"
    by (rule service_setting.refines [OF assms(1-3)], rule alone_create_message) (use assms in simp_all)
  then show ?thesis using create_message_coherent assms(4) abs_store_sel(2) by metis
qed

definition sample_message_payload :: MessageCreate where
  "sample_message_payload = \<lparr>mc_title = lit ''Cy'', mc_content = lit ''Al'', mc_author_id = 2\<rparr>"

definition sample_change :: MessageUpdate where
  "sample_change = \<lparr>mu_title = None, mu_content = lit ''Al'', mu_version = 3\<rparr>"

lemma sample_payloads_ok:
  "MessageCreate_ok sample_message_payload" "message_encodable sample_message_payload"
  "MessageUpdate_ok sample_change" "message_update_encodable sample_change" "mu_version sample_change < MAX_INT4"
proof -
  have "clean_text 100 (lit ''Cy'')" "clean_text 1000 (lit ''Al'')" "list_all sql_char (lit ''Cy'')"
    "list_all sql_char (lit ''Al'')"
    by (simp_all add: clean_text_def py_strip_def lit_def py_isspace_def sql_char_def)
  then show "MessageCreate_ok sample_message_payload" "message_encodable sample_message_payload"
    "MessageUpdate_ok sample_change" "message_update_encodable sample_change" "mu_version sample_change < MAX_INT4"
    by (simp_all add: MessageCreate_ok_def MessageUpdate_ok_def message_encodable_def field_ok_def
        message_update_encodable_def sample_message_payload_def sample_change_def TITLE_MAX_def
        CONTENT_MAX_def MAX_INT4_def)
qed

theorem create_message_refines_witness:
  "\<exists>d' out. finished ref_obs fake_contents (\<lambda>_. True)
       (with_session ref_engine FakeCache 0 (create_message sample_message_payload) (sample_state, empty_cache))
       (Returned out) d' (fake_contents empty_cache)
     \<and> mo_author out = AuthorOut_of sample_reader \<and> message_map d' 40 \<noteq> None"
proof -
  from create_message_refines [OF ref_service.service_setting_axioms sample_quiet, where c = empty_cache
      and i = 0 and p = sample_message_payload] sample_payloads_ok
  obtain d' where d': "finished ref_obs fake_contents (\<lambda>_. True)
       (with_session ref_engine FakeCache 0 (create_message sample_message_payload) (sample_state, empty_cache))
       (answer (fst (spec_create_message 40 0 sample_message_payload (abs_store sample_db)))) d'
       (fake_contents empty_cache)"
    "abs_store d' = snd (spec_create_message 40 0 sample_message_payload (abs_store sample_db))"
    by (auto simp: sample_engine sample_maps)
  from d'(2) have "st_messages (abs_store d') 40 \<noteq> None"
    by (simp add: spec_create_message_def MessageOut_of_def sample_maps sample_message_payload_def)
  with d'(1) show ?thesis
    by (simp add: spec_create_message_def MessageOut_of_def sample_maps sample_message_payload_def) fastforce
qed

text \<open>
  C2. Updating a message refines its specification: the version is the compare-and-swap. The
  update is applied exactly when the caller's version is the current one; then the content is the
  caller's, an absent title is kept, the version grows by one, and the answer is the stored
  message. A stale version is a 409 and an unknown id a 404 that change no table. In all cases the
  cache entry is gone and the cache stays coherent.
\<close>

theorem update_message_refines:
  assumes "service_setting E B C contents up" and "quiet B s d" and "up c"
    and "MessageUpdate_ok p" and "message_update_encodable p" and "mu_version p < MAX_INT4"
  shows "\<exists>d'. finished B contents up (with_session E C i (update_message k p) (s, c))
       (answer (fst (spec_update_message k p (abs_store d)))) d' ((contents c)(uuid_str k := None))
     \<and> abs_store d' = snd (spec_update_message k p (abs_store d))
     \<and> (cache_coherent J (abs_store d) (contents c) \<longrightarrow>
          cache_coherent J (abs_store d') ((contents c)(uuid_str k := None)))"
proof -
  have "\<exists>d'. finished B contents up (with_session E C i (update_message k p) (s, c))
       (answer (fst (spec_update_message k p (abs_store d)))) d' ((contents c)(uuid_str k := None)) \<and> abs_store d' = snd (spec_update_message k p (abs_store d))"
    by (rule service_setting.refines [OF assms(1-3)], rule alone_update_message) (use assms in simp_all)
  then show ?thesis using update_message_coherent by metis
qed

theorem update_message_refines_witness:
  "\<exists>d'. finished ref_obs fake_contents (\<lambda>_. True)
       (with_session ref_engine FakeCache 0 (update_message 7 sample_change) (sample_state, empty_cache))
       (answer (fst (spec_update_message 7 sample_change (abs_store sample_db)))) d'
       ((fake_contents empty_cache)(uuid_str 7 := None))
     \<and> map_option m_version (message_map d' 7) = Some 4"
proof -
  from update_message_refines [OF ref_service.service_setting_axioms sample_quiet TrueI sample_payloads_ok(3-5),
      where c = empty_cache and i = 0 and k = 7]
  obtain d' where d': "finished ref_obs fake_contents (\<lambda>_. True)
       (with_session ref_engine FakeCache 0 (update_message 7 sample_change) (sample_state, empty_cache))
       (answer (fst (spec_update_message 7 sample_change (abs_store sample_db)))) d'
       ((fake_contents empty_cache)(uuid_str 7 := None))"
    "abs_store d' = snd (spec_update_message 7 sample_change (abs_store sample_db))" by blast
  have "shown_message ((abs_store sample_db)\<lparr>st_messages := (message_map sample_db)(7 \<mapsto>
      changed_message sample_change sample_message)\<rparr>) 7 \<noteq> None"
    by (simp add: shown_message_def MessageOut_of_def) (simp add: sample_message_def sample_maps)
  then have "map_option m_version (st_messages (abs_store d') 7) = Some 4"
    using d'(2) by (auto simp: spec_update_message_def sample_maps Let_def) (simp_all add: sample_message_def sample_change_def)
  with d'(1) show ?thesis by auto
qed

text \<open>
  C13. Deleting a message refines its specification: exactly this message is gone, an unknown id is
  a 404, the cache entry is gone in both cases and the cache stays coherent.
\<close>

theorem delete_message_refines:
  assumes "service_setting E B C contents up" and "quiet B s d" and "up c"
  shows "\<exists>d'. finished B contents up (with_session E C i (delete_message k) (s, c))
       (answer (fst (spec_delete_message k (abs_store d)))) d' ((contents c)(uuid_str k := None))
     \<and> abs_store d' = snd (spec_delete_message k (abs_store d))
     \<and> (cache_coherent J (abs_store d) (contents c) \<longrightarrow>
          cache_coherent J (abs_store d') ((contents c)(uuid_str k := None)))"
proof -
  have "\<exists>d'. finished B contents up (with_session E C i (delete_message k) (s, c))
       (answer (fst (spec_delete_message k (abs_store d)))) d' ((contents c)(uuid_str k := None)) \<and> abs_store d' = snd (spec_delete_message k (abs_store d))"
    by (rule service_setting.refines [OF assms(1-3)], rule alone_delete_message) (use assms in simp_all)
  then show ?thesis using delete_message_coherent by metis
qed

theorem delete_message_refines_witness:
  "\<exists>d'. finished ref_obs fake_contents (\<lambda>_. True)
       (with_session ref_engine FakeCache 0 (delete_message 7) (sample_state, empty_cache))
       (Returned ()) d' ((fake_contents empty_cache)(uuid_str 7 := None))
     \<and> message_map d' 7 = None"
proof -
  from delete_message_refines [OF ref_service.service_setting_axioms sample_quiet TrueI,
      where c = empty_cache and i = 0 and k = 7]
  obtain d' where d': "finished ref_obs fake_contents (\<lambda>_. True)
       (with_session ref_engine FakeCache 0 (delete_message 7) (sample_state, empty_cache))
       (answer (fst (spec_delete_message 7 (abs_store sample_db)))) d'
       ((fake_contents empty_cache)(uuid_str 7 := None))"
    "abs_store d' = snd (spec_delete_message 7 (abs_store sample_db))" by blast
  from d'(2) have "st_messages (abs_store d') 7 = None"
    by (simp add: spec_delete_message_def sample_maps)
  with d'(1) show ?thesis by (auto simp: spec_delete_message_def sample_maps)
qed

text \<open>One page of the list, and the pages put together.\<close>

lemma message_page:
  assumes "service_setting E B C contents up" and "quiet B s d" and "up c"
  shows "\<exists>items. finished B contents up (with_session E C i (list_messages (int n) (int n * int j)) (s, c))
       (Returned \<lparr>pg_items = items, pg_total_count = length (db_messages d)\<rparr>) d (contents c)
     \<and> map Some items = page (int n) (int n * int j)
         (map (\<lambda>r. shown_message (abs_store d) (m_id r)) (order_messages newest_first (db_messages d)))"
proof -
  have ok: "schema_ok d" using service_setting.quiet_ok [OF assms(1,2)] .
  from alone_list_messages [OF ok, of "int n" "int n * int j" "Some (ob_uuid B i s, ob_now B i s)" "contents c"]
  obtain items where items: "alone (list_messages (int n) (int n * int j)) (Some (ob_uuid B i s, ob_now B i s)) d
      (Tx d) (contents c)
    = Some (Returned \<lparr>pg_items = items, pg_total_count = length (db_messages d)\<rparr>, d, contents c)"
    "map Some items = map (\<lambda>r. shown_message (abs_store d) (m_id r))
       (page (int n) (int n * int j) (order_messages newest_first (db_messages d)))"
    by auto
  from service_setting.with_session_alone [OF assms items(1)] items(2) show ?thesis
    by (auto simp: page_def take_map drop_map)
qed

lemma pages_together:
  assumes "\<And>j. map Some (pages j) = page (int n) (int n * int j) xs" and "0 < n"
  shows "length (pages j) \<le> n" and "length xs \<le> n * q \<Longrightarrow> map Some (concat (map pages [0..<q])) = xs"
proof -
  have "length (map Some (pages j)) = length (page (int n) (int n * int j) xs)"
    by (rule arg_cong [OF assms(1)])
  then show "length (pages j) \<le> n" by (simp add: page_def)
  have "map Some (concat (map pages [0..<q])) = concat (map (\<lambda>j. page (int n) (int n * int j) xs) [0..<q])"
    by (simp add: map_concat comp_def assms(1))
  also assume "length xs \<le> n * q"
  then have "concat (map (\<lambda>j. page (int n) (int n * int j) xs) [0..<q]) = xs"
    using assms(2) by (subst concat_pages) simp_all
  finally show "map Some (concat (map pages [0..<q])) = xs" .
qed

lemma newest_first_ids:
  assumes "schema_ok d"
  shows "distinct (map m_id (order_messages newest_first (db_messages d)))"
    and "k \<in> set (map m_id (order_messages newest_first (db_messages d))) \<longleftrightarrow> message_map d k \<noteq> None"
    and "sorted_wrt (\<lambda>k k'. message_key (the (message_map d k')) \<le> message_key (the (message_map d k)))
      (map m_id (order_messages newest_first (db_messages d)))"
proof -
  show "distinct (map m_id (order_messages newest_first (db_messages d)))"
    using schema_okD(3) [OF assms] by (simp add: order_messages_def distinct_map)
  show "k \<in> set (map m_id (order_messages newest_first (db_messages d))) \<longleftrightarrow> message_map d k \<noteq> None"
    by (simp add: message_map_None_iff)
  have "message_map d (m_id r) = Some r" if "r \<in> set (db_messages d)" for r
    using that assms by (simp add: message_map_Some_iff)
  then show "sorted_wrt (\<lambda>k k'. message_key (the (message_map d k')) \<le> message_key (the (message_map d k)))
      (map m_id (order_messages newest_first (db_messages d)))"
    unfolding sorted_wrt_map by (intro sorted_wrt_mono_rel [OF _ sorted_newest_first]) simp
qed

text \<open>
  C28. Reading the messages page by page returns every message exactly once, with its author, the
  newest first with the id as tiebreaker, and each page carries the total count.
\<close>

theorem message_pages_partition:
  assumes "service_setting E B C contents up" and "quiet B s d" and "up c" and "0 < n"
  shows "\<exists>ids pages.
     (\<forall>j. finished B contents up (with_session E C i (list_messages (int n) (int n * int j)) (s, c))
        (Returned \<lparr>pg_items = pages j, pg_total_count = length ids\<rparr>) d (contents c))
     \<and> (\<forall>j. length (pages j) \<le> n)
     \<and> (\<forall>q. length ids \<le> n * q \<longrightarrow>
          map Some (concat (map pages [0..<q])) = map (shown_message (abs_store d)) ids)
     \<and> distinct ids \<and> (\<forall>k. k \<in> set ids \<longleftrightarrow> message_map d k \<noteq> None)
     \<and> sorted_wrt (\<lambda>k k'. message_key (the (message_map d k')) \<le> message_key (the (message_map d k))) ids"
proof -
  let ?ids = "map m_id (order_messages newest_first (db_messages d))"
  have ok: "schema_ok d" using service_setting.quiet_ok [OF assms(1,2)] .
  from message_page [OF assms(1-3)] obtain pages where
    p: "\<And>j. finished B contents up (with_session E C i (list_messages (int n) (int n * int j)) (s, c))
       (Returned \<lparr>pg_items = pages j, pg_total_count = length (db_messages d)\<rparr>) d (contents c)"
    and q: "\<And>j. map Some (pages j) = page (int n) (int n * int j) (map (shown_message (abs_store d)) ?ids)"
    unfolding list.map_comp comp_def by metis
  show ?thesis
    by (intro exI [of _ ?ids] exI [of _ pages] conjI allI impI pages_together [OF q assms(4)] newest_first_ids [OF ok])
      (use p in simp_all)
qed

theorem message_pages_partition_witness:
  "\<exists>ids pages. finished ref_obs fake_contents (\<lambda>_. True)
       (with_session ref_engine FakeCache 0 (list_messages 1 0) (sample_state, empty_cache))
       (Returned \<lparr>pg_items = pages (0::nat), pg_total_count = length ids\<rparr>) sample_db (fake_contents empty_cache)
     \<and> (7::uuid) \<in> set ids"
proof -
  from message_pages_partition [OF ref_service.service_setting_axioms sample_quiet, where c = empty_cache
      and i = 0 and n = 1]
  obtain ids pages where p: "\<And>j. finished ref_obs fake_contents (\<lambda>_. True)
       (with_session ref_engine FakeCache 0 (list_messages (int 1) (int 1 * int j)) (sample_state, empty_cache))
       (Returned \<lparr>pg_items = pages j, pg_total_count = length ids\<rparr>) sample_db (fake_contents empty_cache)"
    "\<forall>k. k \<in> set ids \<longleftrightarrow> message_map sample_db k \<noteq> None"
    by auto
  from p(2) have "7 \<in> set ids" by (simp add: sample_maps)
  with p(1) [of 0] show ?thesis by auto
qed

text \<open>
  C29. An update of an author does not reach the cached messages that embed the author: after a
  read has filled the entry, renaming the author succeeds, and reading the message again still
  answers with the old name.
\<close>

theorem renamed_author_stays_in_cached_message:
  assumes "service_setting E B C contents up" and "quiet B s d" and "up c" and "codec_ok J"
    and "contents c (uuid_str k) = None" and "shown_message (abs_store d) k = Some out"
    and "field_ok ''name'' n" and "list_all sql_char n"
  shows "\<exists>s1 c1 s2 c2 s3 c3 author.
       with_session E C i (get_message J k) (s, c) = (Returned out, s1, c1)
     \<and> with_session E C i (update_author (ao_id (mo_author out)) \<lparr>au_name = Some n, au_email = None\<rparr>) (s1, c1)
         = (Returned author, s2, c2)
     \<and> ao_name author = n
     \<and> with_session E C i (get_message J k) (s2, c2) = (Returned out, s3, c3)"
proof -
  let ?p = "\<lparr>au_name = Some n, au_email = None\<rparr>"
  note alone = service_setting.with_session_alone [OF assms(1)]
  have ok: "schema_ok d" using service_setting.quiet_ok [OF assms(1,2)] .
  have "alone (get_message J k) (Some (ob_uuid B i s, ob_now B i s)) d (Tx d) (contents c)
      = Some (Returned out, d, (contents c)(uuid_str k \<mapsto> jc_dump J out))"
    by (simp add: alone_get_message ok assms(5,6))
  from finishedE [OF alone [OF assms(2,3) this]]
  obtain s1 c1 where 1: "with_session E C i (get_message J k) (s, c) = (Returned out, s1, c1)" "quiet B s1 d"
      "contents c1 = (contents c)(uuid_str k \<mapsto> jc_dump J out)" "up c1" by blast
  from assms(6) obtain m a where a: "message_map d k = Some m" "author_map d (m_author_id m) = Some a"
      "mo_author out = AuthorOut_of a"
    by (auto simp: shown_message_def MessageOut_of_def split: option.splits)
  have id: "a_id a = m_author_id m" using author_map_id [OF a(2)] .
  have "AuthorUpdate_ok ?p" "author_update_encodable ?p"
    using assms(7,8) by (simp_all add: AuthorUpdate_ok_def author_update_encodable_def)
  from alone_update_author [OF ok this, of "a_id a" "Some (ob_uuid B i s1, ob_now B i s1)" "contents c1"]
  obtain d' where "alone (update_author (a_id a) ?p) (Some (ob_uuid B i s1, ob_now B i s1)) d (Tx d) (contents c1)
      = Some (Returned (AuthorOut_of (changed_author ?p a)), d', contents c1)"
    using a id by (auto simp: spec_update_author_def)
  from finishedE [OF alone [OF 1(2,4) this]]
  obtain s2 c2 where 2: "with_session E C i (update_author (a_id a) ?p) (s1, c1)
        = (Returned (AuthorOut_of (changed_author ?p a)), s2, c2)" "quiet B s2 d'" "contents c2 = contents c1" "up c2"
    by blast
  have ok': "schema_ok d'" using service_setting.quiet_ok [OF assms(1) 2(2)] .
  have "jc_load J (jc_dump J out) = Some out" using assms(4,6) ok by (simp add: cached_shown)
  then have "alone (get_message J k) (Some (ob_uuid B i s2, ob_now B i s2)) d' (Tx d') (contents c2)
      = Some (Returned out, d', contents c2)"
    using 1(3) 2(3) ok' by (simp add: alone_get_message)
  from finishedE [OF alone [OF 2(2,4) this]]
  obtain s3 c3 where "with_session E C i (get_message J k) (s2, c2) = (Returned out, s3, c3)" by blast
  moreover have "ao_name (AuthorOut_of (changed_author ?p a)) = n" by (simp add: AuthorOut_of_def)
  ultimately show ?thesis using 1(1) 2(1) a(3) by (auto simp: out_ids)
qed

theorem renamed_author_stays_in_cached_message_witness:
  "\<exists>out s1 c1 s2 c2 s3 c3 author.
       with_session ref_engine FakeCache 0 (get_message sample_codec 7) (sample_state, empty_cache) = (Returned out, s1, c1)
     \<and> ao_name (mo_author out) = lit ''Ann''
     \<and> with_session ref_engine FakeCache 0 (update_author (ao_id (mo_author out))
           \<lparr>au_name = Some (lit ''Al''), au_email = None\<rparr>) (s1, c1) = (Returned author, s2, c2)
     \<and> ao_name author = lit ''Al''
     \<and> with_session ref_engine FakeCache 0 (get_message sample_codec 7) (s2, c2) = (Returned out, s3, c3)"
proof -
  obtain out where out: "shown_message (abs_store sample_db) 7 = Some out" "ao_name (mo_author out) = lit ''Ann''"
  proof -
    have "shown_message (abs_store sample_db) 7 = MessageOut_of sample_message (Some sample_author)"
      by (simp add: shown_message_def sample_maps) (simp add: sample_message_def sample_maps)
    with that show ?thesis by (simp add: MessageOut_of_def AuthorOut_of_def sample_author_def)
  qed
  have "field_ok ''name'' (lit ''Al'')" using sample_texts by (simp add: field_ok_def NAME_MAX_def)
  moreover have "fake_contents empty_cache (uuid_str 7) = None" by (simp add: fake_contents_def empty_cache_def)
  ultimately show ?thesis
    using renamed_author_stays_in_cached_message [OF ref_service.service_setting_axioms sample_quiet TrueI
        sample_codec_ok, where c = empty_cache and i = 0 and k = 7 and out = out and n = "lit ''Al''"]
      sample_texts(3) out by blast
qed

subsection \<open>The request models and the columns\<close>

text \<open>
  The limits of the request models are the lengths of the columns, so of the texts that passed the
  checks only those with characters a column cannot hold are refused.
\<close>

lemma field_ok_fits_iff:
  "field_ok ''title'' t \<Longrightarrow> text_fits 100 t \<longleftrightarrow> list_all sql_char t"
  "field_ok ''content'' t \<Longrightarrow> text_fits 1000 t \<longleftrightarrow> list_all sql_char t"
  "field_ok ''name'' t \<Longrightarrow> text_fits 50 t \<longleftrightarrow> list_all sql_char t"
  "field_ok ''email'' t \<Longrightarrow> text_fits 100 t \<longleftrightarrow> list_all sql_char t"
  by (auto dest: field_ok_fits [rotated]) (simp_all add: text_fits_def)

lemma check_string_accepts:
  assumes "(f, n) \<in> {(''title'', 100), (''content'', 1000), (''name'', 50), (''email'', 100)}"
    and "text_fits n v" and "py_strip v \<noteq> []" and "f = ''email'' \<longrightarrow> email_shape (py_strip v)"
  shows "check_string (Some v) (Some (lit f)) = Inr (Some (py_strip v))"
proof -
  have "field_ok f (py_strip v)"
    using assms length_py_strip [of v]
    by (auto simp: field_ok_def clean_text_def text_fits_def py_strip_idem TITLE_MAX_def CONTENT_MAX_def NAME_MAX_def
        EMAIL_MAX_def)
  moreover have "f \<in> {''title'', ''content'', ''name'', ''email''}" using assms(1) by auto
  ultimately show ?thesis by (simp add: check_string_Some_iff)
qed

text \<open>A text without blanks at its ends that is not empty.\<close>

definition trimmed :: "pystr \<Rightarrow> bool" where
  "trimmed t \<longleftrightarrow> py_strip t = t \<and> t \<noteq> []"

lemma field_ok_trimmed: "field_ok f t \<Longrightarrow> trimmed t" "field_ok ''email'' t \<Longrightarrow> email_shape t"
  by (auto simp: field_ok_def clean_text_def trimmed_def split: option.splits)

lemma accepted_shape:
  "MessageCreate_ok p \<Longrightarrow> trimmed (mc_title p)" "MessageCreate_ok p \<Longrightarrow> trimmed (mc_content p)"
  "MessageUpdate_ok q \<Longrightarrow> mu_title q = Some t \<Longrightarrow> trimmed t" "MessageUpdate_ok q \<Longrightarrow> trimmed (mu_content q)"
  "AuthorCreate_ok p' \<Longrightarrow> trimmed (ac_name p')" "AuthorCreate_ok p' \<Longrightarrow> email_shape (ac_email p')"
  "AuthorCreate_ok p' \<Longrightarrow> trimmed (ac_email p')" "AuthorUpdate_ok q' \<Longrightarrow> au_email q' = Some e \<Longrightarrow> trimmed e"
  "AuthorUpdate_ok q' \<Longrightarrow> au_name q' = Some n \<Longrightarrow> trimmed n"
  "AuthorUpdate_ok q' \<Longrightarrow> au_email q' = Some e \<Longrightarrow> email_shape e"
  by (auto simp: MessageCreate_ok_def MessageUpdate_ok_def AuthorCreate_ok_def AuthorUpdate_ok_def
      intro: field_ok_trimmed)

lemma MessageCreate_ok_row:
  assumes "MessageCreate_ok p" and "m_title m = mc_title p" and "m_content m = mc_content p" and "m_version m = 0"
  shows "message_row_fits m \<longleftrightarrow> message_encodable p"
  using assms
  by (simp add: MessageCreate_ok_def message_row_fits_def message_encodable_def field_ok_fits_iff int4_fits_def)

lemma MessageUpdate_ok_row:
  assumes "MessageUpdate_ok q" and "message_row_fits m" and "m_version m = mu_version q"
  shows "message_row_fits (changed_message q m) \<longleftrightarrow> message_update_encodable q \<and> mu_version q < MAX_INT4"
proof -
  have "int4_fits (mu_version q + 1) \<longleftrightarrow> mu_version q < MAX_INT4"
    using assms(1) by (auto simp: int4_fits_def MessageUpdate_ok_def MAX_INT4_def)
  moreover have "text_fits 100 (m_title (changed_message q m))
      \<longleftrightarrow> (case mu_title q of None \<Rightarrow> True | Some t \<Rightarrow> list_all sql_char t)"
    using assms(1,2) by (auto simp: MessageUpdate_ok_def message_row_fits_def changed_message_def field_ok_fits_iff
        split: option.split)
  ultimately show ?thesis
    using assms(1,3) by (auto simp: message_row_fits_def message_update_encodable_def MessageUpdate_ok_def field_ok_fits_iff)
qed

lemma AuthorCreate_ok_row:
  assumes "AuthorCreate_ok p" and "a_name a = ac_name p" and "a_email a = ac_email p"
  shows "author_row_fits a \<longleftrightarrow> author_encodable p"
  using assms by (simp add: AuthorCreate_ok_def author_row_fits_def author_encodable_def field_ok_fits_iff)

lemma AuthorUpdate_ok_row:
  assumes "AuthorUpdate_ok q" and "author_row_fits a"
  shows "author_row_fits (changed_author q a) \<longleftrightarrow> author_update_encodable q"
  using assms
  by (auto simp: AuthorUpdate_ok_def author_row_fits_def author_update_encodable_def field_ok_fits_iff split: option.splits)

lemma MessageCreate_accepted:
  "validate_MessageCreate P body = Inr p \<Longrightarrow>
     trimmed (mc_title p) \<and> trimmed (mc_content p)
     \<and> (m_title m = mc_title p \<and> m_content m = mc_content p \<and> m_version m = 0 \<longrightarrow>
          (message_row_fits m \<longleftrightarrow> message_encodable p))"
  by (frule accepted_ok(1)) (simp add: accepted_shape MessageCreate_ok_row)

lemma MessageUpdate_accepted:
  "validate_MessageUpdate P body = Inr q \<Longrightarrow>
     (\<forall>t. mu_title q = Some t \<longrightarrow> trimmed t) \<and> trimmed (mu_content q)
     \<and> (message_row_fits m \<and> m_version m = mu_version q \<longrightarrow>
          (message_row_fits (changed_message q m) \<longleftrightarrow> message_update_encodable q \<and> mu_version q < MAX_INT4))"
  by (frule accepted_ok(2)) (simp add: accepted_shape MessageUpdate_ok_row)

lemma AuthorCreate_accepted:
  "validate_AuthorCreate P body = Inr p \<Longrightarrow>
     trimmed (ac_name p) \<and> trimmed (ac_email p) \<and> email_shape (ac_email p)
     \<and> (a_name a = ac_name p \<and> a_email a = ac_email p \<longrightarrow> (author_row_fits a \<longleftrightarrow> author_encodable p))"
  by (frule accepted_ok(3)) (simp add: accepted_shape AuthorCreate_ok_row)

lemma AuthorUpdate_accepted:
  "validate_AuthorUpdate P body = Inr q \<Longrightarrow>
     (\<forall>n. au_name q = Some n \<longrightarrow> trimmed n) \<and> (\<forall>e. au_email q = Some e \<longrightarrow> trimmed e \<and> email_shape e)
     \<and> (author_row_fits a \<longrightarrow> (author_row_fits (changed_author q a) \<longleftrightarrow> author_update_encodable q))"
  by (frule accepted_ok(4)) (simp add: accepted_shape AuthorUpdate_ok_row)

text \<open>
  C35. The request models agree with the columns of the tables. What they accept is trimmed and not
  blank, an email has the shape of one, and the row it makes fits the columns, their lengths and
  their integers, exactly when its texts have only characters a column can hold and the version of an
  update is not the greatest 32-bit integer; and a text that fits its column is accepted, trimmed,
  unless it is blank (or an email of another shape).
\<close>

theorem accepted_payloads_fit_columns:
  "(\<forall>p m. validate_MessageCreate P body = Inr p \<longrightarrow>
      trimmed (mc_title p) \<and> trimmed (mc_content p)
      \<and> (m_title m = mc_title p \<and> m_content m = mc_content p \<and> m_version m = 0 \<longrightarrow>
           (message_row_fits m \<longleftrightarrow> message_encodable p)))
   \<and> (\<forall>q m. validate_MessageUpdate P body = Inr q \<longrightarrow>
      (\<forall>t. mu_title q = Some t \<longrightarrow> trimmed t) \<and> trimmed (mu_content q)
      \<and> (message_row_fits m \<and> m_version m = mu_version q \<longrightarrow>
           (message_row_fits (changed_message q m) \<longleftrightarrow> message_update_encodable q \<and> mu_version q < MAX_INT4)))
   \<and> (\<forall>p a. validate_AuthorCreate P body = Inr p \<longrightarrow>
      trimmed (ac_name p) \<and> trimmed (ac_email p) \<and> email_shape (ac_email p)
      \<and> (a_name a = ac_name p \<and> a_email a = ac_email p \<longrightarrow> (author_row_fits a \<longleftrightarrow> author_encodable p)))
   \<and> (\<forall>q a. validate_AuthorUpdate P body = Inr q \<longrightarrow>
      (\<forall>n. au_name q = Some n \<longrightarrow> trimmed n) \<and> (\<forall>e. au_email q = Some e \<longrightarrow> trimmed e \<and> email_shape e)
      \<and> (author_row_fits a \<longrightarrow> (author_row_fits (changed_author q a) \<longleftrightarrow> author_update_encodable q)))
   \<and> (\<forall>f n v. (f, n) \<in> {(''title'', 100), (''content'', 1000), (''name'', 50), (''email'', 100)} \<and> text_fits n v
        \<and> py_strip v \<noteq> [] \<and> (f = ''email'' \<longrightarrow> email_shape (py_strip v)) \<longrightarrow>
      check_string (Some v) (Some (lit f)) = Inr (Some (py_strip v)))"
  by (intro conjI; intro allI impI)
    (erule MessageCreate_accepted MessageUpdate_accepted AuthorCreate_accepted AuthorUpdate_accepted
      | (elim conjE, rule check_string_accepts, assumption+))+

definition nul_body :: json where
  "nul_body =
     JObj [(lit ''title'', JStr [97, 0]), (lit ''content'', JStr (lit ''Al'')), (lit ''authorId'', JStr (uuid_str 1))]"

definition nul_payload :: MessageCreate where
  "nul_payload = \<lparr>mc_title = [97, 0], mc_content = lit ''Al'', mc_author_id = 1\<rparr>"

lemma validate_nul_body: "validate_MessageCreate strict_pydantic nul_body = Inr nul_payload"
proof -
  have "clean [97, 0] (lit ''title'') TITLE_MAX = Inr [97, 0]"
    "clean (lit ''Al'') (lit ''content'') CONTENT_MAX = Inr (lit ''Al'')"
    by (simp_all add: clean_def py_strip_def lit_def py_isspace_def TITLE_MAX_def CONTENT_MAX_def)
  then show ?thesis
    by (simp add: validate_MessageCreate_def nul_body_def nul_payload_def str_field_def uuid_field_def
        lookup_field_def check_string_def Let_def)
qed

theorem accepted_payloads_fit_columns_witness:
  "check_string (Some (replicate 100 97)) (Some (lit ''title'')) = Inr (Some (py_strip (replicate 100 97)))
   \<and> \<not> message_row_fits \<lparr>m_id = 3, m_title = [97, 0], m_content = lit ''Al'', m_author_id = 1, m_created_at = 0,
       m_version = 0\<rparr>"
proof -
  have "py_strip (replicate 100 97) \<noteq> []" by (simp add: py_strip_Nil_iff py_isspace_def)
  moreover have "text_fits 100 (replicate 100 97)" by (simp add: text_fits_def list_all_iff sql_char_def)
  moreover have "\<not> message_encodable nul_payload" by (simp add: message_encodable_def nul_payload_def sql_char_def)
  moreover note accepted_payloads_fit_columns [of strict_pydantic nul_body]
  ultimately show ?thesis using validate_nul_body by (auto simp: nul_payload_def)
qed

end
