(* ===== verification/Api.thy ===== *)
theory Api
  imports Messages
begin

section \<open>Endpoints: \<open>app/routers/messages.py\<close> and \<open>app/routers/authors.py\<close>\<close>

text \<open>
  An endpoint takes the raw parts of a request (the id in the path, the query parameters, the JSON
  body), validates all of them, runs a handler of the service layer in a session of its own and
  builds the response. What fails validation is answered by the handler of
  \<open>RequestValidationError\<close>, and what the service raises by the handlers of theory \<open>Problems\<close>.
\<close>

subsection \<open>Environment\<close>

text \<open>
  What the endpoints take from libraries: pydantic's parsers, the JSON text of a message and the
  ISO 8601 text of a timestamp.
\<close>

record api_env =
  en_pydantic :: pydantic
  en_codec :: json_codec
  en_iso :: "int \<Rightarrow> pystr"

subsection \<open>Response bodies\<close>

text \<open>The members of the models under their camelCase aliases.\<close>

definition author_members :: "api_env \<Rightarrow> 'a AuthorOut_scheme \<Rightarrow> (pystr \<times> json) list" where
  "author_members N a =
     [(lit ''id'', JStr (uuid_str (ao_id a))), (lit ''name'', JStr (ao_name a)),
      (lit ''email'', JStr (ao_email a)), (lit ''createdAt'', JStr (en_iso N (ao_created_at a)))]"

definition summary_members :: "api_env \<Rightarrow> 'a MessageSummary_scheme \<Rightarrow> (pystr \<times> json) list" where
  "summary_members N m =
     [(lit ''id'', JStr (uuid_str (ms_id m))), (lit ''title'', JStr (ms_title m)),
      (lit ''content'', JStr (ms_content m)), (lit ''createdAt'', JStr (en_iso N (ms_created_at m))),
      (lit ''version'', JInt (ms_version m))]"

definition author_json :: "api_env \<Rightarrow> AuthorOut \<Rightarrow> json" where
  "author_json N a = JObj (author_members N a)"

definition message_json :: "api_env \<Rightarrow> MessageOut \<Rightarrow> json" where
  "message_json N m = JObj (summary_members N m @ [(lit ''author'', author_json N (mo_author m))])"

text \<open>\<open>response_model_exclude_none\<close>: without its messages an author has no member \<open>messages\<close>.\<close>

definition author_detail_json :: "api_env \<Rightarrow> AuthorDetailOut \<Rightarrow> json" where
  "author_detail_json N a =
     JObj (author_members N a
       @ (case ad_messages a of
            None \<Rightarrow> []
          | Some ms \<Rightarrow> [(lit ''messages'', JList (map (\<lambda>m. JObj (summary_members N m)) ms))]))"

definition page_json :: "('a \<Rightarrow> json) \<Rightarrow> 'a Page \<Rightarrow> json" where
  "page_json item p =
     JObj [(lit ''items'', JList (map item (pg_items p))), (lit ''totalCount'', JInt (int (pg_total_count p)))]"

definition no_content :: response where
  "no_content = \<lparr>rs_status = 204, rs_media = [], rs_headers = [], rs_body = None\<rparr>"

subsection \<open>Parameters\<close>

type_synonym query = "(pystr \<times> pystr) list"

text \<open>The last of several values of a query parameter counts.\<close>

definition query_get :: "query \<Rightarrow> pystr \<Rightarrow> pystr option" where
  "query_get q name = map_of (rev q) name"

definition param_error :: "string \<Rightarrow> pystr \<Rightarrow> pystr \<Rightarrow> type_error \<Rightarrow> verr" where
  "param_error part name v e =
     (case e of (t, ctx, msg) \<Rightarrow>
        \<lparr>ve_type = t, ve_loc = [LStr (lit part), LStr name], ve_ctx = ctx, ve_input = Some (JStr v), ve_msg = msg\<rparr>)"

definition query_int :: "api_env \<Rightarrow> pystr \<Rightarrow> int \<Rightarrow> int \<Rightarrow> int \<Rightarrow> query \<Rightarrow> verr list + int" where
  "query_int N name lo hi dflt q =
     (case query_get q name of
        None \<Rightarrow> Inr dflt
      | Some v \<Rightarrow>
          (case pyd_int (en_pydantic N) (JStr v) of
             Inl e \<Rightarrow> Inl [param_error ''query'' name v e]
           | Inr i \<Rightarrow>
               (case int_bounds lo hi i of Inl e \<Rightarrow> Inl [param_error ''query'' name v e] | Inr j \<Rightarrow> Inr j)))"

definition Limit :: "api_env \<Rightarrow> query \<Rightarrow> verr list + int" where
  "Limit N q = query_int N (lit ''limit'') 1 200 50 q"

definition Offset :: "api_env \<Rightarrow> query \<Rightarrow> verr list + int" where
  "Offset N q = query_int N (lit ''offset'') 0 MAX_INT4 0 q"

text \<open>\<open>Literal["messages"] | None\<close>.\<close>

definition Include :: "query \<Rightarrow> verr list + bool" where
  "Include q =
     (case query_get q (lit ''include'') of
        None \<Rightarrow> Inr False
      | Some v \<Rightarrow>
          if v = lit ''messages'' then Inr True
          else Inl [param_error ''query'' (lit ''include'') v
                 (''literal_error'', Some [(''expected'', CStr (quoted (lit ''messages'')))],
                  lit ''Input should be '' @ quoted (lit ''messages''))])"

definition path_id :: "api_env \<Rightarrow> pystr \<Rightarrow> verr list + uuid" where
  "path_id N v =
     (case pyd_uuid (en_pydantic N) (JStr v) of
        Inl e \<Rightarrow> Inl [param_error ''path'' (lit ''id'') v e] | Inr u \<Rightarrow> Inr u)"

text \<open>Every parameter is validated, and the errors of all of them are reported together.\<close>

definition both :: "verr list + 'a \<Rightarrow> verr list + 'b \<Rightarrow> ('a \<Rightarrow> 'b \<Rightarrow> 'c) \<Rightarrow> verr list + 'c" where
  "both x y f =
     (case (x, y) of (Inr a, Inr b) \<Rightarrow> Inr (f a b) | _ \<Rightarrow> Inl (field_errors x @ field_errors y))"

subsection \<open>The endpoints\<close>

definition ok_json :: "('a \<Rightarrow> json) \<Rightarrow> 'a prog \<Rightarrow> response prog" where
  "ok_json item p = bind_prog p (\<lambda>x. Return (json_response 200 [] (item x)))"

definition list_messages_route :: "api_env \<Rightarrow> query \<Rightarrow> verr list + response prog" where
  "list_messages_route N q =
     both (Limit N q) (Offset N q)
       (\<lambda>limit offset. ok_json (page_json (message_json N)) (list_messages limit offset))"

definition get_message_route :: "api_env \<Rightarrow> pystr \<Rightarrow> verr list + response prog" where
  "get_message_route N v =
     (case path_id N v of Inl e \<Rightarrow> Inl e
      | Inr k \<Rightarrow> Inr (ok_json (message_json N) (get_message (en_codec N) k)))"

definition create_message_route :: "api_env \<Rightarrow> json \<Rightarrow> verr list + response prog" where
  "create_message_route N body =
     (case validate_MessageCreate (en_pydantic N) body of
        Inl e \<Rightarrow> Inl e
      | Inr payload \<Rightarrow>
          Inr (bind_prog (create_message payload)
                (\<lambda>created. Return (json_response 201
                   [(lit ''Location'', lit ''/messages/'' @ uuid_str (ms_id created))]
                   (message_json N created)))))"

definition update_message_route :: "api_env \<Rightarrow> pystr \<Rightarrow> json \<Rightarrow> verr list + response prog" where
  "update_message_route N v body =
     both (path_id N v) (validate_MessageUpdate (en_pydantic N) body)
       (\<lambda>k payload. ok_json (message_json N) (update_message k payload))"

definition delete_message_route :: "api_env \<Rightarrow> pystr \<Rightarrow> verr list + response prog" where
  "delete_message_route N v =
     (case path_id N v of Inl e \<Rightarrow> Inl e
      | Inr k \<Rightarrow> Inr (bind_prog (delete_message k) (\<lambda>_. Return no_content)))"

definition list_authors_route :: "api_env \<Rightarrow> query \<Rightarrow> verr list + response prog" where
  "list_authors_route N q =
     both (Limit N q) (Offset N q)
       (\<lambda>limit offset. ok_json (page_json (author_json N)) (list_authors limit offset))"

definition get_author_route :: "api_env \<Rightarrow> pystr \<Rightarrow> query \<Rightarrow> verr list + response prog" where
  "get_author_route N v q =
     both (path_id N v) (Include q)
       (\<lambda>k include_messages. ok_json (author_detail_json N) (get_author k include_messages))"

definition create_author_route :: "api_env \<Rightarrow> json \<Rightarrow> verr list + response prog" where
  "create_author_route N body =
     (case validate_AuthorCreate (en_pydantic N) body of
        Inl e \<Rightarrow> Inl e
      | Inr payload \<Rightarrow>
          Inr (bind_prog (create_author payload)
                (\<lambda>created. Return (json_response 201
                   [(lit ''Location'', lit ''/authors/'' @ uuid_str (ao_id created))]
                   (author_json N created)))))"

definition update_author_route :: "api_env \<Rightarrow> pystr \<Rightarrow> json \<Rightarrow> verr list + response prog" where
  "update_author_route N v body =
     both (path_id N v) (validate_AuthorUpdate (en_pydantic N) body)
       (\<lambda>k payload. ok_json (author_json N) (update_author k payload))"

definition delete_author_route :: "api_env \<Rightarrow> pystr \<Rightarrow> verr list + response prog" where
  "delete_author_route N v =
     (case path_id N v of Inl e \<Rightarrow> Inl e
      | Inr k \<Rightarrow> Inr (bind_prog (delete_author k) (\<lambda>_. Return no_content)))"

lemmas route_defs = list_messages_route_def get_message_route_def create_message_route_def update_message_route_def
  delete_message_route_def list_authors_route_def get_author_route_def create_author_route_def
  update_author_route_def delete_author_route_def both_def ok_json_def

text \<open>The requests the two routers serve.\<close>

datatype request =
    GetMessages query
  | GetMessage pystr
  | PostMessage json
  | PatchMessage pystr json
  | DeleteMessage pystr
  | GetAuthors query
  | GetAuthor pystr query
  | PostAuthor json
  | PatchAuthor pystr json
  | DeleteAuthor pystr

fun route :: "api_env \<Rightarrow> request \<Rightarrow> verr list + response prog" where
  "route N (GetMessages q) = list_messages_route N q"
| "route N (GetMessage v) = get_message_route N v"
| "route N (PostMessage body) = create_message_route N body"
| "route N (PatchMessage v body) = update_message_route N v body"
| "route N (DeleteMessage v) = delete_message_route N v"
| "route N (GetAuthors q) = list_authors_route N q"
| "route N (GetAuthor v q) = get_author_route N v q"
| "route N (PostAuthor body) = create_author_route N body"
| "route N (PatchAuthor v body) = update_author_route N v body"
| "route N (DeleteAuthor v) = delete_author_route N v"

text \<open>The statuses each route declares: the success and those given to \<open>problem_responses\<close>.\<close>

fun declared_by_route :: "request \<Rightarrow> nat list" where
  "declared_by_route (GetMessages _) = [200, 400]"
| "declared_by_route (GetMessage _) = [200, 400, 404]"
| "declared_by_route (PostMessage _) = [201, 400, 404, 413]"
| "declared_by_route (PatchMessage _ _) = [200, 400, 404, 409, 413]"
| "declared_by_route (DeleteMessage _) = [204, 400, 404]"
| "declared_by_route (GetAuthors _) = [200, 400]"
| "declared_by_route (GetAuthor _ _) = [200, 400, 404]"
| "declared_by_route (PostAuthor _) = [201, 400, 409, 413]"
| "declared_by_route (PatchAuthor _ _) = [200, 400, 404, 409, 413]"
| "declared_by_route (DeleteAuthor _) = [204, 400, 404, 409]"

text \<open>\<open>create_app\<close> declares a 500 for every route (\<open>responses=problem_responses(500)\<close>).\<close>

definition declared :: "request \<Rightarrow> nat list" where
  "declared req = declared_by_route req @ [500]"

text \<open>
  A request from its parts to its response. \<open>Inl\<close>: an exception no handler is registered for; it
  leaves the application (the metrics middleware answers 500, theory \<open>Telemetry\<close>).
\<close>

definition handled :: "scope \<Rightarrow> exn \<Rightarrow> exn + response" where
  "handled sc e = (case handle_exception sc e of None \<Rightarrow> Inl e | Some (r, _) \<Rightarrow> r)"

definition serve ::
  "api_env \<Rightarrow> 's engine \<Rightarrow> 'c cache_api \<Rightarrow> nat \<Rightarrow> scope \<Rightarrow> request \<Rightarrow> 's \<times> 'c
     \<Rightarrow> (exn + response) option \<times> 's \<times> 'c" where
  "serve N E C i sc req w =
     (case route N req of
        Inl errors \<Rightarrow> (Some (handled sc (RequestValidationError errors)), w)
      | Inr p \<Rightarrow>
          (case with_session E C i p w of
             (Returned r, w') \<Rightarrow> (Some (Inr r), w')
           | (Raised e, w') \<Rightarrow> (Some (handled sc e), w')
           | (Waiting, w') \<Rightarrow> (None, w')))"

subsection \<open>From a handler to its response\<close>

lemma handled_service:
  assumes "service_error e" and "utf8_encode (sc_path sc) = Some bs"
  shows "\<exists>r. handled sc (ApiExn e) = Inr r \<and> rs_status r = ae_status e"
proof -
  obtain t where t: "t \<in> snd ` set PROBLEM_TYPES"
    "problem_type_member (problem_slug (ae_type_slug e) (ae_code e)) = Inr (problem_type_uri t)"
    "pt_status t = ae_status e" using service_error_type [OF assms(1)] by blast
  obtain title where title: "http_phrase (ae_status e) = Some title"
    using registry_titles [OF t(1)] t(3) by auto
  obtain q where q: "py_quote [47] (sc_path sc) = Some q" using assms(2) by (auto simp: py_quote_def)
  from problem_response_ok [OF t(2) title q] show ?thesis
    by (simp add: handled_def handle_exception_def api_error_handler_def)
qed

lemma handled_validation:
  assumes "utf8_encode (sc_path sc) = Some bs"
  shows "\<exists>r. handled sc (RequestValidationError es) = Inr r \<and> rs_status r = 400"
proof -
  obtain q where "py_quote [47] (sc_path sc) = Some q" using assms by (auto simp: py_quote_def)
  then show ?thesis
    by (simp add: handled_def handle_exception_def validation_error_handler_def problem_response_def
        problem_slug_def problem_type_member_def)
qed

definition response_of :: "scope \<Rightarrow> ('a \<Rightarrow> response) \<Rightarrow> 'a outcome \<Rightarrow> exn + response" where
  "response_of sc g res =
     (case res of Returned x \<Rightarrow> Inr (g x) | Raised e \<Rightarrow> handled sc e | Waiting \<Rightarrow> Inl (OtherError ''waiting''))"

lemma response_of_simps [simp]:
  "response_of sc g (Returned x) = Inr (g x)" "response_of sc g (Raised e) = handled sc e"
  by (simp_all add: response_of_def)

text \<open>Serving a request alone: the answer of its handler, turned into a response.\<close>

lemma serve_alone:
  assumes "service_setting E B C contents up" and "quiet B s d" and "up c"
    and "route N req = Inr (bind_prog p (\<lambda>x. Return (g x)))"
    and "alone p (Some (ob_uuid B i s, ob_now B i s)) d (Tx d) (contents c) = Some (res, d', m')"
  shows "\<exists>s' c'. serve N E C i sc req (s, c) = (Some (response_of sc g res), s', c')
     \<and> quiet B s' d' \<and> contents c' = m' \<and> up c'"
proof -
  from service_setting.with_session_alone [OF assms(1-3) alone_map [OF assms(5)]]
  obtain s' c' where r: "with_session E C i (bind_prog p (\<lambda>x. Return (g x))) (s, c) = (map_outcome g res, s', c')"
    "quiet B s' d'" "contents c' = m'" "up c'" by (rule finishedE)
  from alone_not_waiting [OF assms(5)] r(1) assms(4)
  have "serve N E C i sc req (s, c) = (Some (response_of sc g res), s', c')"
    by (cases res) (simp_all add: serve_def)
  with r show ?thesis by blast
qed

lemma serve_invalid:
  assumes "utf8_encode (sc_path sc) = Some bs" and "route N req = Inl es"
  shows "\<exists>r. serve N E C i sc req w = (Some (Inr r), w) \<and> rs_status r = 400"
  using handled_validation [OF assms(1)] assms(2) by (auto simp: serve_def)

lemma declared_400: "400 \<in> set (declared_by_route req)"
  by (cases req) simp_all

text \<open>What a specification answers, as a status.\<close>

lemma response_of_answer:
  assumes "utf8_encode (sc_path sc) = Some bs"
    and "\<And>e. res = Inl e \<Longrightarrow> service_error e \<and> ae_status e \<in> S" and "\<And>x. res = Inr x \<Longrightarrow> rs_status (g x) \<in> S"
  shows "\<exists>r. response_of sc g (answer res) = Inr r \<and> rs_status r \<in> S"
proof (cases res)
  case (Inl e)
  with assms(2) handled_service [OF _ assms(1), of e] show ?thesis by auto
next
  case (Inr x)
  with assms(3) show ?thesis by simp
qed

text \<open>
  A response that is one of those its route declares, from a system left at rest with a coherent
  cache.
\<close>

definition serves_declared ::
  "api_env \<Rightarrow> 's engine \<Rightarrow> 's db_obs \<Rightarrow> 'c cache_api \<Rightarrow> ('c \<Rightarrow> contents) \<Rightarrow> ('c \<Rightarrow> bool)
     \<Rightarrow> nat \<Rightarrow> scope \<Rightarrow> request \<Rightarrow> 's \<times> 'c \<Rightarrow> bool" where
  "serves_declared N E B C contents up i sc req w \<longleftrightarrow>
     (\<exists>r s' c' d'. serve N E C i sc req w = (Some (Inr r), s', c') \<and> rs_status r \<in> set (declared_by_route req)
        \<and> quiet B s' d' \<and> up c'
        \<and> ((\<nexists>v body. req = PatchAuthor v body) \<longrightarrow> cache_coherent (en_codec N) (abs_store d') (contents c')))"

text \<open>What a request finds: a system at rest, a coherent cache, fresh ids and a path that is text.\<close>

definition ready ::
  "'s db_obs \<Rightarrow> ('c \<Rightarrow> contents) \<Rightarrow> ('c \<Rightarrow> bool) \<Rightarrow> api_env \<Rightarrow> nat \<Rightarrow> scope \<Rightarrow> 's \<Rightarrow> 'c \<Rightarrow> db \<Rightarrow> bool" where
  "ready B contents up N i sc s c d \<longleftrightarrow>
     quiet B s d \<and> up c \<and> codec_ok (en_codec N) \<and> cache_coherent (en_codec N) (abs_store d) (contents c)
     \<and> author_map d (ob_uuid B i s) = None \<and> message_map d (ob_uuid B i s) = None
     \<and> utf8_encode (sc_path sc) \<noteq> None"

subsection \<open>The errors and statuses of the specifications\<close>

lemma service_errors [simp]:
  "service_error (author_not_found k)" "ae_status (author_not_found k) = 404"
  "service_error (duplicate_email e)" "ae_status (duplicate_email e) = 409"
  "service_error (author_has_messages k)" "ae_status (author_has_messages k) = 409"
  "service_error (message_not_found k)" "ae_status (message_not_found k) = 404"
  "service_error (stale_version k v)" "ae_status (stale_version k v) = 409"
  by (simp_all add: author_not_found_def duplicate_email_def author_has_messages_def message_not_found_def
      stale_version_def)

lemma json_response_sel [simp]:
  "rs_status (json_response st hs body) = st" "rs_headers (json_response st hs body) = hs"
  "rs_body (json_response st hs body) = Some body" "rs_status no_content = 204"
  by (simp_all add: json_response_def no_content_def)

lemma spec_statuses:
  "fst (spec_create_author u now p st) = Inl e \<Longrightarrow> service_error e \<and> ae_status e = 409"
  "fst (spec_update_author k q st) = Inl e \<Longrightarrow> service_error e \<and> ae_status e \<in> {404, 409}"
  "fst (spec_delete_author k st) = Inl e \<Longrightarrow> service_error e \<and> ae_status e \<in> {404, 409}"
  "spec_get_message k st = Inl e \<Longrightarrow> service_error e \<and> ae_status e = 404"
  "fst (spec_create_message u now p' st) = Inl e \<Longrightarrow> service_error e \<and> ae_status e = 404"
  "fst (spec_update_message k q' st) = Inl e \<Longrightarrow> service_error e \<and> ae_status e \<in> {404, 409}"
  "fst (spec_delete_message k st) = Inl e \<Longrightarrow> service_error e \<and> ae_status e = 404"
  by (auto simp: spec_create_author_def spec_update_author_def spec_delete_author_def spec_get_message_def
      spec_create_message_def spec_update_message_def spec_delete_message_def Let_def
      split: if_splits option.splits)

text \<open>
  A request whose texts the database can hold and whose version can be incremented: what a
  validated request may still lack (property \<open>accepted_body_is_refused_by_database\<close>).
\<close>

fun storable :: "api_env \<Rightarrow> request \<Rightarrow> bool" where
  "storable N (PostMessage body) =
     (case validate_MessageCreate (en_pydantic N) body of Inl _ \<Rightarrow> True | Inr p \<Rightarrow> message_encodable p)"
| "storable N (PatchMessage v body) =
     (case validate_MessageUpdate (en_pydantic N) body of Inl _ \<Rightarrow> True
      | Inr p \<Rightarrow> message_update_encodable p \<and> mu_version p < MAX_INT4)"
| "storable N (PostAuthor body) =
     (case validate_AuthorCreate (en_pydantic N) body of Inl _ \<Rightarrow> True | Inr p \<Rightarrow> author_encodable p)"
| "storable N (PatchAuthor v body) =
     (case validate_AuthorUpdate (en_pydantic N) body of Inl _ \<Rightarrow> True | Inr p \<Rightarrow> author_update_encodable p)"
| "storable N _ = True"

lemma Limit_Offset_nonneg: "Limit N q = Inr l \<Longrightarrow> Offset N q = Inr f \<Longrightarrow> 0 \<le> l" "Limit N q = Inr l \<Longrightarrow> Offset N q = Inr f \<Longrightarrow> 0 \<le> f"
  by (auto simp: Limit_def Offset_def query_int_def int_bounds_def split: option.splits sum.splits if_splits)

lemma both_cases:
  obtains (invalid) es where "both x y f = Inl es"
  | (valid) a b where "x = Inr a" "y = Inr b" "both x y f = Inr (f a b)"
  by (cases x; cases y) (simp_all add: both_def)

subsection \<open>Each route\<close>

context service_setting
begin

lemma ready_schema: "ready B contents up N i sc s c d \<Longrightarrow> schema_ok d"
  by (auto simp: ready_def intro: quiet_ok)

lemma valid:
  assumes "ready B contents up N i sc s c d"
    and "route N req = Inr (bind_prog p (\<lambda>x. Return (g x)))"
    and "alone p (Some (ob_uuid B i s, ob_now B i s)) d (Tx d) (contents c) = Some (answer res, d', m')"
    and "(\<nexists>v body. req = PatchAuthor v body) \<Longrightarrow> cache_coherent (en_codec N) (abs_store d') m'"
    and "\<And>e. res = Inl e \<Longrightarrow> service_error e \<and> ae_status e \<in> set (declared_by_route req)"
    and "\<And>x. res = Inr x \<Longrightarrow> rs_status (g x) \<in> set (declared_by_route req)"
  shows "serves_declared N E B C contents up i sc req (s, c)"
proof -
  from assms(1) obtain bs where 1: "quiet B s d" "up c" "utf8_encode (sc_path sc) = Some bs"
    by (auto simp: ready_def)
  have "\<exists>r. response_of sc g (answer res) = Inr r \<and> rs_status r \<in> set (declared_by_route req)"
    by (rule response_of_answer [OF 1(3)]) (erule assms(5), erule assms(6))
  then obtain r where r: "response_of sc g (answer res) = Inr r" "rs_status r \<in> set (declared_by_route req)" by blast
  from serve_alone [where sc = sc, OF service_setting_axioms 1(1,2) assms(2,3)] obtain s' c' where
    s: "serve N E C i sc req (s, c) = (Some (Inr r), s', c')" "quiet B s' d'" "contents c' = m'" "up c'"
    unfolding r(1) by blast
  show ?thesis unfolding serves_declared_def
    by (intro exI [of _ r] exI [of _ s'] exI [of _ c'] exI [of _ d'] conjI s r) (use assms(4) s(3) in simp)
qed

lemma invalid:
  assumes "ready B contents up N i sc s c d" and "route N req = Inl es"
  shows "serves_declared N E B C contents up i sc req (s, c)"
proof -
  from assms(1) obtain bs where 1: "quiet B s d" "up c" "utf8_encode (sc_path sc) = Some bs"
    "cache_coherent (en_codec N) (abs_store d) (contents c)" by (auto simp: ready_def)
  from serve_invalid [OF 1(3) assms(2), where w = "(s, c)"] obtain r where
    "serve N E C i sc req (s, c) = (Some (Inr r), s, c)" "rs_status r = 400" by blast
  with 1 declared_400 [of req] show ?thesis by (auto simp: serves_declared_def)
qed

lemma serve_read:
  assumes "ready B contents up N i sc s c d"
    and "route N req = Inr (bind_prog p (\<lambda>x. Return (g x)))"
    and "alone p (Some (ob_uuid B i s, ob_now B i s)) d (Tx d) (contents c) = Some (Returned x, d, contents c)"
    and "rs_status (g x) \<in> set (declared_by_route req)"
  shows "serves_declared N E B C contents up i sc req (s, c)"
  using valid [OF assms(1,2), where res = "Inr x"] assms by (simp add: ready_def)

lemma serve_list_messages:
  assumes "ready B contents up N i sc s c d"
  shows "serves_declared N E B C contents up i sc (GetMessages q) (s, c)"
proof (rule both_cases [of "Limit N q" "Offset N q"
      "\<lambda>limit offset. ok_json (page_json (message_json N)) (list_messages limit offset)"])
  fix l f assume lf: "Limit N q = Inr l" "Offset N q = Inr f"
  then have r: "route N (GetMessages q) = Inr (bind_prog (list_messages l f) (\<lambda>x. Return (json_response 200 [] (page_json (message_json N) x))))"
    by (simp add: list_messages_route_def both_def ok_json_def)
  from alone_list_messages [OF ready_schema [OF assms] Limit_Offset_nonneg [OF lf]]
  obtain items where "alone (list_messages l f) (Some (ob_uuid B i s, ob_now B i s)) d (Tx d) (contents c)
      = Some (Returned \<lparr>pg_items = items, pg_total_count = length (db_messages d)\<rparr>, d, contents c)" by blast
  then show ?thesis by (rule serve_read [OF assms r]) simp
qed (rule invalid [OF assms], simp add: list_messages_route_def)

lemma serve_list_authors:
  assumes "ready B contents up N i sc s c d"
  shows "serves_declared N E B C contents up i sc (GetAuthors q) (s, c)"
proof (rule both_cases [of "Limit N q" "Offset N q"
      "\<lambda>limit offset. ok_json (page_json (author_json N)) (list_authors limit offset)"])
  fix l f assume lf: "Limit N q = Inr l" "Offset N q = Inr f"
  then have r: "route N (GetAuthors q) = Inr (bind_prog (list_authors l f) (\<lambda>x. Return (json_response 200 [] (page_json (author_json N) x))))"
    by (simp add: list_authors_route_def both_def ok_json_def)
  show ?thesis using alone_list_authors [OF Limit_Offset_nonneg [OF lf]] by (rule serve_read [OF assms r]) simp
qed (rule invalid [OF assms], simp add: list_authors_route_def)

lemma serve_get_message:
  assumes "ready B contents up N i sc s c d"
  shows "serves_declared N E B C contents up i sc (GetMessage v) (s, c)"
proof (cases "path_id N v")
  case (Inl es)
  then show ?thesis by (intro invalid [OF assms]) (simp add: get_message_route_def)
next
  case (Inr k)
  have 1: "codec_ok (en_codec N)" "cache_coherent (en_codec N) (abs_store d) (contents c)"
    using assms by (simp_all add: ready_def)
  from alone_get_message_coherent [OF ready_schema [OF assms] 1, of k "Some (ob_uuid B i s, ob_now B i s)"]
  obtain m' where "alone (get_message (en_codec N) k) (Some (ob_uuid B i s, ob_now B i s)) d (Tx d) (contents c)
      = Some (answer (spec_get_message k (abs_store d)), d, m')" "cache_coherent (en_codec N) (abs_store d) m'" by blast
  then show ?thesis
    by (intro valid [OF assms]) (auto simp: get_message_route_def ok_json_def Inr dest: spec_statuses)
qed

lemma serve_create_message:
  assumes "ready B contents up N i sc s c d" and "storable N (PostMessage body)"
  shows "serves_declared N E B C contents up i sc (PostMessage body) (s, c)"
proof (cases "validate_MessageCreate (en_pydantic N) body")
  case (Inl es)
  then show ?thesis by (intro invalid [OF assms(1)]) (simp add: create_message_route_def)
next
  case (Inr p)
  let ?spec = "spec_create_message (ob_uuid B i s) (ob_now B i s) p (abs_store d)"
  have "MessageCreate_ok p" "message_encodable p" "message_map d (ob_uuid B i s) = None"
    using Inr assms accepted_ok(1) by (auto simp: ready_def)
  with alone_create_message [OF ready_schema [OF assms(1)]] obtain d' where
    a: "alone (create_message p) (Some (ob_uuid B i s, ob_now B i s)) d (Tx d) (contents c)
      = Some (answer (fst ?spec), d', contents c)" "abs_store d' = snd ?spec" by blast
  have "cache_coherent (en_codec N) (abs_store d') (contents c)"
    unfolding a(2) by (rule create_message_coherent) (use assms(1) in \<open>simp_all add: ready_def\<close>)
  with a(1) show ?thesis
    by (intro valid [OF assms(1)]) (auto simp: create_message_route_def Inr dest: spec_statuses)
qed

lemma serve_update_message:
  assumes "ready B contents up N i sc s c d" and "storable N (PatchMessage v body)"
  shows "serves_declared N E B C contents up i sc (PatchMessage v body) (s, c)"
proof (rule both_cases [of "path_id N v" "validate_MessageUpdate (en_pydantic N) body"
      "\<lambda>k p. ok_json (message_json N) (update_message k p)"])
  fix k p assume kp: "path_id N v = Inr k" "validate_MessageUpdate (en_pydantic N) body = Inr p"
  then have r: "route N (PatchMessage v body)
      = Inr (bind_prog (update_message k p) (\<lambda>x. Return (json_response 200 [] (message_json N x))))"
    by (simp add: update_message_route_def both_def ok_json_def)
  have "MessageUpdate_ok p" "message_update_encodable p" "mu_version p < MAX_INT4"
    using kp(2) assms(2) accepted_ok(2) by auto
  with alone_update_message [OF ready_schema [OF assms(1)]] obtain d' where
    a: "alone (update_message k p) (Some (ob_uuid B i s, ob_now B i s)) d (Tx d) (contents c)
      = Some (answer (fst (spec_update_message k p (abs_store d))), d', (contents c)(uuid_str k := None))"
      "abs_store d' = snd (spec_update_message k p (abs_store d))" by blast
  have "cache_coherent (en_codec N) (abs_store d') ((contents c)(uuid_str k := None))"
    unfolding a(2) by (rule update_message_coherent) (use assms(1) in \<open>simp add: ready_def\<close>)
  with a(1) show ?thesis
    by (intro valid [OF assms(1) r]) (auto dest: spec_statuses)
qed (rule invalid [OF assms(1)], simp add: update_message_route_def)

lemma serve_delete_message:
  assumes "ready B contents up N i sc s c d"
  shows "serves_declared N E B C contents up i sc (DeleteMessage v) (s, c)"
proof (cases "path_id N v")
  case (Inl es)
  then show ?thesis by (intro invalid [OF assms]) (simp add: delete_message_route_def)
next
  case (Inr k)
  from alone_delete_message [OF ready_schema [OF assms], of k "Some (ob_uuid B i s, ob_now B i s)" "contents c"]
  obtain d' where a: "alone (delete_message k) (Some (ob_uuid B i s, ob_now B i s)) d (Tx d) (contents c)
      = Some (answer (fst (spec_delete_message k (abs_store d))), d', (contents c)(uuid_str k := None))"
      "abs_store d' = snd (spec_delete_message k (abs_store d))" by blast
  have "cache_coherent (en_codec N) (abs_store d') ((contents c)(uuid_str k := None))"
    unfolding a(2) by (rule delete_message_coherent) (use assms in \<open>simp add: ready_def\<close>)
  with a(1) show ?thesis
    by (intro valid [OF assms]) (auto simp: delete_message_route_def Inr dest: spec_statuses)
qed

lemma serve_get_author:
  assumes "ready B contents up N i sc s c d"
  shows "serves_declared N E B C contents up i sc (GetAuthor v q) (s, c)"
proof (rule both_cases [of "path_id N v" "Include q" "\<lambda>k inc. ok_json (author_detail_json N) (get_author k inc)"])
  fix k inc assume "path_id N v = Inr k" "Include q = Inr inc"
  then have r: "route N (GetAuthor v q)
      = Inr (bind_prog (get_author k inc) (\<lambda>x. Return (json_response 200 [] (author_detail_json N x))))"
    by (simp add: get_author_route_def both_def ok_json_def)
  note a = alone_get_author [OF ready_schema [OF assms], of k inc "Some (ob_uuid B i s, ob_now B i s)" "contents c"]
  show ?thesis
  proof (cases "author_map d k")
    case None
    with a have "alone (get_author k inc) (Some (ob_uuid B i s, ob_now B i s)) d (Tx d) (contents c)
        = Some (answer (Inl (author_not_found k)), d, contents c)" by simp
    then show ?thesis by (rule valid [OF assms r]) (use assms in \<open>auto simp: ready_def\<close>)
  next
    case (Some a')
    with a have "\<exists>x. alone (get_author k inc) (Some (ob_uuid B i s, ob_now B i s)) d (Tx d) (contents c)
        = Some (Returned x, d, contents c)" by simp
    then show ?thesis by (auto intro: serve_read [OF assms r])
  qed
qed (rule invalid [OF assms], simp add: get_author_route_def)

lemma serve_create_author:
  assumes "ready B contents up N i sc s c d" and "storable N (PostAuthor body)"
  shows "serves_declared N E B C contents up i sc (PostAuthor body) (s, c)"
proof (cases "validate_AuthorCreate (en_pydantic N) body")
  case (Inl es)
  then show ?thesis by (intro invalid [OF assms(1)]) (simp add: create_author_route_def)
next
  case (Inr p)
  let ?spec = "spec_create_author (ob_uuid B i s) (ob_now B i s) p (abs_store d)"
  have "AuthorCreate_ok p" "author_encodable p" "author_map d (ob_uuid B i s) = None"
    using Inr assms accepted_ok(3) by (auto simp: ready_def)
  with alone_create_author [OF ready_schema [OF assms(1)]] obtain d' where
    a: "alone (create_author p) (Some (ob_uuid B i s, ob_now B i s)) d (Tx d) (contents c)
      = Some (answer (fst ?spec), d', contents c)" "abs_store d' = snd ?spec" by blast
  have "cache_coherent (en_codec N) (abs_store d') (contents c)"
    unfolding a(2) by (rule create_author_coherent) (use assms(1) in \<open>simp_all add: ready_def\<close>)
  with a(1) show ?thesis
    by (intro valid [OF assms(1)]) (auto simp: create_author_route_def Inr dest: spec_statuses)
qed

lemma serve_update_author:
  assumes "ready B contents up N i sc s c d" and "storable N (PatchAuthor v body)"
  shows "serves_declared N E B C contents up i sc (PatchAuthor v body) (s, c)"
proof (rule both_cases [of "path_id N v" "validate_AuthorUpdate (en_pydantic N) body"
      "\<lambda>k p. ok_json (author_json N) (update_author k p)"])
  fix k p assume kp: "path_id N v = Inr k" "validate_AuthorUpdate (en_pydantic N) body = Inr p"
  then have r: "route N (PatchAuthor v body)
      = Inr (bind_prog (update_author k p) (\<lambda>x. Return (json_response 200 [] (author_json N x))))"
    by (simp add: update_author_route_def both_def ok_json_def)
  have "AuthorUpdate_ok p" "author_update_encodable p" using kp(2) assms(2) accepted_ok(4) by auto
  with alone_update_author [OF ready_schema [OF assms(1)]] obtain d' where
    "alone (update_author k p) (Some (ob_uuid B i s, ob_now B i s)) d (Tx d) (contents c)
      = Some (answer (fst (spec_update_author k p (abs_store d))), d', contents c)" by blast
  then show ?thesis
    by (intro valid [OF assms(1) r]) (auto dest: spec_statuses)
qed (rule invalid [OF assms(1)], simp add: update_author_route_def)

lemma serve_delete_author:
  assumes "ready B contents up N i sc s c d"
  shows "serves_declared N E B C contents up i sc (DeleteAuthor v) (s, c)"
proof (cases "path_id N v")
  case (Inl es)
  then show ?thesis by (intro invalid [OF assms]) (simp add: delete_author_route_def)
next
  case (Inr k)
  from alone_delete_author [OF ready_schema [OF assms], of k "Some (ob_uuid B i s, ob_now B i s)" "contents c"]
  obtain d' where a: "alone (delete_author k) (Some (ob_uuid B i s, ob_now B i s)) d (Tx d) (contents c)
      = Some (answer (fst (spec_delete_author k (abs_store d))), d', contents c)"
      "abs_store d' = snd (spec_delete_author k (abs_store d))" by blast
  have "cache_coherent (en_codec N) (abs_store d') (contents c)"
    unfolding a(2) by (rule delete_author_coherent) (use assms in \<open>simp add: ready_def\<close>)
  with a(1) show ?thesis
    by (intro valid [OF assms]) (auto simp: delete_author_route_def Inr dest: spec_statuses)
qed

lemmas serve_each =
  serve_list_messages serve_get_message serve_create_message serve_update_message serve_delete_message
  serve_list_authors serve_get_author serve_create_author serve_update_author serve_delete_author

end

subsection \<open>Properties\<close>

text \<open>
  A request that is alone on a working database, with the cache up and coherent and texts the columns
  can hold, is answered with a status its router declares, the success or one of the errors given to
  \<open>problem_responses\<close>, never with an unhandled exception. The answer leaves the system at rest and,
  but for an update of an author, the cache coherent. (Theory \<open>Stack\<close> has what holds of every request.)
\<close>

theorem responses_are_declared:
  assumes "service_setting E B C contents up" and "ready B contents up N i sc s c d" and "storable N req"
  shows "\<exists>r s' c' d'. serve N E C i sc req (s, c) = (Some (Inr r), s', c')
     \<and> rs_status r \<in> set (declared_by_route req) \<and> quiet B s' d' \<and> up c'
     \<and> ((\<nexists>v body. req = PatchAuthor v body) \<longrightarrow> cache_coherent (en_codec N) (abs_store d') (contents c'))"
proof -
  have "serves_declared N E B C contents up i sc req (s, c)"
    using assms(3) service_setting.serve_each [OF assms(1,2)] by (cases req) simp_all
  then show ?thesis by (simp add: serves_declared_def)
qed

definition sample_env :: api_env where
  "sample_env = \<lparr>en_pydantic = strict_pydantic, en_codec = sample_codec, en_iso = int_str\<rparr>"

definition sample_scope :: scope where
  "sample_scope = http_scope (lit ''PATCH'') (lit ''/messages'')"

lemma sample_ready: "ready ref_obs fake_contents (\<lambda>_. True) sample_env i sample_scope sample_state empty_cache sample_db"
  by (simp add: ready_def sample_quiet sample_env_def sample_codec_ok sample_engine sample_maps
      cache_coherent_def fake_contents_def empty_cache_def sample_scope_def http_scope_def lit_def utf8_char_def)

lemma sample_env_sel [simp]:
  "en_pydantic sample_env = strict_pydantic" "en_codec sample_env = sample_codec" "en_iso sample_env = int_str"
  by (simp_all add: sample_env_def)

theorem responses_are_declared_witness:
  "\<exists>r s' c'. serve sample_env ref_engine FakeCache 0 sample_scope (DeleteAuthor (uuid_str 1)) (sample_state, empty_cache)
       = (Some (Inr r), s', c') \<and> rs_status r \<in> {204, 400, 404, 409}"
  using responses_are_declared [OF ref_service.service_setting_axioms sample_ready,
      where i = 0 and req = "DeleteAuthor (uuid_str 1)"] by fastforce

text \<open>
  C32. A page never has more than 200 items: \<open>limit\<close> is between 1 and 200 and 50 when it is absent,
  \<open>offset\<close> is between 0 and the greatest 32-bit integer and 0 when it is absent. A value outside the
  bounds of its parameter is not clamped, it is reported under the name of the parameter with the
  bound it missed, and a value within them is taken as it is.
\<close>

theorem pagination_bounds:
  "(Limit N q = Inr l \<longrightarrow> 1 \<le> l \<and> l \<le> 200 \<and> length (page l f xs) \<le> 200)
   \<and> (Offset N q = Inr f \<longrightarrow> 0 \<le> f \<and> f \<le> MAX_INT4)
   \<and> (query_get q (lit ''limit'') = None \<longrightarrow> Limit N q = Inr 50)
   \<and> (query_get q (lit ''offset'') = None \<longrightarrow> Offset N q = Inr 0)
   \<and> (query_get q (lit ''limit'') = Some v \<and> pyd_int (en_pydantic N) (JStr v) = Inr k \<longrightarrow>
        (if k < 1 then \<exists>e. Limit N q = Inl [e] \<and> invalid_param_of e = (lit ''limit'', lit ''limit must be at least 1'')
         else if 200 < k then \<exists>e. Limit N q = Inl [e]
           \<and> invalid_param_of e = (lit ''limit'', lit ''limit must not exceed 200'')
         else Limit N q = Inr k))
   \<and> (query_get q (lit ''offset'') = Some v' \<and> pyd_int (en_pydantic N) (JStr v') = Inr k' \<longrightarrow>
        (if k' < 0 then \<exists>e. Offset N q = Inl [e] \<and> invalid_param_of e = (lit ''offset'', lit ''offset must not be negative'')
         else if 2147483647 < k' then \<exists>e. Offset N q = Inl [e]
           \<and> invalid_param_of e = (lit ''offset'', lit ''offset must not exceed 2147483647'')
         else Offset N q = Inr k'))"
proof -
  have bounds: "query_int N name lo hi dflt q = Inr x \<Longrightarrow> lo \<le> dflt \<Longrightarrow> dflt \<le> hi \<Longrightarrow> lo \<le> x \<and> x \<le> hi"
    for name lo hi dflt x
    by (auto simp: query_int_def int_bounds_def split: option.splits sum.splits if_splits)
  have num: "int_str 1 = lit ''1''" "int_str 200 = lit ''200''" "int_str 2147483647 = lit ''2147483647''"
    by (simp_all add: int_str_def nat_str.simps lit_def)
  have page: "length (page l f xs) \<le> 200" if "l \<le> 200" using that by (simp add: page_def)
  have limit: "(if k < 1 then \<exists>e. Limit N q = Inl [e] \<and> invalid_param_of e = (lit ''limit'', lit ''limit must be at least 1'')
         else if 200 < k then \<exists>e. Limit N q = Inl [e]
           \<and> invalid_param_of e = (lit ''limit'', lit ''limit must not exceed 200'')
         else Limit N q = Inr k)"
    if "query_get q (lit ''limit'') = Some v" "pyd_int (en_pydantic N) (JStr v) = Inr k"
    using that
    by (simp add: Limit_def query_int_def int_bounds_def param_error_def invalid_param_of_def reason_def
        param_name_def List.map_filter_def ctx_get_def num lit_append [symmetric])
  have offset: "(if k' < 0 then \<exists>e. Offset N q = Inl [e] \<and> invalid_param_of e = (lit ''offset'', lit ''offset must not be negative'')
         else if 2147483647 < k' then \<exists>e. Offset N q = Inl [e]
           \<and> invalid_param_of e = (lit ''offset'', lit ''offset must not exceed 2147483647'')
         else Offset N q = Inr k')"
    if "query_get q (lit ''offset'') = Some v'" "pyd_int (en_pydantic N) (JStr v') = Inr k'"
    using that
    by (simp add: Offset_def query_int_def int_bounds_def param_error_def invalid_param_of_def reason_def MAX_INT4_def
        param_name_def List.map_filter_def ctx_get_def num lit_append [symmetric])
  have within: "Limit N q = Inr l \<Longrightarrow> 1 \<le> l \<and> l \<le> 200" "Offset N q = Inr f \<Longrightarrow> 0 \<le> f \<and> f \<le> MAX_INT4"
    using bounds [of "lit ''limit''" 1 200 50 l] bounds [of "lit ''offset''" 0 MAX_INT4 0 f]
    by (simp_all add: Limit_def Offset_def MAX_INT4_def)
  have absent: "query_get q (lit ''limit'') = None \<Longrightarrow> Limit N q = Inr 50"
    "query_get q (lit ''offset'') = None \<Longrightarrow> Offset N q = Inr 0"
    by (simp_all add: Limit_def Offset_def query_int_def)
  show ?thesis by (intro conjI impI) (use within page absent limit offset in blast)+
qed

definition reading_env :: "int \<Rightarrow> api_env" where
  "reading_env i = sample_env\<lparr>en_pydantic := strict_pydantic\<lparr>pyd_int := \<lambda>_. Inr i\<rparr>\<rparr>"

theorem pagination_bounds_witness:
  "Limit sample_env [] = Inr 50 \<and> Offset sample_env [] = Inr 0
   \<and> (\<exists>e. Limit (reading_env 201) [(lit ''limit'', lit ''201'')] = Inl [e]
        \<and> invalid_param_of e = (lit ''limit'', lit ''limit must not exceed 200''))
   \<and> (\<exists>e. Offset (reading_env (- 1)) [(lit ''offset'', lit ''-1'')] = Inl [e]
        \<and> invalid_param_of e = (lit ''offset'', lit ''offset must not be negative''))"
proof -
  have "query_get [(lit ''limit'', lit ''201'')] (lit ''limit'') = Some (lit ''201'')"
    "query_get [(lit ''offset'', lit ''-1'')] (lit ''offset'') = Some (lit ''-1'')"
    by (simp_all add: query_get_def)
  moreover have "query_get [] name = None" for name by (simp add: query_get_def)
  ultimately show ?thesis
    using pagination_bounds [where N = sample_env and q = "[]" and l = 50 and f = 0 and xs = "[] :: nat list"]
      pagination_bounds [where N = "reading_env 201" and q = "[(lit ''limit'', lit ''201'')]" and l = 50 and f = 0
        and xs = "[] :: nat list" and v = "lit ''201''" and k = 201]
      pagination_bounds [where N = "reading_env (- 1)" and q = "[(lit ''offset'', lit ''-1'')]" and l = 50 and f = 0
        and xs = "[] :: nat list" and v' = "lit ''-1''" and k' = "- 1"]
    by (simp add: reading_env_def)
qed

text \<open>What a GET of one message answers, and what a POST that was answered 201 has done.\<close>

lemma serve_message_get:
  assumes "service_setting E B C contents up" and "quiet B s d" and "up c" and "path_id N v = Inr k"
    and "alone (get_message (en_codec N) k) (Some (ob_uuid B i s, ob_now B i s)) d (Tx d) (contents c)
      = Some (answer res, d, m')"
  shows "\<exists>s' c'. serve N E C i sc (GetMessage v) (s, c)
    = (Some (response_of sc (\<lambda>x. json_response 200 [] (message_json N x)) (answer res)), s', c')"
proof -
  have "route N (GetMessage v)
      = Inr (bind_prog (get_message (en_codec N) k) (\<lambda>x. Return (json_response 200 [] (message_json N x))))"
    by (simp add: get_message_route_def assms(4) ok_json_def)
  from serve_alone [where sc = sc, OF assms(1-3) this assms(5)] show ?thesis by blast
qed

lemma created_payload:
  assumes "utf8_encode (sc_path sc) = Some bs"
    and "serve N E C i sc (PostMessage body) w = (Some (Inr r), w1)" and "rs_status r = 201"
  obtains p where "validate_MessageCreate (en_pydantic N) body = Inr p"
proof (cases "validate_MessageCreate (en_pydantic N) body")
  case (Inl es)
  then have "route N (PostMessage body) = Inl es" by (simp add: create_message_route_def)
  from serve_invalid [OF assms(1) this, where E = E and C = C and i = i and w = w] assms(2,3) have False by simp
  then show ?thesis ..
qed (use that in blast)

lemma serve_post_created:
  assumes "service_setting E B C contents up" and "ready B contents up N i sc s c d"
    and "serve N E C i sc (PostMessage body) (s, c) = (Some (Inr r), s1, c1)" and "rs_status r = 201"
    and "storable N (PostMessage body)"
  obtains out d1 where
    "r = json_response 201 [(lit ''Location'', lit ''/messages/'' @ uuid_str (ms_id out))] (message_json N out)"
    "quiet B s1 d1" "up c1" "cache_coherent (en_codec N) (abs_store d1) (contents c1)"
    "shown_message (abs_store d1) (ms_id out) = Some out"
proof -
  have ok: "schema_ok d" using service_setting.ready_schema [OF assms(1,2)] .
  from assms(2) obtain bs where 1: "quiet B s d" "up c" "utf8_encode (sc_path sc) = Some bs"
    "cache_coherent (en_codec N) (abs_store d) (contents c)"
    "message_map d (ob_uuid B i s) = None" by (auto simp: ready_def)
  obtain p where p: "validate_MessageCreate (en_pydantic N) body = Inr p"
    by (rule created_payload [OF 1(3) assms(3,4)])
  let ?u = "ob_uuid B i s"
  let ?spec = "spec_create_message ?u (ob_now B i s) p (abs_store d)"
  let ?g = "\<lambda>created. json_response 201 [(lit ''Location'', lit ''/messages/'' @ uuid_str (ms_id created))]
      (message_json N created)"
  have "MessageCreate_ok p" "message_encodable p" using p assms(5) accepted_ok(1) by auto
  with alone_create_message [OF ok 1(5)] obtain d1 where
    a: "alone (create_message p) (Some (?u, ob_now B i s)) d (Tx d) (contents c)
      = Some (answer (fst ?spec), d1, contents c)" "abs_store d1 = snd ?spec" by blast
  have rt: "route N (PostMessage body) = Inr (bind_prog (create_message p) (\<lambda>x. Return (?g x)))"
    by (simp add: create_message_route_def p)
  from serve_alone [where sc = sc, OF assms(1) 1(1,2) rt a(1)] assms(3) have
    s1: "response_of sc ?g (answer (fst ?spec)) = Inr r" "quiet B s1 d1" "contents c1 = contents c" "up c1"
    by auto
  obtain out where out: "fst ?spec = Inr out"
  proof (cases "fst ?spec")
    case (Inl e)
    with spec_statuses(5) [OF Inl] handled_service [OF _ 1(3), of e] s1(1) assms(4) show ?thesis by auto
  qed (use that in blast)
  then have shown: "shown_message (abs_store d1) ?u = Some out" and id: "ms_id out = ?u"
    unfolding a(2) by (auto simp: spec_create_message_def shown_message_def MessageOut_of_def Let_def split: option.splits)
  have "cache_coherent (en_codec N) (abs_store d1) (contents c1)"
    unfolding a(2) s1(3) by (rule create_message_coherent) (use 1(4,5) in simp_all)
  with s1 out shown id show ?thesis by (intro that [of out d1]) simp_all
qed

text \<open>
  C31. The \<open>Location\<close> of a created message can be dereferenced: it is \<open>/messages/\<close> and an id, and a
  GET of that id answers 200 with the very representation the POST returned.
\<close>

theorem created_message_is_at_its_location:
  assumes "service_setting E B C contents up" and "ready B contents up N i sc s c d"
    and "\<And>u. pyd_uuid (en_pydantic N) (JStr (uuid_str u)) = Inr u"
    and "serve N E C i sc (PostMessage body) (s, c) = (Some (Inr r), s1, c1)" and "rs_status r = 201"
    and "storable N (PostMessage body)"
  shows "\<exists>v r2 s2 c2. rs_headers r = [(lit ''Location'', lit ''/messages/'' @ v)]
     \<and> serve N E C i sc2 (GetMessage v) (s1, c1) = (Some (Inr r2), s2, c2)
     \<and> rs_status r2 = 200 \<and> rs_body r2 = rs_body r"
proof -
  have J: "codec_ok (en_codec N)" using assms(2) by (simp add: ready_def)
  obtain out d1 where r: "r = json_response 201 [(lit ''Location'', lit ''/messages/'' @ uuid_str (ms_id out))] (message_json N out)"
    and 1: "quiet B s1 d1" "up c1" and c: "cache_coherent (en_codec N) (abs_store d1) (contents c1)"
    and shown: "shown_message (abs_store d1) (ms_id out) = Some out"
    by (rule serve_post_created [OF assms(1,2,4,5,6)])
  from alone_get_message_coherent [OF service_setting.quiet_ok [OF assms(1) 1(1)] J c] shown
  obtain m where "alone (get_message (en_codec N) (ms_id out)) (Some (ob_uuid B i s1, ob_now B i s1)) d1 (Tx d1) (contents c1)
      = Some (answer (Inr out), d1, m)" by (fastforce simp: spec_get_message_def)
  moreover have "path_id N (uuid_str (ms_id out)) = Inr (ms_id out)" by (simp add: path_id_def assms(3))
  ultimately obtain s2 c2 where "serve N E C i sc2 (GetMessage (uuid_str (ms_id out))) (s1, c1)
      = (Some (Inr (json_response 200 [] (message_json N out))), s2, c2)"
    using serve_message_get [OF assms(1) 1, where sc = sc2] by fastforce
  with r show ?thesis by auto
qed

definition sample_post :: json where
  "sample_post =
     JObj [(lit ''title'', JStr (lit ''Cy'')), (lit ''content'', JStr (lit ''Al'')), (lit ''authorId'', JStr (uuid_str 2))]"

lemma validate_sample_post: "validate_MessageCreate strict_pydantic sample_post = Inr sample_message_payload"
proof -
  have "clean (lit ''Cy'') (lit ''title'') TITLE_MAX = Inr (lit ''Cy'')"
    "clean (lit ''Al'') (lit ''content'') CONTENT_MAX = Inr (lit ''Al'')"
    by (simp_all add: clean_def py_strip_def lit_def py_isspace_def TITLE_MAX_def CONTENT_MAX_def)
  then show ?thesis
    by (simp add: validate_MessageCreate_def sample_post_def sample_message_payload_def str_field_def uuid_field_def
        lookup_field_def check_string_def Let_def)
qed

lemma serve_sample_post:
  "\<exists>r s1 c1. serve sample_env ref_engine FakeCache 0 sc (PostMessage sample_post) (sample_state, empty_cache)
     = (Some (Inr r), s1, c1) \<and> rs_status r = 201"
proof -
  have "\<exists>out. fst (spec_create_message 40 0 sample_message_payload (abs_store sample_db)) = Inr out"
    by (simp add: spec_create_message_def MessageOut_of_def sample_maps sample_message_payload_def)
  then obtain out d' where "alone (create_message sample_message_payload)
      (Some (ob_uuid ref_obs 0 sample_state, ob_now ref_obs 0 sample_state)) sample_db (Tx sample_db) (fake_contents empty_cache)
      = Some (answer (Inr out), d', fake_contents empty_cache)"
    using alone_create_message [OF sample_schema sample_maps(5) sample_payloads_ok(1,2),
      of 0 "fake_contents empty_cache"]
    by (auto simp: sample_engine)
  from serve_alone [where sc = sc and N = sample_env and req = "PostMessage sample_post",
      OF ref_service.service_setting_axioms sample_quiet TrueI _ this]
  show ?thesis by (fastforce simp: create_message_route_def validate_sample_post)
qed

theorem created_message_is_at_its_location_witness:
  "\<exists>r s1 c1 v r2 s2 c2.
     serve sample_env ref_engine FakeCache 0 sample_scope (PostMessage sample_post) (sample_state, empty_cache)
       = (Some (Inr r), s1, c1)
     \<and> rs_headers r = [(lit ''Location'', lit ''/messages/'' @ v)]
     \<and> serve sample_env ref_engine FakeCache 0 sample_scope (GetMessage v) (s1, c1) = (Some (Inr r2), s2, c2)
     \<and> rs_body r2 = rs_body r"
proof -
  from serve_sample_post obtain r s1 c1 where
    r: "serve sample_env ref_engine FakeCache 0 sample_scope (PostMessage sample_post) (sample_state, empty_cache)
      = (Some (Inr r), s1, c1)" "rs_status r = 201" by blast
  have "storable sample_env (PostMessage sample_post)"
    using sample_payloads_ok(2) by (simp add: validate_sample_post)
  from created_message_is_at_its_location [OF ref_service.service_setting_axioms sample_ready _ r this,
      where ?sc2.0 = sample_scope] r(1)
  show ?thesis by fastforce
qed

subsection \<open>Bodies that validation accepts and the database refuses\<close>

lemma str_field_accepts:
  assumes "pydantic_ok P" and "f \<in> {''title'', ''content'', ''name'', ''email''}"
    and "json_get (lit f) body = Some (JStr t)" and "field_ok f t"
  shows "str_field P (lit f) body = Inr t"
proof -
  have "py_strip t = t" using field_ok_trimmed(1) [OF assms(4)] by (simp add: trimmed_def)
  with assms(2,4) have "check_string (Some t) (Some (lit f)) = Inr (Some t)" by (simp add: check_string_Some_iff)
  with assms(1,3) show ?thesis by (simp add: str_field_def lookup_field_def pydantic_ok_def)
qed

lemma trimmed_field_ok:
  "trimmed t \<Longrightarrow> length t \<le> 100 \<Longrightarrow> field_ok ''title'' t" "trimmed t \<Longrightarrow> length t \<le> 1000 \<Longrightarrow> field_ok ''content'' t"
  by (simp_all add: field_ok_def clean_text_def trimmed_def TITLE_MAX_def CONTENT_MAX_def)

definition create_body :: "pystr \<Rightarrow> pystr \<Rightarrow> uuid \<Rightarrow> json" where
  "create_body title content author =
     JObj [(lit ''title'', JStr title), (lit ''content'', JStr content), (lit ''authorId'', JStr (uuid_str author))]"

definition update_body :: "pystr \<Rightarrow> int \<Rightarrow> json" where
  "update_body content version = JObj [(lit ''content'', JStr content), (lit ''version'', JInt version)]"

lemma validate_create_body:
  assumes "pydantic_ok P" and "field_ok ''title'' t" and "field_ok ''content'' x"
  shows "validate_MessageCreate P (create_body t x a) = Inr \<lparr>mc_title = t, mc_content = x, mc_author_id = a\<rparr>"
proof -
  let ?body = "create_body t x a"
  have "str_field P (lit ''title'') ?body = Inr t" "str_field P (lit ''content'') ?body = Inr x"
    by (rule str_field_accepts [OF assms(1)]; use assms(2,3) in \<open>simp add: create_body_def\<close>)+
  moreover have "uuid_field P (lit ''authorId'') (lit ''author_id'') ?body = Inr a"
    using assms(1) by (simp add: uuid_field_def lookup_field_def create_body_def pydantic_ok_def)
  ultimately show ?thesis by (simp add: validate_MessageCreate_def Let_def) (simp add: create_body_def)
qed

lemma validate_update_body:
  assumes "pydantic_ok P" and "field_ok ''content'' x" and "0 \<le> v" and "v \<le> MAX_INT4"
  shows "validate_MessageUpdate P (update_body x v) = Inr \<lparr>mu_title = None, mu_content = x, mu_version = v\<rparr>"
proof -
  let ?body = "update_body x v"
  have "str_field P (lit ''content'') ?body = Inr x"
    by (rule str_field_accepts [OF assms(1)]; use assms(2) in \<open>simp add: update_body_def\<close>)
  moreover have "int_field P (lit ''version'') 0 MAX_INT4 ?body = Inr v"
    using assms(1,3,4) by (simp add: int_field_def int_bounds_def lookup_field_def update_body_def pydantic_ok_def)
  moreover have "optional_str_field P (lit ''title'') ?body = Inr None"
    by (simp add: optional_str_field_def lookup_field_def update_body_def)
  ultimately show ?thesis by (simp add: validate_MessageUpdate_def Let_def) (simp add: update_body_def)
qed

text \<open>
  C30. Two kinds of bodies pass validation and are refused by the database: a new message of an
  existing author with a NUL in its title or content, and an update that names the greatest 32-bit
  version of a message that is at this version. Neither is answered with a 400 or a 409: the
  database's error leaves the application (and becomes a 500), and nothing is changed.
\<close>

theorem accepted_body_is_refused_by_database:
  assumes "service_setting E B C contents up" and "quiet B s d" and "up c" and "pydantic_ok (en_pydantic N)"
  shows "(\<forall>t x a. author_map d a \<noteq> None \<and> trimmed t \<and> length t \<le> 100 \<and> trimmed x \<and> length x \<le> 1000
        \<and> 0 \<in> set (t @ x) \<and> (\<forall>ch \<in> set (t @ x). ch = 0 \<or> sql_char ch) \<longrightarrow>
      (\<exists>s' c'. serve N E C i sc (PostMessage (create_body t x a)) (s, c) = (Some (Inl (DatabaseError ''22021'')), s', c')
         \<and> quiet B s' d \<and> contents c' = contents c))
   \<and> (\<forall>k x. map_option m_version (message_map d k) = Some MAX_INT4
        \<and> trimmed x \<and> length x \<le> 1000 \<and> list_all sql_char x \<longrightarrow>
      (\<exists>s' c'. serve N E C i sc (PatchMessage (uuid_str k) (update_body x MAX_INT4)) (s, c)
           = (Some (Inl (DatabaseError ''22003'')), s', c')
         \<and> quiet B s' d \<and> contents c' = contents c))"
proof -
  have ok: "schema_ok d" using service_setting.quiet_ok [OF assms(1,2)] .
  have handled: "handled sc (DatabaseError e) = Inl (DatabaseError e)" for e
    by (simp add: handled_def handle_exception_def)
  have post: "\<exists>s' c'. serve N E C i sc (PostMessage (create_body t x a)) (s, c) = (Some (Inl (DatabaseError ''22021'')), s', c')
       \<and> quiet B s' d \<and> contents c' = contents c"
    if asm: "author_map d a \<noteq> None \<and> trimmed t \<and> length t \<le> 100 \<and> trimmed x \<and> length x \<le> 1000
        \<and> 0 \<in> set (t @ x) \<and> (\<forall>ch \<in> set (t @ x). ch = 0 \<or> sql_char ch)" for t x a
  proof -
    from asm obtain r where that: "author_map d a = Some r" "field_ok ''title'' t" "field_ok ''content'' x"
      "0 \<in> set (t @ x)" "\<forall>ch \<in> set (t @ x). ch = 0 \<or> sql_char ch" by (auto intro: trimmed_field_ok)
    let ?p = "\<lparr>mc_title = t, mc_content = x, mc_author_id = a\<rparr>"
    have "alone (create_message ?p) (Some (ob_uuid B i s, ob_now B i s)) d (Tx d) (contents c)
        = Some (Raised (DatabaseError ''22021''), d, contents c)"
      by (rule alone_create_message_nul [OF ok]) (use that in simp_all)
    from serve_alone [where sc = sc and N = N and req = "PostMessage (create_body t x a)", OF assms(1-3) _ this]
    show ?thesis by (fastforce simp: create_message_route_def validate_create_body [OF assms(4) that(2,3)] handled)
  qed
  have patch: "\<exists>s' c'. serve N E C i sc (PatchMessage (uuid_str k) (update_body x MAX_INT4)) (s, c)
         = (Some (Inl (DatabaseError ''22003'')), s', c') \<and> quiet B s' d \<and> contents c' = contents c"
    if asm: "map_option m_version (message_map d k) = Some MAX_INT4
        \<and> trimmed x \<and> length x \<le> 1000 \<and> list_all sql_char x" for k x
  proof -
    from asm obtain m where that: "message_map d k = Some m" "m_version m = MAX_INT4" "field_ok ''content'' x"
      by (auto intro: trimmed_field_ok)
    let ?q = "\<lparr>mu_title = None, mu_content = x, mu_version = MAX_INT4\<rparr>"
    have "alone (update_message k ?q) (Some (ob_uuid B i s, ob_now B i s)) d (Tx d) (contents c)
        = Some (Raised (DatabaseError ''22003''), d, contents c)"
      by (rule alone_update_message_overflow [OF ok that(1,2)]) simp
    moreover have "validate_MessageUpdate (en_pydantic N) (update_body x MAX_INT4) = Inr ?q"
      by (rule validate_update_body [OF assms(4) that(3)]) (simp_all add: MAX_INT4_def)
    moreover have "path_id N (uuid_str k) = Inr k" using assms(4) by (simp add: path_id_def pydantic_ok_def)
    ultimately show ?thesis
      using serve_alone [where sc = sc and N = N and req = "PatchMessage (uuid_str k) (update_body x MAX_INT4)",
          OF assms(1-3)]
      by (fastforce simp: update_message_route_def both_def ok_json_def handled)
  qed
  show ?thesis by (intro conjI allI impI) (erule post, erule patch)
qed

theorem accepted_body_is_refused_by_database_witness:
  "\<exists>s' c'. serve sample_env ref_engine FakeCache 0 sample_scope (PostMessage nul_body) (sample_state, empty_cache)
       = (Some (Inl (DatabaseError ''22021'')), s', c') \<and> quiet ref_obs s' sample_db"
proof -
  have body: "nul_body = create_body [97, 0] (lit ''Al'') 1" by (simp add: nul_body_def create_body_def)
  have nul: "author_map sample_db 1 \<noteq> None \<and> trimmed [97, 0] \<and> length [97, 0 :: nat] \<le> 100 \<and> trimmed (lit ''Al'')
      \<and> length (lit ''Al'') \<le> 1000 \<and> 0 \<in> set ([97, 0] @ lit ''Al'')
      \<and> (\<forall>ch \<in> set ([97, 0] @ lit ''Al''). ch = 0 \<or> sql_char ch)"
    by (simp add: sample_maps trimmed_def py_strip_def py_isspace_def lit_def sql_char_def)
  have N: "pydantic_ok (en_pydantic sample_env)" by (simp add: strict_pydantic_ok)
  note post = accepted_body_is_refused_by_database [OF ref_service.service_setting_axioms sample_quiet TrueI N,
      where c = empty_cache and i = 0 and sc = sample_scope, THEN conjunct1]
  from post [THEN spec, THEN spec, THEN spec, THEN mp, OF nul] show ?thesis unfolding body by blast
qed

end
