(* ===== verification/Concurrency.thy ===== *)
theory Concurrency
  imports Api
begin

section \<open>Many requests at once\<close>

text \<open>
  The event loop interleaves requests at every \<open>await\<close>, and the pods of the deployment share one
  database and one cache. Here any number of programs (theory \<open>Program\<close>), each with a session of
  its own, take steps in any order over an engine with the laws of \<open>sql_engine\<close>. What is shown of
  the handlers holds for every interleaving: the version of a message grows by one with every
  update and identifies its content, and no update is lost.
\<close>

subsection \<open>One await\<close>

text \<open>\<open>None\<close>: the program has ended, or its statement waits for a lock.\<close>

fun advance :: "'s engine \<Rightarrow> 'c cache_api \<Rightarrow> nat \<Rightarrow> 'a prog \<Rightarrow> 's \<times> 'c \<Rightarrow> ('a prog \<times> 's \<times> 'c) option" where
  "advance E C i (Return x) w = None"
| "advance E C i (Raise e) w = None"
| "advance E C i (Exec st k h) (s, c) =
     (case e_exec E i st s of
        None \<Rightarrow> None
      | Some (Reply r, s') \<Rightarrow> Some (k r, s', c)
      | Some (Violation e, s') \<Rightarrow> Some (h e, s', c)
      | Some (DbFail e, s') \<Rightarrow> Some (Raise (DatabaseError e), s', c))"
| "advance E C i (Commit k h) (s, c) =
     (case e_commit E i s of
        (CommitOk, s') \<Rightarrow> Some (k, s', c)
      | (CommitViolation e, s') \<Rightarrow> Some (h e, s', c)
      | (CommitFail e, s') \<Rightarrow> Some (Raise (DatabaseError e), s', c))"
| "advance E C i (Rollback k) (s, c) = Some (k, e_rollback E i s, c)"
| "advance E C i (CacheGet key k) (s, c) =
     (case c_get C key c of
        (Inl e, c') \<Rightarrow> Some (Raise (CacheError e), s, c') | (Inr v, c') \<Rightarrow> Some (k v, s, c'))"
| "advance E C i (CacheSet key v k) (s, c) =
     (case c_set C key v c of
        (Inl e, c') \<Rightarrow> Some (Raise (CacheError e), s, c') | (Inr _, c') \<Rightarrow> Some (k, s, c'))"
| "advance E C i (CacheEvict key k) (s, c) =
     (case c_evict C key c of
        (Inl e, c') \<Rightarrow> Some (Raise (CacheError e), s, c') | (Inr _, c') \<Rightarrow> Some (k, s, c'))"

fun is_commit :: "'a prog \<Rightarrow> bool" where
  "is_commit (Commit k h) = True"
| "is_commit _ = False"

fun has_ended :: "'a prog \<Rightarrow> bool" where
  "has_ended (Return x) = True"
| "has_ended (Raise e) = True"
| "has_ended _ = False"

subsection \<open>Interleavings\<close>

text \<open>
  \<open>cf_log\<close> is the history of commits: the session, and what was committed before and after. \<open>reach\<close>
  also has the schedule, the sessions in the order of their steps. A session whose program has
  ended is closed, which rolls back.
\<close>

record ('a, 's, 'c) config =
  cf_task :: "nat \<Rightarrow> 'a prog"
  cf_db :: 's
  cf_cache :: 'c
  cf_log :: "(nat \<times> db \<times> db) list"

definition move :: "'s db_obs \<Rightarrow> nat \<Rightarrow> 'a prog \<times> 's \<times> 'c \<Rightarrow> ('a, 's, 'c) config \<Rightarrow> ('a, 's, 'c) config" where
  "move B i r cf =
     (case r of (t, s', c') \<Rightarrow>
        cf\<lparr>cf_task := (cf_task cf)(i := t), cf_db := s', cf_cache := c',
           cf_log := cf_log cf @ (if is_commit (cf_task cf i)
                                  then [(i, ob_committed B (cf_db cf), ob_committed B s')] else [])\<rparr>)"

inductive reach ::
  "'s engine \<Rightarrow> 's db_obs \<Rightarrow> 'c cache_api \<Rightarrow> (nat \<Rightarrow> 'a prog) \<Rightarrow> 's \<times> 'c \<Rightarrow> nat list \<Rightarrow> ('a, 's, 'c) config \<Rightarrow> bool"
  for E B C T w where
  start: "reach E B C T w [] \<lparr>cf_task = T, cf_db = fst w, cf_cache = snd w, cf_log = []\<rparr>"
| await: "reach E B C T w sched cf \<Longrightarrow>
     advance E C i (cf_task cf i) (cf_db cf, cf_cache cf) = Some r \<Longrightarrow>
     reach E B C T w (sched @ [i]) (move B i r cf)"
| close: "reach E B C T w sched cf \<Longrightarrow> has_ended (cf_task cf i) \<Longrightarrow>
     reach E B C T w sched (cf\<lparr>cf_db := e_rollback E i (cf_db cf)\<rparr>)"

lemma move_sel [simp]:
  "cf_task (move B i (t, s', c') cf) = (cf_task cf)(i := t)" "cf_db (move B i (t, s', c') cf) = s'"
  "cf_cache (move B i (t, s', c') cf) = c'"
  "cf_log (move B i (t, s', c') cf) = cf_log cf @ (if is_commit (cf_task cf i)
      then [(i, ob_committed B (cf_db cf), ob_committed B s')] else [])"
  by (simp_all add: move_def)

text \<open>The sequential interpreter is the interleaving of one: it is \<open>advance\<close> until the end.\<close>

lemma run_advance:
  "advance E C i p w = Some (p', s', c') \<Longrightarrow> run E C i p w = run E C i p' (s', c')"
  by (cases p; cases w) (auto split: option.splits prod.splits reply.splits commit_reply.splits sum.splits)

subsection \<open>The writes of the handlers\<close>

text \<open>
  \<open>write_ok\<close> are the statements with which handlers write. A handler writes at most once:
  \<open>writer\<close> has not written yet, \<open>calm\<close> will not write any more.
\<close>

fun write_ok :: "stmt \<Rightarrow> bool" where
  "write_ok (InsertAuthor _ _) = True"
| "write_ok (InsertMessage _ _ _) = True"
| "write_ok (UpdateMessages conds sets) =
     (\<exists>k p. conds = [MessageIdIs k, MessageVersionIs (mu_version p)] \<and> sets = message_changes p)"
| "write_ok (UpdateAuthors conds _) = (\<exists>k. conds = [AuthorIdIs k])"
| "write_ok (DeleteMessages conds) = (\<exists>k. conds = [MessageIdIs k])"
| "write_ok (DeleteAuthors conds) = (\<exists>k. conds = [AuthorIdIs k])"
| "write_ok _ = False"

primrec calm :: "'a prog \<Rightarrow> bool" where
  "calm (Return x) \<longleftrightarrow> True"
| "calm (Raise e) \<longleftrightarrow> True"
| "calm (Exec st k h) \<longleftrightarrow> is_read st \<and> (\<forall>r. calm (k r)) \<and> (\<forall>e. calm (h e))"
| "calm (Commit k h) \<longleftrightarrow> calm k \<and> (\<forall>e. calm (h e))"
| "calm (Rollback k) \<longleftrightarrow> calm k"
| "calm (CacheGet key k) \<longleftrightarrow> (\<forall>v. calm (k v))"
| "calm (CacheSet key v k) \<longleftrightarrow> calm k"
| "calm (CacheEvict key k) \<longleftrightarrow> calm k"

primrec writer :: "'a prog \<Rightarrow> bool" where
  "writer (Return x) \<longleftrightarrow> True"
| "writer (Raise e) \<longleftrightarrow> True"
| "writer (Exec st k h) \<longleftrightarrow>
     (if is_read st then (\<forall>r. writer (k r)) \<and> (\<forall>e. calm (h e))
      else write_ok st \<and> (\<forall>r. calm (k r)) \<and> (\<forall>e. calm (h e)))"
| "writer (Commit k h) \<longleftrightarrow> calm k \<and> (\<forall>e. calm (h e))"
| "writer (Rollback k) \<longleftrightarrow> writer k"
| "writer (CacheGet key k) \<longleftrightarrow> (\<forall>v. writer (k v))"
| "writer (CacheSet key v k) \<longleftrightarrow> writer k"
| "writer (CacheEvict key k) \<longleftrightarrow> writer k"

lemma calm_bind: "calm p \<Longrightarrow> (\<And>x. calm (f x)) \<Longrightarrow> calm (bind_prog p f)"
  by (induction p) auto

lemma writer_bind: "writer p \<Longrightarrow> (\<And>x. calm (f x)) \<Longrightarrow> (\<And>x. writer (f x)) \<Longrightarrow> writer (bind_prog p f)"
  by (induction p) (auto intro: calm_bind)

lemma calm_simps [simp]: "calm (reraise e)" "writer (reraise e)"
  by (simp_all add: reraise_def)

lemma calm_scalar:
  "(\<And>x. calm (k x)) \<Longrightarrow> calm (scalar_one_or_none rs k)" "(\<And>x. calm (f x)) \<Longrightarrow> calm (scalar_one rs f)"
  "(\<And>x. writer (k x)) \<Longrightarrow> writer (scalar_one_or_none rs k)" "(\<And>x. writer (f x)) \<Longrightarrow> writer (scalar_one rs f)"
  by (auto simp: scalar_one_or_none_def scalar_one_def split: list.split)

lemma calm_load: "(\<And>x. calm (k x)) \<Longrightarrow> calm (load_message i k)" "(\<And>x. writer (k x)) \<Longrightarrow> writer (load_message i k)"
  by (auto simp: load_message_def intro!: calm_scalar split: option.split)

text \<open>All ten handlers.\<close>

lemma handlers_write_once:
  "writer (list_messages l f)" "writer (get_message J k)" "writer (create_message mc)"
  "writer (update_message k mu)" "writer (delete_message k)"
  "writer (list_authors l f)" "writer (get_author k inc)" "writer (create_author ac)"
  "writer (update_author k au)" "writer (delete_author k)"
  by (auto simp: svc_defs intro!: calm_scalar calm_load split: option.split)

lemma route_writes_once: "route N req = Inr p \<Longrightarrow> writer p"
  by (cases req)
    (auto simp: route_defs
      intro!: writer_bind handlers_write_once split: sum.splits)

subsection \<open>What one write does to a message\<close>

text \<open>
  A change is justified by the tables it is made on: a message is put there new, at version 0, or
  it is the row that is there with an update applied that named its version.
\<close>

definition justified :: "db \<Rightarrow> change \<Rightarrow> bool" where
  "justified d ch \<longleftrightarrow>
     (case ch of
        PutMessage m \<Rightarrow>
          message_map d (m_id m) = None \<and> m_version m = 0
          \<or> (\<exists>p old. message_map d (m_id m) = Some old \<and> m_version old = mu_version p
               \<and> m = changed_message p old)
      | _ \<Rightarrow> True)"

lemma update_messages_changes:
  assumes "schema_ok d"
    and "update_messages_sem [MessageIdIs k, MessageVersionIs (mu_version p)] (message_changes p) d = Inr (r, chs)"
  shows "(r = IdRows [] \<and> chs = [])
     \<or> (\<exists>old. message_map d k = Some old \<and> m_version old = mu_version p
          \<and> r = IdRows [k] \<and> chs = [PutMessage (changed_message p old)])"
proof (cases "message_map d k")
  case None
  with assms show ?thesis by (simp add: update_messages_sem_def messages_where_id_version)
next
  case (Some old)
  then have "m_id old = k" by (rule message_map_id)
  with Some assms show ?thesis
    by (auto simp: update_messages_sem_def messages_where_id_version update_row_changes Let_def split: if_splits)
qed

lemma write_justified:
  assumes "schema_ok d" and "write_ok st" and "sql_sem u n st d = Inr (r, chs)"
  shows "chs = [] \<or> (\<exists>ch. chs = [ch] \<and> justified d ch)"
  using assms(2)
proof (cases st rule: write_ok.cases)
  case (2 t c a)
  with assms(3) show ?thesis
    by (auto simp: insert_message_sem_def justified_def message_map_None_iff Let_def split: if_splits)
next
  case (3 conds sets)
  with assms(2) obtain k p where "conds = [MessageIdIs k, MessageVersionIs (mu_version p)]" "sets = message_changes p"
    by auto
  with 3 assms(3) have "update_messages_sem [MessageIdIs k, MessageVersionIs (mu_version p)] (message_changes p) d
      = Inr (r, chs)" by simp
  from update_messages_changes [OF assms(1) this] show ?thesis
  proof
    assume "\<exists>old. message_map d k = Some old \<and> m_version old = mu_version p
        \<and> r = IdRows [k] \<and> chs = [PutMessage (changed_message p old)]"
    then obtain old where old: "message_map d k = Some old" "m_version old = mu_version p"
      "chs = [PutMessage (changed_message p old)]" by blast
    moreover from old(1) have "m_id old = k" by (rule message_map_id)
    ultimately show ?thesis by (auto simp: justified_def)
  qed simp
next
  case (4 conds sets)
  with assms show ?thesis
    by (auto simp: update_authors_sem_def authors_where_id justified_def Let_def split: if_splits option.splits)
next
  case (5 conds)
  with assms show ?thesis
    by (auto simp: messages_where_id justified_def Let_def split: option.splits)
next
  case (6 conds)
  with assms show ?thesis
    by (auto simp: delete_authors_sem_def authors_where_id justified_def Let_def split: if_splits option.splits)
qed (use assms(3) in \<open>auto simp: insert_author_sem_def justified_def Let_def split: if_splits\<close>)

lemma message_map_other_row:
  "change_row ch \<noteq> (False, k) \<Longrightarrow> message_map (apply_change ch d) k = message_map d k"
  by (cases ch) auto

text \<open>A change of another row does not take the justification away.\<close>

lemma justified_other:
  assumes "justified d ch" and "change_row ch' \<noteq> change_row ch"
  shows "justified (apply_change ch' d) ch"
  using assms by (cases ch) (simp_all add: justified_def message_map_other_row)

subsection \<open>The discipline of a run\<close>

definition write_state :: "'a prog \<Rightarrow> change list \<Rightarrow> db \<Rightarrow> bool" where
  "write_state t pending d \<longleftrightarrow>
     writer t \<and> pending = [] \<or> calm t \<and> (pending = [] \<or> (\<exists>ch. pending = [ch] \<and> justified d ch))"

definition disciplined :: "'s db_obs \<Rightarrow> (nat \<Rightarrow> 'a prog) \<Rightarrow> 's \<Rightarrow> bool" where
  "disciplined B T s \<longleftrightarrow>
     ob_ok B s \<and> (\<forall>i. write_state (T i) (ob_pending B i s) (ob_committed B s))
     \<and> (\<forall>i j. i \<noteq> j \<longrightarrow> rows_touched (ob_pending B i s) \<inter> rows_touched (ob_pending B j s) = {})"

lemma rows_touched_simps [simp]:
  "rows_touched [] = {}" "rows_touched (ch # chs) = insert (change_row ch) (rows_touched chs)"
  "rows_touched (chs @ chs') = rows_touched chs \<union> rows_touched chs'"
  by (auto simp: rows_touched_def)

text \<open>What a step of session \<open>i\<close> that commits nothing may do.\<close>

lemma disciplined_local:
  assumes "disciplined B T s" and "others_same B i s s'" and "ob_committed B s' = ob_committed B s"
    and "ob_ok B s'" and "write_state t (ob_pending B i s') (ob_committed B s)"
    and "\<And>j. j \<noteq> i \<Longrightarrow> rows_touched (ob_pending B i s') \<inter> rows_touched (ob_pending B j s) = {}"
  shows "disciplined B (T(i := t)) s'"
proof -
  have same: "j \<noteq> i \<Longrightarrow> ob_pending B j s' = ob_pending B j s" for j
    using assms(2) by (simp add: others_same_def)
  have "rows_touched (ob_pending B a s') \<inter> rows_touched (ob_pending B b s') = {}" if "a \<noteq> b" for a b
    using that assms(1,6) same by (cases "a = i"; cases "b = i") (auto simp: disciplined_def Int_commute)
  moreover have "write_state ((T(i := t)) j) (ob_pending B j s') (ob_committed B s')" for j
    using assms(1,3,5) same by (cases "j = i") (simp_all add: disciplined_def)
  ultimately show ?thesis using assms(4) by (simp add: disciplined_def)
qed

context sql_engine
begin

text \<open>What a statement answers: its rows and changes, or an error that changes nothing.\<close>

lemma exec_reply_cases:
  assumes "e_exec E i st s = Some (rep, s')"
  obtains (answered) r chs where "rep = Reply r" "sql_sem (ob_uuid B i s) (ob_now B i s) st (ob_view B i s) = Inr (r, chs)"
      "ob_pending B i s' = ob_pending B i s @ chs" "\<not> ob_aborted B i s" "\<not> ob_aborted B i s'"
      "ob_view B i s' = apply_changes chs (ob_view B i s)"
  | (refused) "\<And>r. rep \<noteq> Reply r" "ob_pending B i s' = ob_pending B i s"
proof (cases "ob_aborted B i s")
  case True
  with exec_aborted [OF assms] refused show ?thesis by blast
next
  case False
  from exec_result [OF assms False] show ?thesis
  proof
    assume a: "case sql_sem (ob_uuid B i s) (ob_now B i s) st (ob_view B i s) of
             Inr (r, chs) \<Rightarrow> rep = Reply r \<and> ob_pending B i s' = ob_pending B i s @ chs
               \<and> \<not> ob_aborted B i s'
           | Inl (IntegrityErr e) \<Rightarrow> rep = Violation (Some e) \<and> ob_aborted B i s'
               \<and> ob_pending B i s' = ob_pending B i s
           | Inl (DataErr e) \<Rightarrow> rep = DbFail e \<and> ob_aborted B i s'
               \<and> ob_pending B i s' = ob_pending B i s"
    show ?thesis
    proof (cases "sql_sem (ob_uuid B i s) (ob_now B i s) st (ob_view B i s)")
      case (Inl e)
      with a refused show ?thesis by (cases e) auto
    next
      case (Inr p)
      obtain r chs where p: "p = (r, chs)" by (cases p)
      have "ob_view B i s' = apply_changes chs (ob_view B i s)"
        using a Inr p exec_frame [OF assms] by (simp add: ob_view_def)
      with a Inr p False answered show ?thesis by simp
    qed
  next
    assume "\<not> ob_up B s \<and> (\<exists>e. rep = DbFail e) \<and> ob_aborted B i s' \<and> ob_pending B i s' = ob_pending B i s"
    with refused show ?thesis by blast
  qed
qed

lemma disciplined_exec_local:
  assumes "disciplined B T s" and "e_exec E i st s = Some (rep, s')"
    and "write_state t (ob_pending B i s') (ob_committed B s)"
    and "\<And>j. j \<noteq> i \<Longrightarrow> rows_touched (ob_pending B i s') \<inter> rows_touched (ob_pending B j s) = {}"
  shows "disciplined B (T(i := t)) s'"
  by (rule disciplined_local [OF assms(1)])
    (use exec_frame [OF assms(2)] exec_ok [OF assms(2)] assms(1,3,4) in \<open>simp_all add: disciplined_def\<close>)

text \<open>The one write of a request, on tables nobody has changed for it.\<close>

lemma disciplined_write:
  assumes "disciplined B T s" and "T i = Exec st k h" and "e_exec E i st s = Some (Reply r, s')"
    and "ob_pending B i s' = ob_pending B i s @ chs" and "\<not> is_read st"
    and "sql_sem (ob_uuid B i s) (ob_now B i s) st (ob_view B i s) = Inr (r, chs)"
  shows "disciplined B (T(i := k r)) s'"
proof (rule disciplined_exec_local [OF assms(1,3)])
  have "write_state (Exec st k h) (ob_pending B i s) (ob_committed B s)"
    using assms(1,2) by (metis disciplined_def)
  with assms(5) have w: "write_ok st" "\<forall>r. calm (k r)" "ob_pending B i s = []" by (auto simp: write_state_def)
  then have "ob_view B i s = ob_committed B s" by (simp add: ob_view_def)
  moreover have "ob_ok B s" using assms(1) by (simp add: disciplined_def)
  ultimately have "chs = [] \<or> (\<exists>ch. chs = [ch] \<and> justified (ob_committed B s) ch)"
    using ok_schema write_justified [OF _ w(1) assms(6)] by metis
  with w assms(4) show "write_state (k r) (ob_pending B i s') (ob_committed B s)" by (auto simp: write_state_def)
  show "rows_touched (ob_pending B i s') \<inter> rows_touched (ob_pending B j s) = {}" if "j \<noteq> i" for j
    using exec_row_locks [OF assms(3) that assms(4)] assms(4) w(3) by simp
qed

lemma disciplined_exec:
  assumes "disciplined B T s" and "T i = Exec st k h" and "e_exec E i st s = Some (rep, s')"
    and "t = (case rep of Reply r \<Rightarrow> k r | Violation e \<Rightarrow> h e | DbFail e \<Rightarrow> Raise (DatabaseError e))"
  shows "disciplined B (T(i := t)) s'"
proof -
  have ws: "write_state (Exec st k h) (ob_pending B i s) (ob_committed B s)"
    using assms(1,2) by (metis disciplined_def)
  have sep: "j \<noteq> i \<Longrightarrow> rows_touched (ob_pending B i s) \<inter> rows_touched (ob_pending B j s) = {}" for j
    using assms(1) by (simp add: disciplined_def)
  show ?thesis
  proof (rule exec_reply_cases [OF assms(3)])
    assume r: "\<And>r. rep \<noteq> Reply r" "ob_pending B i s' = ob_pending B i s"
    have "calm (h e)" for e using ws by (auto simp: write_state_def split: if_splits)
    with r(1) assms(4) have "calm t" by (cases rep) auto
    with ws r(2) sep show ?thesis
      by (intro disciplined_exec_local [OF assms(1,3)]) (auto simp: write_state_def)
  next
    fix r chs
    assume r: "rep = Reply r" "sql_sem (ob_uuid B i s) (ob_now B i s) st (ob_view B i s) = Inr (r, chs)"
      "ob_pending B i s' = ob_pending B i s @ chs"
    show ?thesis
    proof (cases "is_read st")
      case True
      with r have "ob_pending B i s' = ob_pending B i s" using is_read_no_changes by auto
      with ws True sep r(1) assms(4) show ?thesis
        by (intro disciplined_exec_local [OF assms(1,3)]) (auto simp: write_state_def)
    next
      case False
      with disciplined_write [OF assms(1,2) assms(3) [unfolded r(1)] r(3) False r(2)] r(1) assms(4) show ?thesis by simp
    qed
  qed
qed

lemma disciplined_commit:
  assumes "disciplined B T s" and "T i = Commit k h" and "e_commit E i s = (cr, s')"
    and "t = (case cr of CommitOk \<Rightarrow> k | CommitViolation e \<Rightarrow> h e | CommitFail e \<Rightarrow> Raise (DatabaseError e))"
  shows "disciplined B (T(i := t)) s'
    \<and> (ob_committed B s' = ob_committed B s
       \<or> (\<exists>ch. ob_pending B i s = [ch] \<and> justified (ob_committed B s) ch
            \<and> ob_committed B s' = apply_change ch (ob_committed B s)))"
proof -
  note e = commit_end [OF assms(3)]
  have none: "ob_pending B i s' = []" using e inactive by blast
  have same: "j \<noteq> i \<Longrightarrow> ob_pending B j s' = ob_pending B j s" for j
    using e by (simp add: others_same_def)
  have ws: "write_state (T j) (ob_pending B j s) (ob_committed B s)" for j
    using assms(1) by (simp add: disciplined_def)
  have calm: "calm t" using ws [of i] assms(2,4) by (auto simp: write_state_def split: commit_reply.splits)
  have change: "ob_committed B s' = ob_committed B s
       \<or> (\<exists>ch. ob_pending B i s = [ch] \<and> justified (ob_committed B s) ch
            \<and> ob_committed B s' = apply_change ch (ob_committed B s))"
    using e ws [of i] by (auto simp: write_state_def ob_view_def)
  have "write_state ((T(i := t)) j) (ob_pending B j s') (ob_committed B s')" for j
  proof (cases "j = i")
    case True
    with none calm show ?thesis by (simp add: write_state_def)
  next
    case False
    have "justified (ob_committed B s') ch" if "ob_pending B j s = [ch]" "justified (ob_committed B s) ch" for ch
    proof -
      have "rows_touched (ob_pending B i s) \<inter> rows_touched (ob_pending B j s) = {}"
        using assms(1) False by (simp add: disciplined_def)
      with change that show ?thesis by (auto intro!: justified_other)
    qed
    with ws [of j] False same show ?thesis by (auto simp: write_state_def)
  qed
  moreover have "rows_touched (ob_pending B a s') \<inter> rows_touched (ob_pending B b s') = {}" if "a \<noteq> b" for a b
    using that assms(1) same none by (cases "a = i"; cases "b = i") (auto simp: disciplined_def)
  moreover have "ob_ok B s'" using assms(1) commit_keeps_ok [OF assms(3)] by (simp add: disciplined_def)
  ultimately show ?thesis using change by (simp add: disciplined_def)
qed

lemma disciplined_rollback:
  assumes "disciplined B T s" and "writer (T i) \<Longrightarrow> writer t" and "calm (T i) \<Longrightarrow> calm t"
  shows "disciplined B (T(i := t)) (e_rollback E i s)"
proof -
  have none: "ob_pending B i (e_rollback E i s) = []" using rollback_end inactive by blast
  have "write_state (T i) (ob_pending B i s) (ob_committed B s)" using assms(1) by (simp add: disciplined_def)
  with assms(2,3) none have "write_state t (ob_pending B i (e_rollback E i s)) (ob_committed B s)"
    by (auto simp: write_state_def)
  with assms(1) none rollback_end rollback_ok show ?thesis
    by (intro disciplined_local) (auto simp: disciplined_def)
qed

lemma disciplined_task:
  assumes "disciplined B T s" and "writer (T i) \<Longrightarrow> writer t" and "calm (T i) \<Longrightarrow> calm t"
  shows "disciplined B (T(i := t)) s"
  using assms by (auto simp: disciplined_def write_state_def)

end

subsection \<open>The history of a run\<close>

text \<open>
  The log is a chain of commits from what was committed at the start to what is committed now, each
  of which makes at most one justified change.
\<close>

definition good_commit :: "db \<Rightarrow> db \<Rightarrow> bool" where
  "good_commit d d' \<longleftrightarrow> d' = d \<or> (\<exists>ch. justified d ch \<and> d' = apply_change ch d)"

fun chain :: "db \<Rightarrow> (nat \<times> db \<times> db) list \<Rightarrow> db \<Rightarrow> bool" where
  "chain d [] d' \<longleftrightarrow> d' = d"
| "chain d ((i, a, b) # L) d' \<longleftrightarrow> a = d \<and> good_commit a b \<and> chain b L d'"

lemma chain_append: "chain d (L @ L') d' \<longleftrightarrow> (\<exists>e. chain d L e \<and> chain e L' d')"
  by (induction L arbitrary: d) auto

text \<open>Sessions that a run starts with: programs that write once, and an engine nobody uses.\<close>

definition initial :: "'s db_obs \<Rightarrow> (nat \<Rightarrow> 'a prog) \<Rightarrow> 's \<Rightarrow> bool" where
  "initial B T s \<longleftrightarrow> ob_ok B s \<and> (\<forall>i. \<not> ob_active B i s) \<and> (\<forall>i. writer (T i))"

context sql_engine
begin

lemma initial_disciplined: "initial B T s \<Longrightarrow> disciplined B T s"
  by (simp add: initial_def disciplined_def write_state_def inactive)

lemma advance_disciplined:
  assumes "disciplined B T s" and "advance E C i (T i) (s, c) = Some (t, s', c')"
  shows "disciplined B (T(i := t)) s'
    \<and> (if is_commit (T i) then
          ob_committed B s' = ob_committed B s
          \<or> (\<exists>ch. ob_pending B i s = [ch] \<and> justified (ob_committed B s) ch
               \<and> ob_committed B s' = apply_change ch (ob_committed B s))
        else ob_committed B s' = ob_committed B s)"
proof (cases "T i")
  case (Exec st k h)
  then obtain rep where rep: "e_exec E i st s = Some (rep, s')"
    "t = (case rep of Reply r \<Rightarrow> k r | Violation e \<Rightarrow> h e | DbFail e \<Rightarrow> Raise (DatabaseError e))"
    using assms(2) by (auto split: option.splits prod.splits reply.splits)
  from disciplined_exec [OF assms(1) Exec rep] exec_frame [OF rep(1)] Exec show ?thesis by simp
next
  case (Commit k h)
  then obtain cr where cr: "e_commit E i s = (cr, s')"
    "t = (case cr of CommitOk \<Rightarrow> k | CommitViolation e \<Rightarrow> h e | CommitFail e \<Rightarrow> Raise (DatabaseError e))"
    using assms(2) by (auto split: prod.splits commit_reply.splits)
  from disciplined_commit [OF assms(1) Commit cr] Commit show ?thesis by simp
next
  case (Rollback k)
  with assms disciplined_rollback [OF assms(1), of i k] rollback_end [of i s] show ?thesis by simp
next
  case (CacheGet key k)
  with assms disciplined_task [OF assms(1), of i t] show ?thesis by (auto split: prod.splits sum.splits)
next
  case (CacheSet key v k)
  with assms disciplined_task [OF assms(1), of i t] show ?thesis by (auto split: prod.splits sum.splits)
next
  case (CacheEvict key k)
  with assms disciplined_task [OF assms(1), of i t] show ?thesis by (auto split: prod.splits sum.splits)
qed (use assms(2) in simp_all)

lemma advance_others: "advance E C i t (s, c) = Some (t', s', c') \<Longrightarrow> others_same B i s s'"
  using exec_frame [of i _ s] commit_end [of i s] rollback_end [of i s]
  by (cases t) (auto simp: others_same_def split: option.splits prod.splits reply.splits commit_reply.splits sum.splits)

lemma reach_disciplined:
  assumes "reach E B C T w sched cf" and "initial B T (fst w)"
  shows "disciplined B (cf_task cf) (cf_db cf)
    \<and> chain (ob_committed B (fst w)) (cf_log cf) (ob_committed B (cf_db cf))"
  using assms
proof (induction rule: reach.induct)
  case start
  then show ?case by (simp add: initial_disciplined)
next
  case (await sched cf i r)
  obtain t s' c' where r: "r = (t, s', c')" by (cases r)
  from advance_disciplined [of "cf_task cf" "cf_db cf" C i "cf_cache cf" t s' c'] await r show ?case
    by (auto simp: chain_append good_commit_def simp del: fun_upd_apply split: if_splits)
next
  case (close sched cf i)
  have "cf_task cf = (cf_task cf)(i := cf_task cf i)" by simp
  with close disciplined_rollback [of "cf_task cf" "cf_db cf" i "cf_task cf i"] rollback_end [of i "cf_db cf"]
  show ?case by simp
qed

end

subsection \<open>The version of a message\<close>

text \<open>The message is there throughout the history.\<close>

definition stays :: "uuid \<Rightarrow> (nat \<times> db \<times> db) list \<Rightarrow> bool" where
  "stays k L \<longleftrightarrow> (\<forall>(i, a, b) \<in> set L. message_map b k \<noteq> None)"

lemma stays_simps [simp]:
  "stays k []" "stays k ((i, a, b) # L) \<longleftrightarrow> message_map b k \<noteq> None \<and> stays k L"
  "stays k (L @ L') \<longleftrightarrow> stays k L \<and> stays k L'"
  by (simp_all add: stays_def ball_Un)

lemma good_commit_message:
  assumes "good_commit d d'" and "message_map d k = Some m" and "message_map d' k = Some m'"
  shows "m' = m \<or> (\<exists>p. m_version m = mu_version p \<and> m' = changed_message p m)"
proof (cases "d' = d")
  case False
  with assms(1) obtain ch where ch: "justified d ch" "d' = apply_change ch d" by (auto simp: good_commit_def)
  with assms(2,3) show ?thesis
    by (cases ch) (auto simp: justified_def split: if_splits)
qed (use assms in simp)

lemma version_history:
  assumes "chain d L d'" and "stays k L" and "message_map d k = Some m" and "message_map d' k = Some m'"
  shows "m_version m \<le> m_version m' \<and> (m_version m' = m_version m \<longrightarrow> m' = m)"
  using assms
proof (induction L arbitrary: d m)
  case (Cons x L)
  obtain i a b where x: "x = (i, a, b)" by (cases x)
  with Cons.prems obtain mb where mb: "message_map b k = Some mb" by auto
  from Cons.prems x have "good_commit d b" "chain b L d'" "stays k L" by auto
  from good_commit_message [OF this(1) Cons.prems(3) mb] Cons.IH [OF this(2,3) mb Cons.prems(4)] show ?case
    by auto
qed simp

subsection \<open>Where a successful update has been\<close>

text \<open>\<open>hopeless\<close>: the program can only end in an exception.\<close>

primrec hopeless :: "'a prog \<Rightarrow> bool" where
  "hopeless (Return x) \<longleftrightarrow> False"
| "hopeless (Raise e) \<longleftrightarrow> True"
| "hopeless (Exec st k h) \<longleftrightarrow> (\<forall>r. hopeless (k r)) \<and> (\<forall>e. hopeless (h e))"
| "hopeless (Commit k h) \<longleftrightarrow> hopeless k \<and> (\<forall>e. hopeless (h e))"
| "hopeless (Rollback k) \<longleftrightarrow> hopeless k"
| "hopeless (CacheGet key k) \<longleftrightarrow> (\<forall>v. hopeless (k v))"
| "hopeless (CacheSet key v k) \<longleftrightarrow> hopeless k"
| "hopeless (CacheEvict key k) \<longleftrightarrow> hopeless k"

lemma hopeless_bind: "hopeless p \<Longrightarrow> hopeless (bind_prog p f)"
  by (induction p) auto

lemma hopeless_reraise [simp]: "hopeless (reraise e)"
  by (simp add: reraise_def)

lemma hopeless_stale: "hopeless (update_stale k p)"
  by (simp add: update_stale_def)

lemma hopeless_advance: "hopeless t \<Longrightarrow> advance E C i t w = Some (t', s', c') \<Longrightarrow> hopeless t'"
  by (cases t; cases w) (auto split: option.splits prod.splits reply.splits commit_reply.splits sum.splits)

text \<open>The points of \<open>update_message\<close> after its UPDATE has changed the row.\<close>

definition evict_and_return :: "uuid \<Rightarrow> MessageOut \<Rightarrow> MessageOut prog" where
  "evict_and_return k out = CacheEvict (uuid_str k) (Return out)"

definition update_matched :: "uuid \<Rightarrow> MessageOut prog" where
  "update_matched k =
     load_message k
       (\<lambda>out. Commit (CacheEvict (uuid_str k)
          (case out of None \<Rightarrow> Raise AssertionError | Some message \<Rightarrow> Return message)) reraise)"

definition updated :: "uuid \<Rightarrow> MessageUpdate \<Rightarrow> MessageOut \<Rightarrow> bool" where
  "updated k p out \<longleftrightarrow> ms_id out = k \<and> ms_content out = mu_content p \<and> ms_version out = mu_version p + 1"

definition in_log :: "uuid \<Rightarrow> MessageUpdate \<Rightarrow> nat \<Rightarrow> (nat \<times> db \<times> db) list \<Rightarrow> bool" where
  "in_log k p i L \<longleftrightarrow>
     (\<exists>d d' old. (i, d, d') \<in> set L \<and> message_map d k = Some old \<and> m_version old = mu_version p
        \<and> message_map d' k = Some (changed_message p old))"

definition update_point ::
  "uuid \<Rightarrow> MessageUpdate \<Rightarrow> (MessageOut \<Rightarrow> 'a) \<Rightarrow> nat \<Rightarrow> 'a prog \<Rightarrow> bool \<Rightarrow> change list \<Rightarrow> db
     \<Rightarrow> (nat \<times> db \<times> db) list \<Rightarrow> bool" where
  "update_point k p g i t aborted pending d L \<longleftrightarrow>
     hopeless t
   \<or> t = bind_prog (update_message k p) (\<lambda>x. Return (g x)) \<and> pending = []
   \<or> (\<exists>old. \<not> aborted \<and> pending = [PutMessage (changed_message p old)]
        \<and> message_map d k = Some old \<and> m_version old = mu_version p
        \<and> (t = bind_prog (update_matched k) (\<lambda>x. Return (g x))
           \<or> (\<exists>out. updated k p out
                \<and> t = bind_prog (Commit (evict_and_return k out) reraise) (\<lambda>x. Return (g x)))))
   \<or> (\<exists>out. updated k p out \<and> in_log k p i L
        \<and> (t = bind_prog (evict_and_return k out) (\<lambda>x. Return (g x)) \<or> t = Return (g out)))"

lemma in_log_append: "in_log k p i L \<Longrightarrow> in_log k p i (L @ L')"
  by (auto simp: in_log_def)

lemma update_point_ended:
  assumes "update_point k p g i t ab pend d L" and "has_ended t"
  shows "hopeless t \<or> (\<exists>out. updated k p out \<and> in_log k p i L \<and> t = Return (g out))"
proof -
  have "\<not> has_ended (bind_prog (update_message k p) f)" "\<not> has_ended (bind_prog (update_matched k) f)"
    "\<not> has_ended (bind_prog (Commit (evict_and_return k out) reraise) f)"
    "\<not> has_ended (bind_prog (evict_and_return k out) f)" for f :: "MessageOut \<Rightarrow> 'a prog" and out
    by (simp_all add: update_message_def update_matched_def load_message_def evict_and_return_def)
  with assms show ?thesis unfolding update_point_def by blast
qed

text \<open>The steps of the other sessions keep the point.\<close>

lemma update_point_other:
  assumes "update_point k p g i t ab pend d L"
    and "\<And>old. pend = [PutMessage (changed_message p old)] \<Longrightarrow> message_map d k = Some old \<Longrightarrow>
           message_map d' k = Some old"
  shows "update_point k p g i t ab pend d' (L @ L')"
  using assms in_log_append [of k p i L L'] unfolding update_point_def by blast

lemma update_message_matched:
  "bind_prog (scalar_one_or_none (id_rows (IdRows [k]))
     (\<lambda>updated_id. case updated_id of None \<Rightarrow> update_stale k p
        | Some _ \<Rightarrow> load_message k (\<lambda>out. Commit (CacheEvict (uuid_str k)
            (case out of None \<Rightarrow> Raise AssertionError | Some message \<Rightarrow> Return message)) reraise))) f
   = bind_prog (update_matched k) f"
  by (simp add: update_matched_def)

context sql_engine
begin

lemma update_point_start:
  assumes "ob_ok B s" and "ob_pending B i s = []"
    and "advance E C i (bind_prog (update_message k p) (\<lambda>x. Return (g x))) (s, c) = Some (t, s', c')"
  shows "update_point k p g i t (ob_aborted B i s') (ob_pending B i s') (ob_committed B s') L"
proof -
  let ?st = "UpdateMessages [MessageIdIs k, MessageVersionIs (mu_version p)] (message_changes p)"
  obtain rep where rep: "e_exec E i ?st s = Some (rep, s')"
    using assms(3) by (auto simp: update_message_def split: option.splits prod.splits reply.splits)
  have same: "ob_committed B s' = ob_committed B s" using exec_frame [OF rep] by simp
  show ?thesis
  proof (cases "\<exists>r. rep = Reply r")
    case False
    with rep assms(3) have "hopeless t"
      by (cases rep) (auto simp: update_message_def)
    then show ?thesis by (simp add: update_point_def)
  next
    case True
    then obtain r where r: "rep = Reply r" by blast
    have ab: "\<not> ob_aborted B i s" using exec_aborted [OF rep] r by auto
    obtain chs where sem: "sql_sem (ob_uuid B i s) (ob_now B i s) ?st (ob_view B i s) = Inr (r, chs)"
      "ob_pending B i s' = ob_pending B i s @ chs" "\<not> ob_aborted B i s'"
      using exec_result [OF rep ab] r by (auto split: sum.splits sql_error.splits)
    have view: "ob_view B i s = ob_committed B s" "schema_ok (ob_committed B s)"
      using assms(1,2) ok_schema by (simp_all add: ob_view_def)
    from sem(1) view have "update_messages_sem [MessageIdIs k, MessageVersionIs (mu_version p)] (message_changes p)
        (ob_committed B s) = Inr (r, chs)" by simp
    from update_messages_changes [OF view(2) this] show ?thesis
    proof
      assume "r = IdRows [] \<and> chs = []"
      with rep r assms(3) have "t = bind_prog (update_stale k p) (\<lambda>x. Return (g x))"
        by (simp add: update_message_def)
      then show ?thesis by (simp add: update_point_def hopeless_bind hopeless_stale)
    next
      assume "\<exists>old. message_map (ob_committed B s) k = Some old \<and> m_version old = mu_version p
          \<and> r = IdRows [k] \<and> chs = [PutMessage (changed_message p old)]"
      then obtain old where old: "message_map (ob_committed B s) k = Some old" "m_version old = mu_version p"
        "r = IdRows [k]" "chs = [PutMessage (changed_message p old)]" by blast
      with rep r assms(3) have "t = bind_prog (update_matched k) (\<lambda>x. Return (g x))"
        by (simp add: update_message_def update_matched_def)
      with old sem(2,3) assms(2) same show ?thesis by (auto simp: update_point_def)
    qed
  qed
qed

lemma update_point_load:
  assumes "ob_ok B s" and "\<not> ob_aborted B i s" and "ob_pending B i s = [PutMessage (changed_message p old)]"
    and "message_map (ob_committed B s) k = Some old" and "m_version old = mu_version p"
    and "advance E C i (bind_prog (update_matched k) (\<lambda>x. Return (g x))) (s, c) = Some (t, s', c')"
  shows "update_point k p g i t (ob_aborted B i s') (ob_pending B i s') (ob_committed B s') L"
proof -
  let ?st = "SelectMessages [MessageIdIs k] [] None"
  obtain rep where rep: "e_exec E i ?st s = Some (rep, s')"
    using assms(6) by (auto simp: update_matched_def load_message_def split: option.splits prod.splits reply.splits)
  have same: "ob_committed B s' = ob_committed B s" using exec_frame [OF rep] by simp
  show ?thesis
  proof (cases "\<exists>r. rep = Reply r")
    case False
    with rep assms(6) have "hopeless t"
      by (cases rep) (auto simp: update_matched_def load_message_def)
    then show ?thesis by (simp add: update_point_def)
  next
    case True
    then obtain r where r: "rep = Reply r" by blast
    obtain chs where sem: "sql_sem (ob_uuid B i s) (ob_now B i s) ?st (ob_view B i s) = Inr (r, chs)"
      "ob_pending B i s' = ob_pending B i s @ chs" "\<not> ob_aborted B i s'"
      using exec_result [OF rep assms(2)] r by (auto split: sum.splits sql_error.splits)
    have k: "m_id old = k" using message_map_id [OF assms(4)] .
    have view: "schema_ok (ob_view B i s)" using ok_schema [OF assms(1)] by blast
    have row: "message_map (ob_view B i s) k = Some (changed_message p old)"
      using assms(3) k by (simp add: ob_view_def)
    from shown_message_Some [OF view row] obtain a out where
      out: "author_map (ob_view B i s) (m_author_id (changed_message p old)) = Some a"
        "MessageOut_of (changed_message p old) (Some a) = Some out" by blast
    have rows: "r = MessageRows [(changed_message p old, Some a)]" "chs = []"
      using sem(1) view row out(1) by (simp_all add: messages_where_id with_author_def)
    have "updated k p out"
      using out(2) k assms(5) by (auto simp: MessageOut_of_def updated_def)
    moreover have "t = bind_prog (Commit (evict_and_return k out) reraise) (\<lambda>x. Return (g x))"
      using rep r rows out(2) assms(6) by (simp add: update_matched_def load_message_def evict_and_return_def)
    ultimately show ?thesis using sem(2,3) rows(2) assms(3-5) same by (auto simp: update_point_def)
  qed
qed

lemma update_point_commit:
  assumes "\<not> ob_aborted B i s" and "ob_pending B i s = [PutMessage (changed_message p old)]"
    and "message_map (ob_committed B s) k = Some old" and "m_version old = mu_version p" and "updated k p out"
    and "advance E C i (bind_prog (Commit (evict_and_return k out) reraise) (\<lambda>x. Return (g x))) (s, c)
           = Some (t, s', c')"
  shows "update_point k p g i t (ob_aborted B i s') (ob_pending B i s') (ob_committed B s')
           (L @ [(i, ob_committed B s, ob_committed B s')])"
proof -
  obtain cr where cr: "e_commit E i s = (cr, s')"
    using assms(6) by (auto split: prod.splits commit_reply.splits)
  show ?thesis
  proof (cases cr)
    case CommitOk
    with commit_ok [of i s s'] cr assms(1) have "ob_committed B s' = ob_view B i s" by simp
    moreover have "m_id old = k" using message_map_id [OF assms(3)] .
    ultimately have "message_map (ob_committed B s') k = Some (changed_message p old)"
      using assms(2) by (simp add: ob_view_def)
    with assms(3,4) have "in_log k p i (L @ [(i, ob_committed B s, ob_committed B s')])"
      unfolding in_log_def by (intro exI [of _ "ob_committed B s"] exI [of _ "ob_committed B s'"] exI [of _ old]) simp
    moreover have "t = bind_prog (evict_and_return k out) (\<lambda>x. Return (g x))"
      using assms(6) cr CommitOk by simp
    ultimately show ?thesis using assms(5) by (auto simp: update_point_def)
  qed (use assms(6) cr in \<open>auto simp: update_point_def\<close>)
qed

text \<open>A step of the updating session itself.\<close>

lemma update_point_own:
  assumes "update_point k p g i t (ob_aborted B i s) (ob_pending B i s) (ob_committed B s) L" and "ob_ok B s"
    and "advance E C i t (s, c) = Some (t', s', c')"
  shows "update_point k p g i t' (ob_aborted B i s') (ob_pending B i s') (ob_committed B s')
     (L @ (if is_commit t then [(i, ob_committed B s, ob_committed B s')] else []))"
proof -
  consider (hopeless) "hopeless t"
    | (start) "t = bind_prog (update_message k p) (\<lambda>x. Return (g x))" "ob_pending B i s = []"
    | (load) old where "\<not> ob_aborted B i s" "ob_pending B i s = [PutMessage (changed_message p old)]"
        "message_map (ob_committed B s) k = Some old" "m_version old = mu_version p"
        "t = bind_prog (update_matched k) (\<lambda>x. Return (g x))"
    | (commit) old out where "\<not> ob_aborted B i s" "ob_pending B i s = [PutMessage (changed_message p old)]"
        "message_map (ob_committed B s) k = Some old" "m_version old = mu_version p" "updated k p out"
        "t = bind_prog (Commit (evict_and_return k out) reraise) (\<lambda>x. Return (g x))"
    | (evict) out where "updated k p out" "in_log k p i L"
        "t = bind_prog (evict_and_return k out) (\<lambda>x. Return (g x))"
    | (done') out where "t = Return (g out)"
    using assms(1) unfolding update_point_def by blast
  then show ?thesis
  proof cases
    case hopeless
    with hopeless_advance [OF this assms(3)] show ?thesis by (simp add: update_point_def)
  next
    case start
    then have "\<not> is_commit t" by (simp add: update_message_def)
    with start update_point_start [OF assms(2) start(2)] assms(3) show ?thesis by simp
  next
    case load
    then show ?thesis using update_point_load [OF assms(2) load(1-4)] assms(3)
      by (simp add: update_matched_def load_message_def)
  next
    case commit
    then show ?thesis using update_point_commit [OF commit(1-5)] assms(3) by simp
  next
    case evict
    with assms(3) have "t' = Return (g out) \<or> hopeless t'"
      by (auto simp: evict_and_return_def split: prod.splits sum.splits)
    with evict show ?thesis by (auto simp: update_point_def intro: in_log_append)
  qed (use assms(3) in simp)
qed

end

context sql_engine
begin

lemma reach_update_point:
  assumes "reach E B C T w sched cf" and "initial B T (fst w)"
    and "T i = bind_prog (update_message k p) (\<lambda>x. Return (g x))"
  shows "update_point k p g i (cf_task cf i) (ob_aborted B i (cf_db cf)) (ob_pending B i (cf_db cf))
     (ob_committed B (cf_db cf)) (cf_log cf)"
  using assms
proof (induction rule: reach.induct)
  case start
  then show ?case by (auto simp: update_point_def initial_def inactive)
next
  case (await sched cf j r)
  obtain t s' c' where r: "r = (t, s', c')" by (cases r)
  note IH = await.IH [OF await.prems]
  have disc: "disciplined B (cf_task cf) (cf_db cf)"
    using reach_disciplined [OF await.hyps(1) await.prems(1)] by simp
  show ?case
  proof (cases "j = i")
    case True
    with update_point_own [OF IH, of C "cf_cache cf" t s' c'] await.hyps(2) r disc show ?thesis
      by (simp add: disciplined_def)
  next
    case False
    from await.hyps(2) r have adv: "advance E C j (cf_task cf j) (cf_db cf, cf_cache cf) = Some (t, s', c')" by simp
    from advance_disciplined [OF disc adv] have change: "ob_committed B s' = ob_committed B (cf_db cf)
        \<or> (\<exists>ch. ob_pending B j (cf_db cf) = [ch] \<and> ob_committed B s' = apply_change ch (ob_committed B (cf_db cf)))"
      by (auto split: if_splits)
    have same: "ob_pending B i s' = ob_pending B i (cf_db cf)" "ob_aborted B i s' = ob_aborted B i (cf_db cf)"
      using advance_others [OF adv] False by (auto simp: others_same_def)
    have sep: "rows_touched (ob_pending B j (cf_db cf)) \<inter> rows_touched (ob_pending B i (cf_db cf)) = {}"
      using disc False by (simp add: disciplined_def)
    have "message_map (ob_committed B s') k = Some old"
      if "ob_pending B i (cf_db cf) = [PutMessage (changed_message p old)]"
        "message_map (ob_committed B (cf_db cf)) k = Some old" for old
    proof -
      have "m_id old = k" using message_map_id [OF that(2)] .
      with sep that change show ?thesis by (auto simp: message_map_other_row)
    qed
    from update_point_other [OF IH this] same r False show ?thesis by simp
  qed
next
  case (close sched cf j)
  note IH = close.IH [OF close.prems]
  note roll = rollback_end [of j "cf_db cf"]
  show ?case
  proof (cases "j = i")
    case True
    from update_point_ended [OF IH] close.hyps(2) True show ?thesis
      by (auto simp: update_point_def)
  next
    case False
    with IH roll show ?thesis by (simp add: others_same_def)
  qed
qed

end

subsection \<open>Two updates in one history\<close>

lemma in_logE:
  assumes "in_log k p i L" and "chain d L d'"
  obtains L1 a b L2 old where "L = L1 @ (i, a, b) # L2" "chain d L1 a" "chain b L2 d'"
    "message_map a k = Some old" "m_version old = mu_version p" "message_map b k = Some (changed_message p old)"
proof -
  from assms(1) obtain a b old where e: "(i, a, b) \<in> set L" "message_map a k = Some old" "m_version old = mu_version p"
    "message_map b k = Some (changed_message p old)" by (auto simp: in_log_def)
  from e(1) obtain L1 L2 where L: "L = L1 @ (i, a, b) # L2" by (auto dest: split_list)
  with assms(2) have "chain d L1 a" "chain b L2 d'" by (auto simp: chain_append)
  with L e that show ?thesis by blast
qed

text \<open>The version an update named lies between the first and the last version of the history.\<close>

lemma in_log_range:
  assumes "in_log k p i L" and "chain d L d'" and "stays k L"
    and "message_map d k = Some m" and "message_map d' k = Some m'"
  shows "m_version m \<le> mu_version p \<and> mu_version p < m_version m'"
proof -
  from assms(1,2) obtain L1 a b L2 old where L: "L = L1 @ (i, a, b) # L2" and c: "chain d L1 a" "chain b L2 d'"
    and m: "message_map a k = Some old" "m_version old = mu_version p" "message_map b k = Some (changed_message p old)"
    by (rule in_logE)
  from L assms(3) have "stays k L1" "stays k L2" by simp_all
  with version_history [OF c(1) _ assms(4) m(1)] version_history [OF c(2) _ m(3) assms(5)] m(2) show ?thesis by simp
qed

lemma in_log_after:
  assumes "in_log k q j L2" and "chain b L2 d'" and "stays k L2"
    and "message_map b k = Some (changed_message p old)" and "m_version old = mu_version p"
  shows "mu_version p < mu_version q"
proof -
  from assms(1,2) obtain L3 e f L4 old' where L: "L2 = L3 @ (j, e, f) # L4" and c: "chain b L3 e"
    and m: "message_map e k = Some old'" "m_version old' = mu_version q"
    by (rule in_logE)
  from L assms(3) have "stays k L3" by simp
  from version_history [OF c this assms(4) m(1)] m(2) assms(5) show ?thesis by simp
qed

lemma in_log_split:
  assumes "in_log k q j (L1 @ (i, a, b) # L2)" and "i \<noteq> j"
  shows "in_log k q j L1 \<or> in_log k q j L2"
  using assms by (auto simp: in_log_def)

lemma in_log_distinct:
  assumes "in_log k p i L" and "in_log k q j L" and "i \<noteq> j" and "chain d L d'" and "stays k L"
  shows "mu_version p \<noteq> mu_version q"
proof -
  from assms(1,4) obtain L1 a b L2 old where L: "L = L1 @ (i, a, b) # L2" and c: "chain d L1 a" "chain b L2 d'"
    and m: "message_map a k = Some old" "m_version old = mu_version p" "message_map b k = Some (changed_message p old)"
    by (rule in_logE)
  from L assms(5) have st: "stays k L1" "stays k L2" by simp_all
  have "in_log k q j L1 \<or> in_log k q j L2"
    by (rule in_log_split [of k q j L1 i a b L2]) (use assms(2,3) L in simp_all)
  then show ?thesis
  proof
    assume "in_log k q j L2"
    from in_log_after [OF this c(2) st(2) m(3,2)] show ?thesis by simp
  next
    assume q: "in_log k q j L1"
    then obtain L3 e f L4 old' where L1: "L1 = L3 @ (j, e, f) # L4" and c': "chain f L4 a"
      and m': "m_version old' = mu_version q" "message_map f k = Some (changed_message q old')"
      using in_logE [OF q c(1)] by metis
    from L1 st(1) have "stays k L4" by simp
    from version_history [OF c' this m'(2) m(1)] m(2) m'(1) show ?thesis by simp
  qed
qed

subsection \<open>Sessions of requests\<close>

text \<open>The program of a session: that of its request, when the request is valid.\<close>

definition tasks :: "api_env \<Rightarrow> (nat \<Rightarrow> request option) \<Rightarrow> nat \<Rightarrow> response prog" where
  "tasks N reqs i =
     (case reqs i of
        None \<Rightarrow> Return no_content
      | Some req \<Rightarrow> (case route N req of Inl es \<Rightarrow> Raise (RequestValidationError es) | Inr p \<Rightarrow> p))"

definition idle :: "'s db_obs \<Rightarrow> 's \<Rightarrow> bool" where
  "idle B s \<longleftrightarrow> ob_ok B s \<and> (\<forall>i. \<not> ob_active B i s)"

lemma tasks_initial: "idle B s \<Longrightarrow> initial B (tasks N reqs) s"
  by (auto simp: initial_def idle_def tasks_def dest: route_writes_once split: option.split sum.split)

lemma tasks_update:
  assumes "reqs i = Some (PatchMessage v body)" and "path_id N v = Inr k"
    and "validate_MessageUpdate (en_pydantic N) body = Inr p"
  shows "tasks N reqs i = bind_prog (update_message k p) (\<lambda>x. Return (json_response 200 [] (message_json N x)))"
  using assms by (simp add: tasks_def update_message_route_def both_def ok_json_def)

text \<open>A PATCH of message \<open>k\<close> with payload \<open>p\<close> that has been answered with a success.\<close>

definition patched ::
  "api_env \<Rightarrow> (nat \<Rightarrow> request option) \<Rightarrow> (response, 's, 'c) config \<Rightarrow> uuid \<Rightarrow> nat \<Rightarrow> MessageUpdate \<Rightarrow> bool" where
  "patched N reqs cf k i p \<longleftrightarrow>
     (\<exists>v body r. reqs i = Some (PatchMessage v body) \<and> path_id N v = Inr k
        \<and> validate_MessageUpdate (en_pydantic N) body = Inr p \<and> cf_task cf i = Return r)"

subsection \<open>A run\<close>

text \<open>
  Session 0 updates the sample message, session 1 then deletes the author without messages: a run on
  the reference engine, step by step.
\<close>

definition sample_patch :: json where
  "sample_patch = JObj [(lit ''content'', JStr (lit ''Al'')), (lit ''version'', JInt 3)]"

definition sample_requests :: "nat \<Rightarrow> request option" where
  "sample_requests =
     (\<lambda>_. None)(0 := Some (PatchMessage (uuid_str 7) sample_patch), 1 := Some (DeleteAuthor (uuid_str 2)))"

definition patched_row :: message_row where
  "patched_row = changed_message sample_change sample_message"

definition patched_db :: db where
  "patched_db = apply_change (PutMessage patched_row) sample_db"

definition final_db :: db where
  "final_db = apply_change (DropAuthor 2) patched_db"

definition patched_out :: MessageOut where
  "patched_out = the (MessageOut_of patched_row (Some sample_author))"

lemma validate_sample_patch: "validate_MessageUpdate strict_pydantic sample_patch = Inr sample_change"
proof -
  have "clean (lit ''Al'') (lit ''content'') CONTENT_MAX = Inr (lit ''Al'')"
    by (simp add: clean_def py_strip_def lit_def py_isspace_def CONTENT_MAX_def)
  then show ?thesis
    by (simp add: validate_MessageUpdate_def sample_patch_def sample_change_def str_field_def optional_str_field_def
        int_field_def int_bounds_def lookup_field_def check_string_def MAX_INT4_def Let_def)
qed

lemma path_id_sample [simp]: "path_id sample_env (uuid_str k) = Inr k"
  by (simp add: path_id_def)

lemma sample_tasks:
  "tasks sample_env sample_requests 0
     = bind_prog (update_message 7 sample_change) (\<lambda>x. Return (json_response 200 [] (message_json sample_env x)))"
  "tasks sample_env sample_requests (Suc 0) = bind_prog (delete_author 2) (\<lambda>_. Return no_content)"
  by (simp_all add: tasks_def sample_requests_def update_message_route_def delete_author_route_def both_def
      validate_sample_patch ok_json_def)

lemma patched_row_sel: "m_id patched_row = 7" "m_author_id patched_row = 1" "m_version patched_row = 4"
  by (simp_all add: patched_row_def sample_message_def)

lemma patched_db_maps:
  "message_map patched_db 7 = Some patched_row" "author_map patched_db 1 = Some sample_author"
  "author_map patched_db 2 = Some sample_reader" "message_map final_db 7 = Some patched_row"
  by (simp_all add: patched_db_def final_db_def patched_row_sel sample_maps)

lemma patched_schema: "schema_ok patched_db"
  unfolding patched_db_def patched_row_def
  by (rule schema_ok_changed [OF sample_schema sample_maps(4)],
      rule changed_message_fits [OF message_map_fits [OF sample_schema sample_maps(4)]])
    (use sample_payloads_ok in \<open>simp_all add: sample_message_def sample_change_def\<close>)

definition writing_state :: ref_db where
  "writing_state = sample_state\<lparr>rd_owner := Some 0, rd_pending := [PutMessage patched_row]\<rparr>"

definition patched_state :: ref_db where
  "patched_state = sample_state\<lparr>rd_committed := patched_db, rd_clock := 1\<rparr>"

definition deleting_state :: ref_db where
  "deleting_state = patched_state\<lparr>rd_owner := Some 1, rd_pending := [DropAuthor 2]\<rparr>"

definition final_state :: ref_db where
  "final_state = sample_state\<lparr>rd_committed := final_db, rd_clock := 2\<rparr>"

lemma sample_state_sel:
  "rd_committed sample_state = sample_db" "rd_owner sample_state = None" "rd_pending sample_state = []"
  "rd_aborted sample_state = []" "rd_locks sample_state = []" "rd_clock sample_state = 0"
  by (simp_all add: sample_state_def ref_state_def)

lemmas run_defs = writing_state_def patched_state_def deleting_state_def final_state_def sample_state_sel
  ref_view_def ref_pending_def

lemma sample_exec:
  "ref_exec 0 (UpdateMessages [MessageIdIs 7, MessageVersionIs 3] (message_changes sample_change)) sample_state
     = Some (Reply (IdRows [7]), writing_state)"
  "ref_exec 0 (SelectMessages [MessageIdIs 7] [] None) writing_state
     = Some (Reply (MessageRows [(patched_row, Some sample_author)]), writing_state)"
  "ref_exec (Suc 0) (DeleteAuthors [AuthorIdIs 2]) patched_state = Some (Reply (IdRows [2]), deleting_state)"
  "ref_commit 0 writing_state = (CommitOk, patched_state)"
  "ref_commit (Suc 0) deleting_state = (CommitOk, final_state)"
proof -
  have v: "mu_version sample_change = 3" by (simp add: sample_change_def)
  have "update_messages_sem [MessageIdIs 7, MessageVersionIs 3] (message_changes sample_change) sample_db
      = Inr (IdRows [7], [PutMessage patched_row])"
    using update_one_message [OF sample_schema sample_payloads_ok(3-5), of 7]
    by (simp add: v sample_maps patched_row_def) (simp add: sample_message_def)
  then show "ref_exec 0 (UpdateMessages [MessageIdIs 7, MessageVersionIs 3] (message_changes sample_change)) sample_state
     = Some (Reply (IdRows [7]), writing_state)"
    by (simp add: ref_exec_def run_defs)
  have view: "ref_view 0 writing_state = patched_db" by (simp add: run_defs patched_db_def)
  show "ref_exec 0 (SelectMessages [MessageIdIs 7] [] None) writing_state
     = Some (Reply (MessageRows [(patched_row, Some sample_author)]), writing_state)"
    using patched_schema
    by (simp add: ref_exec_def view messages_where_id patched_db_maps with_author_def patched_row_sel)
      (simp add: run_defs)
  have "\<not> (\<exists>m \<in> set (db_messages patched_db). m_author_id m = 2)"
    by (simp add: patched_db_def sample_db_def sample_message_def patched_row_sel apply_change.simps)
  then have "delete_authors_sem [AuthorIdIs 2] patched_db = Inr (IdRows [2], [DropAuthor 2])"
    using patched_schema
    by (simp add: delete_authors_sem_def authors_where_id patched_db_maps) (simp add: sample_reader_def)
  then show "ref_exec (Suc 0) (DeleteAuthors [AuthorIdIs 2]) patched_state = Some (Reply (IdRows [2]), deleting_state)"
    by (simp add: ref_exec_def run_defs)
  show "ref_commit 0 writing_state = (CommitOk, patched_state)"
    by (simp add: ref_commit_def ref_end_def run_defs patched_db_def)
  show "ref_commit (Suc 0) deleting_state = (CommitOk, final_state)"
    by (simp add: ref_commit_def ref_end_def run_defs final_db_def)
qed

lemma sample_reach:
  "\<exists>cf sched. reach ref_engine ref_obs FakeCache (tasks sample_env sample_requests) (sample_state, empty_cache) sched cf
     \<and> cf_log cf = [(0, sample_db, patched_db), (1, patched_db, final_db)] \<and> ob_committed ref_obs (cf_db cf) = final_db
     \<and> cf_task cf 0 = Return (json_response 200 [] (message_json sample_env patched_out))"
proof -
  let ?T = "tasks sample_env sample_requests"
  let ?f = "\<lambda>x. Return (json_response 200 [] (message_json sample_env x))"
  let ?reach = "reach ref_engine ref_obs FakeCache ?T (sample_state, empty_cache)"
  let ?e = "empty_cache\<lparr>fc_calls := [CallEvict (uuid_str 7)]\<rparr>"
  have v: "mu_version sample_change = 3" by (simp add: sample_change_def)
  have a1: "advance ref_engine FakeCache 0 (?T 0) (sample_state, empty_cache)
      = Some (bind_prog (update_matched 7) ?f, writing_state, empty_cache)"
    by (simp add: sample_tasks update_message_def v sample_exec update_matched_def)
  have out: "MessageOut_of patched_row (Some sample_author) = Some patched_out"
    by (simp add: patched_out_def MessageOut_of_def)
  have a2: "advance ref_engine FakeCache 0 (bind_prog (update_matched 7) ?f) (writing_state, empty_cache)
      = Some (Commit (bind_prog (evict_and_return 7 patched_out) ?f) reraise, writing_state, empty_cache)"
    by (simp add: update_matched_def load_message_def sample_exec out evict_and_return_def)
  have a3: "advance ref_engine FakeCache 0 (Commit (bind_prog (evict_and_return 7 patched_out) ?f) reraise)
      (writing_state, empty_cache) = Some (bind_prog (evict_and_return 7 patched_out) ?f, patched_state, empty_cache)"
    by (simp add: sample_exec)
  have a4: "advance ref_engine FakeCache 0 (bind_prog (evict_and_return 7 patched_out) ?f) (patched_state, empty_cache)
      = Some (?f patched_out, patched_state, ?e)"
    by (simp add: evict_and_return_def FakeCache_def fake_evict_def empty_cache_def)
  have a5: "advance ref_engine FakeCache 1 (?T 1) (patched_state, ?e)
      = Some (Commit (Return no_content) (\<lambda>e. bind_prog (delete_author_failed 2 e) (\<lambda>_. Return no_content)), deleting_state, ?e)"
    by (simp add: sample_tasks delete_author_def sample_exec)
  have a6: "advance ref_engine FakeCache 1
      (Commit (Return no_content) (\<lambda>e. bind_prog (delete_author_failed 2 e) (\<lambda>_. Return no_content))) (deleting_state, ?e)
      = Some (Return no_content, final_state, ?e)"
    by (simp add: sample_exec)
  have u: "\<not> is_commit (bind_prog (update_message 7 sample_change) ?f)"
    "\<not> is_commit (bind_prog (update_matched 7) ?f)" "\<not> is_commit (bind_prog (evict_and_return 7 patched_out) ?f)"
    "\<not> is_commit (bind_prog (delete_author 2) (\<lambda>_. Return no_content))"
    by (simp_all add: update_message_def update_matched_def load_message_def evict_and_return_def delete_author_def)
  note start = reach.start [of ref_engine ref_obs FakeCache ?T "(sample_state, empty_cache)"]
  have "\<exists>cf. ?reach [0] cf \<and> cf_task cf = ?T(0 := bind_prog (update_matched 7) ?f) \<and> cf_db cf = writing_state
      \<and> cf_cache cf = empty_cache \<and> cf_log cf = []"
    using reach.await [OF start, of 0] a1 u by (fastforce simp: sample_tasks)
  then have "\<exists>cf. ?reach [0, 0] cf \<and> cf_task cf = ?T(0 := Commit (bind_prog (evict_and_return 7 patched_out) ?f) reraise)
      \<and> cf_db cf = writing_state \<and> cf_cache cf = empty_cache \<and> cf_log cf = []"
    using reach.await [where i = 0] a2 u by fastforce
  then have "\<exists>cf. ?reach [0, 0, 0] cf \<and> cf_task cf = ?T(0 := bind_prog (evict_and_return 7 patched_out) ?f)
      \<and> cf_db cf = patched_state \<and> cf_cache cf = empty_cache \<and> cf_log cf = [(0, sample_db, patched_db)]"
    using reach.await [where i = 0] a3 by (fastforce simp: run_defs)
  then have "\<exists>cf. ?reach [0, 0, 0, 0] cf \<and> cf_task cf = ?T(0 := ?f patched_out)
      \<and> cf_db cf = patched_state \<and> cf_cache cf = ?e \<and> cf_log cf = [(0, sample_db, patched_db)]"
    using reach.await [where i = 0] a4 u by fastforce
  then have "\<exists>cf. ?reach [0, 0, 0, 0, 1] cf \<and> cf_task cf = (?T(0 := ?f patched_out))
        (1 := Commit (Return no_content) (\<lambda>e. bind_prog (delete_author_failed 2 e) (\<lambda>_. Return no_content)))
      \<and> cf_db cf = deleting_state \<and> cf_cache cf = ?e \<and> cf_log cf = [(0, sample_db, patched_db)]"
    using reach.await [where i = 1] a5 u by (fastforce simp: sample_tasks)
  then have "\<exists>cf. ?reach [0, 0, 0, 0, 1, 1] cf \<and> cf_task cf 0 = ?f patched_out
      \<and> cf_db cf = final_state \<and> cf_log cf = [(0, sample_db, patched_db), (1, patched_db, final_db)]"
    using reach.await [where i = 1] a6 by (fastforce simp: run_defs)
  then show ?thesis by (auto simp: run_defs)
qed

lemma sample_idle: "idle ref_obs (fst (sample_state, empty_cache))"
  using sample_quiet unfolding idle_def quiet_def by (simp del: ref_obs_sel)

subsection \<open>Properties\<close>

text \<open>
  C5. Whatever requests run at the same time and however their awaits interleave, the version of a
  message never goes back while the message exists, and one version is one content: two commits
  after which the message has the same version show the same title, content and author.
\<close>

theorem version_identifies_content:
  assumes "sql_engine E B" and "reach E B C (tasks N reqs) w sched cf" and "idle B (fst w)"
    and "cf_log cf = L1 @ (i, a, b) # L2 @ [(j, a', b')] @ L3" and "stays k (L2 @ [(j, a', b')])"
    and "message_map b k = Some m" and "message_map b' k = Some m'"
  shows "m_version m \<le> m_version m' \<and> (m_version m' = m_version m \<longrightarrow> m' = m)"
proof -
  have "chain (ob_committed B (fst w)) (cf_log cf) (ob_committed B (cf_db cf))"
    using sql_engine.reach_disciplined [OF assms(1,2) tasks_initial [OF assms(3)]] by simp
  then have "chain b (L2 @ [(j, a', b')]) b'" by (auto simp: assms(4) chain_append)
  then show ?thesis using assms(5-7) by (rule version_history)
qed

theorem version_identifies_content_witness:
  "\<exists>cf sched. reach ref_engine ref_obs FakeCache (tasks sample_env sample_requests) (sample_state, empty_cache) sched cf
     \<and> cf_log cf = [(0, sample_db, patched_db), (1, patched_db, final_db)]
     \<and> (\<exists>m'. message_map final_db 7 = Some m' \<and> m_version patched_row \<le> m_version m'
          \<and> (m_version m' = m_version patched_row \<longrightarrow> m' = patched_row))"
proof -
  obtain cf sched where r: "reach ref_engine ref_obs FakeCache (tasks sample_env sample_requests)
      (sample_state, empty_cache) sched cf" "cf_log cf = [(0, sample_db, patched_db), (1, patched_db, final_db)]"
    using sample_reach by blast
  from version_identifies_content [OF ref.sql_engine_axioms r(1) sample_idle, where ?L1.0 = "[]" and i = 0
      and a = sample_db and b = patched_db and ?L2.0 = "[]" and j = 1 and a' = patched_db and b' = final_db
      and ?L3.0 = "[]" and k = 7 and m = patched_row and m' = patched_row] r(2)
  have "m_version patched_row \<le> m_version patched_row
      \<and> (m_version patched_row = m_version patched_row \<longrightarrow> patched_row = patched_row)"
    by (simp add: patched_db_maps)
  with r patched_db_maps(4) show ?thesis by blast
qed

text \<open>
  C3. A PATCH that is answered 200 was applied exactly once, to the very row whose version the
  client sent: there is a commit of its session before which the message had this version and after
  which it has the client's content and the next version, and this is what the answer says.
\<close>

theorem successful_update_was_applied:
  assumes "sql_engine E B" and "reach E B C (tasks N reqs) w sched cf" and "idle B (fst w)"
    and "reqs i = Some (PatchMessage v body)" and "path_id N v = Inr k"
    and "validate_MessageUpdate (en_pydantic N) body = Inr p" and "cf_task cf i = Return r"
  shows "\<exists>d d' old out. (i, d, d') \<in> set (cf_log cf) \<and> message_map d k = Some old
     \<and> m_version old = mu_version p \<and> message_map d' k = Some (changed_message p old)
     \<and> r = json_response 200 [] (message_json N out)
     \<and> ms_id out = k \<and> ms_content out = mu_content p \<and> ms_version out = mu_version p + 1"
proof -
  have "update_point k p (\<lambda>x. json_response 200 [] (message_json N x)) i (cf_task cf i) (ob_aborted B i (cf_db cf))
      (ob_pending B i (cf_db cf)) (ob_committed B (cf_db cf)) (cf_log cf)"
    by (rule sql_engine.reach_update_point [OF assms(1,2) tasks_initial [OF assms(3)] tasks_update [where N = N and reqs = reqs and i = i, OF assms(4-6)]])
  from update_point_ended [OF this] assms(7) show ?thesis
    by (auto simp: in_log_def updated_def)
qed

theorem successful_update_was_applied_witness:
  "\<exists>cf sched d d' old. reach ref_engine ref_obs FakeCache (tasks sample_env sample_requests) (sample_state, empty_cache) sched cf
     \<and> (0, d, d') \<in> set (cf_log cf) \<and> message_map d 7 = Some old \<and> m_version old = 3"
proof -
  obtain cf sched where r: "reach ref_engine ref_obs FakeCache (tasks sample_env sample_requests)
      (sample_state, empty_cache) sched cf"
    "cf_task cf 0 = Return (json_response 200 [] (message_json sample_env patched_out))"
    using sample_reach by blast
  from successful_update_was_applied [OF ref.sql_engine_axioms r(1) sample_idle, where i = 0 and v = "uuid_str 7"
      and body = sample_patch and k = 7 and p = sample_change] r(2)
  have "\<exists>d d' old. (0, d, d') \<in> set (cf_log cf) \<and> message_map d 7 = Some old \<and> m_version old = mu_version sample_change"
    by (auto simp: sample_requests_def validate_sample_patch)
  with r(1) show ?thesis by (auto simp: sample_change_def)
qed

text \<open>
  C1. No update is lost. Of the PATCH requests of one message that are answered 200 while the
  message exists, no two named the same version, each named a version the message had in the
  meantime, and there are at most as many as the version has grown.
\<close>

theorem no_lost_update:
  assumes "sql_engine E B" and "reach E B C (tasks N reqs) w sched cf" and "idle B (fst w)"
    and "\<And>i. i \<in> S \<Longrightarrow> patched N reqs cf k i (p i)" and "finite S" and "stays k (cf_log cf)"
    and "message_map (ob_committed B (fst w)) k = Some m0" and "message_map (ob_committed B (cf_db cf)) k = Some m1"
  shows "inj_on (\<lambda>i. mu_version (p i)) S
     \<and> (\<forall>i \<in> S. m_version m0 \<le> mu_version (p i) \<and> mu_version (p i) < m_version m1)
     \<and> int (card S) \<le> m_version m1 - m_version m0"
proof -
  have chain: "chain (ob_committed B (fst w)) (cf_log cf) (ob_committed B (cf_db cf))"
    using sql_engine.reach_disciplined [OF assms(1,2) tasks_initial [OF assms(3)]] by simp
  have log: "in_log k (p i) i (cf_log cf)" if "i \<in> S" for i
  proof -
    from assms(4) [OF that] obtain v body r where r: "reqs i = Some (PatchMessage v body)" "path_id N v = Inr k"
      "validate_MessageUpdate (en_pydantic N) body = Inr (p i)" "cf_task cf i = Return r" by (auto simp: patched_def)
    from update_point_ended [OF sql_engine.reach_update_point [OF assms(1,2) tasks_initial [OF assms(3)]
        tasks_update [where N = N and reqs = reqs and i = i, OF r(1-3)]]] r(4) show ?thesis by auto
  qed
  have range: "\<forall>i \<in> S. m_version m0 \<le> mu_version (p i) \<and> mu_version (p i) < m_version m1"
    using in_log_range [OF log chain assms(6-8)] by blast
  have inj: "inj_on (\<lambda>i. mu_version (p i)) S"
    using in_log_distinct [OF log log _ chain assms(6)] by (meson inj_onI)
  have "card S = card ((\<lambda>i. mu_version (p i)) ` S)" using inj by (simp add: card_image)
  also have "\<dots> \<le> card {m_version m0 ..< m_version m1}"
    by (rule card_mono) (use range in auto)
  finally have "card S \<le> nat (m_version m1 - m_version m0)" by simp
  moreover have "m_version m0 \<le> m_version m1"
    using version_history [OF chain assms(6-8)] by simp
  ultimately show ?thesis using inj range by linarith
qed

theorem no_lost_update_witness:
  "\<exists>cf sched. reach ref_engine ref_obs FakeCache (tasks sample_env sample_requests) (sample_state, empty_cache) sched cf
     \<and> patched sample_env sample_requests cf 7 0 sample_change
     \<and> 3 \<le> mu_version sample_change \<and> mu_version sample_change < m_version patched_row
     \<and> int (card {0::nat}) \<le> m_version patched_row - 3"
proof -
  obtain cf sched where r: "reach ref_engine ref_obs FakeCache (tasks sample_env sample_requests)
      (sample_state, empty_cache) sched cf" "cf_log cf = [(0, sample_db, patched_db), (1, patched_db, final_db)]"
    "ob_committed ref_obs (cf_db cf) = final_db"
    "cf_task cf 0 = Return (json_response 200 [] (message_json sample_env patched_out))"
    using sample_reach by blast
  have p: "patched sample_env sample_requests cf 7 0 sample_change"
    unfolding patched_def by (intro exI [of _ "uuid_str 7"] exI [of _ sample_patch])
      (simp add: sample_requests_def validate_sample_patch r(4))
  have "stays 7 (cf_log cf)" by (simp add: r(2) patched_db_maps)
  from no_lost_update [OF ref.sql_engine_axioms r(1) sample_idle, where S = "{0}" and k = 7 and p = "\<lambda>_. sample_change"
      and ?m0.0 = sample_message and ?m1.0 = patched_row, OF _ _ this] p r(3)
  have "m_version sample_message \<le> mu_version sample_change \<and> mu_version sample_change < m_version patched_row
      \<and> int (card {0::nat}) \<le> m_version patched_row - m_version sample_message"
    by (simp add: sample_state_sel sample_maps patched_db_maps)
  with r(1) p show ?thesis by (auto simp: sample_message_def)
qed

end
