(* ===== verification/Snapshots.thy ===== *)
theory Snapshots
  imports Concurrency
begin

section \<open>What a cached read can show\<close>

text \<open>
  The cache is filled by readers and emptied by writers, without a lock between the tables and the
  cache. Here, for every interleaving of every set of requests, what is in the cache and what a GET
  of a message answers is the message as it was committed at some moment of the run: a read is never
  invented, never of an uncommitted update and never of another message. It can be old: the run the
  comment in \<open>update_message\<close> warns of, a slow reader that fills the cache right after the eviction
  of an update, is one of the interleavings, and so is the same run with a deletion.
\<close>

subsection \<open>The states the tables have had\<close>

definition snapshots :: "'s db_obs \<Rightarrow> 's \<Rightarrow> (nat \<times> db \<times> db) list \<Rightarrow> db set" where
  "snapshots B s L = insert (ob_committed B s) ((\<lambda>commit. snd (snd commit)) ` set L)"

definition shown_in :: "db set \<Rightarrow> uuid \<Rightarrow> MessageOut \<Rightarrow> bool" where
  "shown_in S k out \<longleftrightarrow> (\<exists>d \<in> S. schema_ok d \<and> shown_message (abs_store d) k = Some out)"

text \<open>Every entry of the cache is a message of one of the states, under its own id.\<close>

definition cache_from :: "json_codec \<Rightarrow> db set \<Rightarrow> (pystr \<Rightarrow> pystr option) \<Rightarrow> bool" where
  "cache_from J S m \<longleftrightarrow>
     (\<forall>key text. m key = Some text \<longrightarrow> (\<exists>k out. key = uuid_str k \<and> shown_in S k out \<and> text = jc_dump J out))"

lemma shown_in_mono: "shown_in S k out \<Longrightarrow> S \<subseteq> S' \<Longrightarrow> shown_in S' k out"
  by (auto simp: shown_in_def)

lemma shown_in_load: "codec_ok J \<Longrightarrow> shown_in S k out \<Longrightarrow> jc_load J (jc_dump J out) = Some out"
  by (auto simp: shown_in_def cached_shown)

lemma cache_from_mono: "cache_from J S m \<Longrightarrow> S \<subseteq> S' \<Longrightarrow> cache_from J S' m"
  unfolding cache_from_def using shown_in_mono by blast

lemma cache_from_remove: "cache_from J S m \<Longrightarrow> cache_from J S (m(key := None))"
  by (simp add: cache_from_def)

lemma cache_from_put: "cache_from J S m \<Longrightarrow> shown_in S k out \<Longrightarrow> cache_from J S (m(uuid_str k \<mapsto> jc_dump J out))"
  by (auto simp: cache_from_def)

lemma cache_from_hit:
  assumes "cache_from J S m" and "m (uuid_str k) = Some text"
  obtains out where "shown_in S k out" "text = jc_dump J out"
  using assms unfolding cache_from_def by (metis uuid_str_inject)

lemma snapshots_grow:
  "snapshots B s L \<subseteq> snapshots B s (L @ L')" "ob_committed B s \<in> snapshots B s []"
  "b \<in> snapshots B s (L @ [(i, a, b)])"
  by (auto simp: snapshots_def)

subsection \<open>Who fills the cache\<close>

text \<open>\<open>no_set\<close>: the program stores nothing in the cache. Only \<open>get_message\<close> does.\<close>

primrec no_set :: "'a prog \<Rightarrow> bool" where
  "no_set (Return x) \<longleftrightarrow> True"
| "no_set (Raise e) \<longleftrightarrow> True"
| "no_set (Exec st k h) \<longleftrightarrow> (\<forall>r. no_set (k r)) \<and> (\<forall>e. no_set (h e))"
| "no_set (Commit k h) \<longleftrightarrow> no_set k \<and> (\<forall>e. no_set (h e))"
| "no_set (Rollback k) \<longleftrightarrow> no_set k"
| "no_set (CacheGet key k) \<longleftrightarrow> (\<forall>v. no_set (k v))"
| "no_set (CacheSet key v k) \<longleftrightarrow> False"
| "no_set (CacheEvict key k) \<longleftrightarrow> no_set k"

lemma no_set_bind: "no_set p \<Longrightarrow> (\<And>x. no_set (f x)) \<Longrightarrow> no_set (bind_prog p f)"
  by (induction p) auto

lemma no_set_simps [simp]: "no_set (reraise e)"
  by (simp add: reraise_def)

lemma no_set_scalar:
  "(\<And>x. no_set (k x)) \<Longrightarrow> no_set (scalar_one_or_none rs k)" "(\<And>x. no_set (f x)) \<Longrightarrow> no_set (scalar_one rs f)"
  by (auto simp: scalar_one_or_none_def scalar_one_def split: list.split)

lemma no_set_load: "(\<And>x. no_set (k x)) \<Longrightarrow> no_set (load_message i k)"
  by (auto simp: load_message_def intro!: no_set_scalar split: option.split)

lemma handlers_set_nothing:
  "no_set (list_messages l f)" "no_set (create_message mc)" "no_set (update_message k mu)" "no_set (delete_message k)"
  "no_set (list_authors l f)" "no_set (get_author k inc)" "no_set (create_author ac)"
  "no_set (update_author k au)" "no_set (delete_author k)"
  by (auto simp: svc_defs intro!: no_set_scalar no_set_load split: option.split)

lemma route_sets_nothing: "route N req = Inr p \<Longrightarrow> (\<nexists>v. req = GetMessage v) \<Longrightarrow> no_set p"
  by (cases req) (auto simp: route_defs intro!: no_set_bind handlers_set_nothing split: sum.splits)

subsection \<open>The points of a read\<close>

definition fill_cache :: "json_codec \<Rightarrow> uuid \<Rightarrow> MessageOut option \<Rightarrow> MessageOut prog" where
  "fill_cache J k message =
     (case message of
        None \<Rightarrow> Raise (ApiExn (message_not_found k))
      | Some out \<Rightarrow> CacheSet (uuid_str k) (jc_dump J out) (Return out))"

text \<open>
  A GET of message \<open>k\<close> has not asked the cache yet, has missed and not loaded yet, or holds a message
  that was committed in one of the states \<open>S\<close>; or it can only fail.
\<close>

definition get_point :: "json_codec \<Rightarrow> uuid \<Rightarrow> (MessageOut \<Rightarrow> 'a) \<Rightarrow> db set \<Rightarrow> 'a prog \<Rightarrow> change list \<Rightarrow> bool" where
  "get_point J k g S t pending \<longleftrightarrow>
     hopeless t \<and> no_set t
   \<or> pending = [] \<and> (t = bind_prog (get_message J k) (\<lambda>x. Return (g x))
        \<or> t = bind_prog (load_message k (fill_cache J k)) (\<lambda>x. Return (g x)))
   \<or> (\<exists>out. shown_in S k out \<and> (t = CacheSet (uuid_str k) (jc_dump J out) (Return (g out)) \<or> t = Return (g out)))"

lemma get_point_mono: "get_point J k g S t pending \<Longrightarrow> S \<subseteq> S' \<Longrightarrow> get_point J k g S' t pending"
  unfolding get_point_def using shown_in_mono by blast

lemma get_message_fill:
  "get_message J k = CacheGet (uuid_str k) (\<lambda>cached. case cached of
      Some text \<Rightarrow> (case jc_load J text of None \<Rightarrow> Raise ValidationError | Some message \<Rightarrow> Return message)
    | None \<Rightarrow> load_message k (fill_cache J k))"
proof -
  have "fill_cache J k = (\<lambda>message. case message of
      None \<Rightarrow> Raise (ApiExn (message_not_found k))
    | Some out \<Rightarrow> CacheSet (uuid_str k) (jc_dump J out) (Return out))"
    by (rule ext) (simp add: fill_cache_def)
  then show ?thesis unfolding get_message_def by (simp only:)
qed

lemma get_point_ended:
  assumes "get_point J k g S (Return r) pending"
  shows "\<exists>out. shown_in S k out \<and> r = g out"
  using assms by (auto simp: get_point_def get_message_def load_message_def)

lemma no_set_advance: "no_set t \<Longrightarrow> advance E C i t w = Some (t', s', c') \<Longrightarrow> no_set t'"
  by (cases t; cases w) (auto split: option.splits prod.splits reply.splits commit_reply.splits sum.splits)

context service_setting
begin

text \<open>A program that stores nothing can only take entries away, also when a call fails.\<close>

lemma no_set_cache:
  assumes "no_set t" and "cache_from J S (contents c)" and "advance E C i t (s, c) = Some (t', s', c')"
  shows "cache_from J S (contents c')"
proof (cases t)
  case (CacheGet key k)
  then obtain r where "c_get C key c = (r, c')" using assms(3) by (auto split: prod.splits sum.splits)
  with assms(2) get_contents show ?thesis by metis
next
  case (CacheEvict key k)
  then obtain r where r: "c_evict C key c = (r, c')" using assms(3) by (auto split: prod.splits sum.splits)
  have "contents c' \<in> {contents c, (contents c)(key := None)}"
    using r evict_ok [of key c] evict_err [of key c] by (cases r) auto
  with assms(2) cache_from_remove show ?thesis by auto
qed (use assms in \<open>auto split: option.splits prod.splits reply.splits commit_reply.splits\<close>)

lemma get_point_lookup:
  assumes "advance E C i (bind_prog (get_message J k) (\<lambda>x. Return (g x))) (s, c) = Some (t, s', c')"
    and "cache_from J S (contents c)" and "codec_ok J" and "ob_pending B i s = []"
  shows "get_point J k g S t (ob_pending B i s') \<and> contents c' = contents c"
proof -
  obtain r where r: "c_get C (uuid_str k) c = (r, c')" "s' = s"
    using assms(1) by (auto simp: get_message_def split: prod.splits sum.splits)
  note same = get_contents [OF r(1)]
  show ?thesis
  proof (cases r)
    case (Inl e)
    with assms(1) r same show ?thesis by (auto simp: get_message_def get_point_def)
  next
    case (Inr raw)
    with r(1) have raw: "raw = contents c (uuid_str k)" using get_value by blast
    show ?thesis
    proof (cases raw)
      case None
      with assms(1,4) r Inr same show ?thesis by (simp add: get_message_fill get_point_def)
    next
      case (Some js)
      with raw assms(2) obtain out where out: "shown_in S k out" "js = jc_dump J out"
        by (metis cache_from_hit)
      with shown_in_load [OF assms(3) out(1)] assms(1) r Inr Some same show ?thesis
        by (auto simp: get_message_fill get_point_def)
    qed
  qed
qed

lemma get_point_load:
  assumes "advance E C i (bind_prog (load_message k (fill_cache J k)) (\<lambda>x. Return (g x))) (s, c) = Some (t, s', c')"
    and "ob_pending B i s = []" and "ob_ok B s" and "ob_committed B s \<in> S"
  shows "get_point J k g S t (ob_pending B i s') \<and> c' = c"
proof -
  let ?st = "SelectMessages [MessageIdIs k] [] None"
  obtain rep where rep: "e_exec E i ?st s = Some (rep, s')" "c' = c"
    using assms(1) by (auto simp: load_message_def split: option.splits prod.splits reply.splits)
  show ?thesis
  proof (rule exec_reply_cases [OF rep(1)])
    assume "\<And>r. rep \<noteq> Reply r"
    with rep assms(1) show ?thesis
      by (cases rep) (auto simp: load_message_def get_point_def)
  next
    fix r chs
    assume r: "rep = Reply r" "sql_sem (ob_uuid B i s) (ob_now B i s) ?st (ob_view B i s) = Inr (r, chs)"
    have view: "ob_view B i s = ob_committed B s" using assms(2) by (simp add: ob_view_def)
    have ok: "schema_ok (ob_committed B s)" using ok_schema [OF assms(3)] by simp
    show ?thesis
    proof (cases "message_map (ob_committed B s) k")
      case None
      with r(2) view ok have "r = MessageRows []" by (simp add: messages_where_id)
      with r(1) rep assms(1) have "t = Raise (ApiExn (message_not_found k))"
        by (simp add: load_message_def fill_cache_def)
      with rep(2) show ?thesis by (simp add: get_point_def)
    next
      case (Some m)
      from shown_message_Some [OF ok Some] obtain a out where out: "author_map (ob_committed B s) (m_author_id m) = Some a"
        "MessageOut_of m (Some a) = Some out" "shown_message (abs_store (ob_committed B s)) k = Some out" .
      have "r = MessageRows [(m, Some a)]" using r(2) view ok Some out(1) by (simp add: messages_where_id with_author_def)
      with r(1) rep assms(1) out(2) have "t = CacheSet (uuid_str k) (jc_dump J out) (Return (g out))"
        by (simp add: load_message_def fill_cache_def)
      moreover have "shown_in S k out" using ok out(3) assms(4) by (auto simp: shown_in_def)
      ultimately show ?thesis using rep(2) by (auto simp: get_point_def)
    qed
  qed
qed

lemma get_point_fill:
  assumes "advance E C i (CacheSet (uuid_str k) (jc_dump J out) (Return (g out))) (s, c) = Some (t, s', c')"
    and "cache_from J S (contents c)" and "shown_in S k out"
  shows "get_point J k g S t p \<and> cache_from J S (contents c')"
proof -
  obtain r where r: "c_set C (uuid_str k) (jc_dump J out) c = (r, c')"
    "t = (case r of Inl e \<Rightarrow> Raise (CacheError e) | Inr _ \<Rightarrow> Return (g out))"
    using assms(1) by (auto split: prod.splits sum.splits)
  have "contents c' \<in> {contents c, (contents c)(uuid_str k \<mapsto> jc_dump J out)}"
    using r(1) set_ok [of "uuid_str k"] set_err [of "uuid_str k"] by (cases r) auto
  moreover have "cache_from J S ((contents c)(uuid_str k \<mapsto> jc_dump J out))"
    using assms(2,3) by (rule cache_from_put)
  ultimately have "cache_from J S (contents c')" using assms(2) by auto
  with r(2) assms(3) show ?thesis by (cases r) (auto simp: get_point_def)
qed

text \<open>One await of a read.\<close>

lemma get_point_own:
  assumes "get_point J k g S t (ob_pending B i s)" and "ob_ok B s" and "ob_committed B s \<in> S"
    and "cache_from J S (contents c)" and "codec_ok J" and "advance E C i t (s, c) = Some (t', s', c')"
  shows "get_point J k g S t' (ob_pending B i s') \<and> cache_from J S (contents c')"
proof -
  consider (hopeless) "hopeless t" "no_set t"
    | (lookup) "ob_pending B i s = []" "t = bind_prog (get_message J k) (\<lambda>x. Return (g x))"
    | (load) "ob_pending B i s = []" "t = bind_prog (load_message k (fill_cache J k)) (\<lambda>x. Return (g x))"
    | (fill) out where "shown_in S k out" "t = CacheSet (uuid_str k) (jc_dump J out) (Return (g out))"
    | (ended) out where "t = Return (g out)"
    using assms(1) unfolding get_point_def by blast
  then show ?thesis
  proof cases
    case hopeless
    with assms(4,6) show ?thesis
      by (auto simp: get_point_def dest: hopeless_advance no_set_advance no_set_cache)
  next
    case lookup
    with get_point_lookup [of i J k g s c t' s' c' S] assms(4-6) show ?thesis by simp
  next
    case load
    with get_point_load [of i k J g s c t' s' c' S] assms(2-4,6) show ?thesis by simp
  next
    case fill
    with get_point_fill [of i k J out g s c t' s' c' S] assms(4,6) show ?thesis by simp
  next
    case ended
    with assms(6) show ?thesis by simp
  qed
qed

end

subsection \<open>The invariant of a run\<close>

text \<open>The id a session reads, when its request is a valid GET of a message.\<close>

definition wanted :: "api_env \<Rightarrow> request option \<Rightarrow> uuid option" where
  "wanted N req =
     (case req of
        Some (GetMessage v) \<Rightarrow> (case path_id N v of Inl es \<Rightarrow> None | Inr k \<Rightarrow> Some k)
      | _ \<Rightarrow> None)"

definition read_point :: "api_env \<Rightarrow> request option \<Rightarrow> db set \<Rightarrow> response prog \<Rightarrow> change list \<Rightarrow> bool" where
  "read_point N req S t pending \<longleftrightarrow>
     (case wanted N req of
        None \<Rightarrow> no_set t
      | Some k \<Rightarrow> get_point (en_codec N) k (\<lambda>x. json_response 200 [] (message_json N x)) S t pending)"

definition read_state ::
  "api_env \<Rightarrow> 's db_obs \<Rightarrow> ('c \<Rightarrow> contents) \<Rightarrow> (nat \<Rightarrow> request option) \<Rightarrow> db set
     \<Rightarrow> (response, 's, 'c) config \<Rightarrow> bool" where
  "read_state N B contents reqs S cf \<longleftrightarrow>
     ob_committed B (cf_db cf) \<in> S \<and> cache_from (en_codec N) S (contents (cf_cache cf))
     \<and> (\<forall>i. read_point N (reqs i) S (cf_task cf i) (ob_pending B i (cf_db cf)))"

lemma read_point_mono: "read_point N req S t p \<Longrightarrow> S \<subseteq> S' \<Longrightarrow> read_point N req S' t p"
  by (auto simp: read_point_def get_point_mono split: option.split)

lemma read_point_start: "read_point N (reqs i) S (tasks N reqs i) []"
proof (cases "wanted N (reqs i)")
  case None
  have "no_set p" if "reqs i = Some req" "route N req = Inr p" for req p
  proof (cases "\<exists>v. req = GetMessage v")
    case True
    with None that show ?thesis by (auto simp: wanted_def get_message_route_def split: sum.splits)
  qed (use that(2) in \<open>rule route_sets_nothing\<close>)
  then show ?thesis using None
    by (auto simp: read_point_def tasks_def split: sum.splits option.splits)
next
  case (Some k)
  then obtain v where "reqs i = Some (GetMessage v)" "path_id N v = Inr k"
    by (auto simp: wanted_def split: option.splits request.splits sum.splits)
  with Some show ?thesis
    by (simp add: read_point_def tasks_def get_message_route_def ok_json_def get_point_def)
qed

context service_setting
begin

lemma read_point_own:
  assumes "read_point N req S t (ob_pending B i s)" and "ob_ok B s" and "ob_committed B s \<in> S"
    and "cache_from (en_codec N) S (contents c)" and "codec_ok (en_codec N)"
    and "advance E C i t (s, c) = Some (t', s', c')"
  shows "read_point N req S t' (ob_pending B i s') \<and> cache_from (en_codec N) S (contents c')"
proof (cases "wanted N req")
  case None
  with assms(1,4,6) show ?thesis by (auto simp: read_point_def dest: no_set_advance no_set_cache)
next
  case (Some k)
  with assms get_point_own [of "en_codec N" k _ S t i s c t' s' c'] show ?thesis
    by (simp add: read_point_def)
qed

lemma reach_read_state:
  assumes "reach E B C (tasks N reqs) w sched cf" and "idle B (fst w)" and "codec_ok (en_codec N)"
    and "cache_from (en_codec N) {ob_committed B (fst w)} (contents (snd w))"
  shows "read_state N B contents reqs (snapshots B (fst w) (cf_log cf)) cf"
  using assms
proof (induction rule: reach.induct)
  case start
  then show ?case
    by (simp add: read_state_def snapshots_def read_point_start idle_def inactive)
next
  case (await sched cf i r)
  obtain t s' c' where r: "r = (t, s', c')" by (cases r)
  let ?S = "snapshots B (fst w) (cf_log cf)"
  let ?S' = "snapshots B (fst w) (cf_log (move B i r cf))"
  have IH: "read_state N B contents reqs ?S cf" using await by blast
  have disc: "disciplined B (cf_task cf) (cf_db cf)"
    using reach_disciplined [OF await.hyps(1) tasks_initial [OF await.prems(1)]] by simp
  have adv: "advance E C i (cf_task cf i) (cf_db cf, cf_cache cf) = Some (t, s', c')"
    using await.hyps(2) r by simp
  have grow: "?S \<subseteq> ?S'" unfolding r move_sel by (rule snapshots_grow)
  have own: "read_point N (reqs i) ?S t (ob_pending B i s')" "cache_from (en_codec N) ?S (contents c')"
    using read_point_own [of N "reqs i" ?S "cf_task cf i" i "cf_db cf" "cf_cache cf" t s' c'] IH adv disc await.prems(2)
    by (simp_all add: read_state_def disciplined_def)
  have now: "ob_committed B s' \<in> ?S'"
  proof (cases "is_commit (cf_task cf i)")
    case True
    then show ?thesis using snapshots_grow(3) by (simp add: r)
  next
    case False
    with advance_disciplined [OF disc adv] IH show ?thesis by (simp add: r read_state_def)
  qed
  have "read_point N (reqs j) ?S' (((cf_task cf)(i := t)) j) (ob_pending B j s')" for j
  proof (cases "j = i")
    case True
    with own(1) grow show ?thesis by (auto intro: read_point_mono)
  next
    case False
    with advance_others [OF adv] IH grow show ?thesis
      by (auto simp: others_same_def read_state_def intro: read_point_mono)
  qed
  with own(2) grow now show ?case
    by (simp add: r read_state_def cache_from_mono del: fun_upd_apply)
next
  case (close sched cf i)
  then have IH: "read_state N B contents reqs (snapshots B (fst w) (cf_log cf)) cf" by blast
  note roll = rollback_end [of i "cf_db cf"]
  have "read_point N (reqs j) (snapshots B (fst w) (cf_log cf)) (cf_task cf j) (ob_pending B j (e_rollback E i (cf_db cf)))"
    for j
  proof (cases "j = i")
    case True
    have "read_point N (reqs i) S (cf_task cf i) p \<Longrightarrow> read_point N (reqs i) S (cf_task cf i) []" for S p
      by (auto simp: read_point_def get_point_def split: option.splits)
    with True roll inactive IH show ?thesis by (metis read_state_def)
  next
    case False
    with IH roll show ?thesis by (simp add: others_same_def read_state_def)
  qed
  with IH roll show ?case by (simp add: read_state_def)
qed

end

subsection \<open>A slow reader\<close>

text \<open>
  Session 1 reads the sample message and has missed and loaded it when session 0 updates it, from the
  UPDATE to the eviction; then session 1 fills the cache, and session 2 starts to read.
\<close>

definition race_requests :: "nat \<Rightarrow> request option" where
  "race_requests =
     (\<lambda>_. None)(0 := Some (PatchMessage (uuid_str 7) sample_patch), 1 := Some (GetMessage (uuid_str 7)),
              2 := Some (GetMessage (uuid_str 7)))"

definition race_schedule :: "nat list" where
  "race_schedule = [1, 1] @ [0, 0, 0, 0] @ [1] @ [2]"

definition old_out :: MessageOut where
  "old_out = the (MessageOut_of sample_message (Some sample_author))"

lemma old_out: "MessageOut_of sample_message (Some sample_author) = Some old_out"
  by (simp add: old_out_def MessageOut_of_def)

lemma patched_out: "MessageOut_of patched_row (Some sample_author) = Some patched_out"
  by (simp add: patched_out_def MessageOut_of_def)

definition race_cache :: "fake_call list \<Rightarrow> (pystr \<times> pystr) list \<Rightarrow> fake_cache" where
  "race_cache calls entries = \<lparr>fc_data = entries, fc_calls = calls\<rparr>"

lemma race_cache_calls:
  "c_get FakeCache key (race_cache calls entries)
     = (Inr (map_of entries key), race_cache (calls @ [CallGet key]) entries)"
  "c_evict FakeCache key (race_cache calls entries)
     = (Inr (), race_cache (calls @ [CallEvict key]) (AList.delete key entries))"
  "c_set FakeCache key v (race_cache calls entries)
     = (Inr (), race_cache (calls @ [CallSet key]) (AList.update key v entries))"
  by (simp_all add: FakeCache_def fake_get_def fake_evict_def fake_set_def race_cache_def)

lemma empty_race_cache: "empty_cache = race_cache [] []"
  by (simp add: empty_cache_def race_cache_def)

lemma race_load:
  "ref_exec (Suc 0) (SelectMessages [MessageIdIs 7] [] None) sample_state
     = Some (Reply (MessageRows [(sample_message, Some sample_author)]), sample_state)"
proof -
  have "m_author_id sample_message = 1" by (simp add: sample_message_def)
  then show ?thesis
    using sample_schema
    by (simp add: ref_exec_def run_defs messages_where_id sample_maps with_author_def)
qed

lemma reach_step:
  assumes "reach E B C T w sched \<lparr>cf_task = U, cf_db = s, cf_cache = c, cf_log = L\<rparr>"
    and "advance E C i (U i) (s, c) = Some (t, s', c')"
    and "L' = L @ (if is_commit (U i) then [(i, ob_committed B s, ob_committed B s')] else [])"
  shows "reach E B C T w (sched @ [i]) \<lparr>cf_task = U(i := t), cf_db = s', cf_cache = c', cf_log = L'\<rparr>"
  using reach.await [OF assms(1), of i "(t, s', c')"] assms(2,3) by (simp add: move_def cong: if_cong)

abbreviation answer_200 :: "MessageOut \<Rightarrow> response prog" where
  "answer_200 out \<equiv> Return (json_response 200 [] (message_json sample_env out))"

lemma race_tasks:
  "tasks sample_env race_requests 0 = bind_prog (update_message 7 sample_change) answer_200"
  "tasks sample_env race_requests (Suc 0) = bind_prog (get_message sample_codec 7) answer_200"
  "tasks sample_env race_requests 2 = bind_prog (get_message sample_codec 7) answer_200"
  by (simp_all add: tasks_def race_requests_def update_message_route_def get_message_route_def both_def
      validate_sample_patch ok_json_def)

text \<open>The awaits of the run, one by one.\<close>

lemma race_reader:
  "advance ref_engine FakeCache (Suc 0) (bind_prog (get_message sample_codec 7) answer_200) (sample_state, empty_cache)
     = Some (bind_prog (load_message 7 (fill_cache sample_codec 7)) answer_200, sample_state,
             race_cache [CallGet (uuid_str 7)] [])"
  "advance ref_engine FakeCache (Suc 0) (bind_prog (load_message 7 (fill_cache sample_codec 7)) answer_200) (sample_state, c)
     = Some (CacheSet (uuid_str 7) (jc_dump sample_codec old_out) (answer_200 old_out), sample_state, c)"
  "advance ref_engine FakeCache (Suc 0) (CacheSet (uuid_str 7) text (answer_200 old_out)) (s, race_cache calls [])
     = Some (answer_200 old_out, s, race_cache (calls @ [CallSet (uuid_str 7)]) [(uuid_str 7, text)])"
  by (simp_all add: empty_race_cache get_message_fill race_cache_calls load_message_def race_load old_out fill_cache_def)

lemma race_updater:
  "advance ref_engine FakeCache 0 (bind_prog (update_message 7 sample_change) answer_200) (sample_state, c)
     = Some (bind_prog (update_matched 7) answer_200, writing_state, c)"
  "advance ref_engine FakeCache 0 (bind_prog (update_matched 7) answer_200) (writing_state, c)
     = Some (Commit (bind_prog (evict_and_return 7 patched_out) answer_200) reraise, writing_state, c)"
  "advance ref_engine FakeCache 0 (Commit (bind_prog (evict_and_return 7 patched_out) answer_200) reraise) (writing_state, c)
     = Some (bind_prog (evict_and_return 7 patched_out) answer_200, patched_state, c)"
  "advance ref_engine FakeCache 0 (bind_prog (evict_and_return 7 patched_out) answer_200) (s, race_cache calls [])
     = Some (answer_200 patched_out, s, race_cache (calls @ [CallEvict (uuid_str 7)]) [])"
proof -
  have v: "mu_version sample_change = 3" by (simp add: sample_change_def)
  show "advance ref_engine FakeCache 0 (bind_prog (update_message 7 sample_change) answer_200) (sample_state, c)
     = Some (bind_prog (update_matched 7) answer_200, writing_state, c)"
    by (simp add: update_message_def v sample_exec update_matched_def)
qed (simp_all add: update_matched_def load_message_def sample_exec patched_out evict_and_return_def race_cache_calls)

lemma race_second_reader:
  "advance ref_engine FakeCache 2 (bind_prog (get_message sample_codec 7) answer_200)
       (s, race_cache calls [(uuid_str 7, jc_dump sample_codec old_out)])
     = Some (answer_200 old_out, s,
             race_cache (calls @ [CallGet (uuid_str 7)]) [(uuid_str 7, jc_dump sample_codec old_out)])"
proof -
  have "shown_message (abs_store sample_db) 7 = Some old_out"
    by (simp add: shown_message_def sample_maps) (simp add: sample_message_def sample_maps old_out [unfolded sample_message_def])
  then have "jc_load sample_codec (jc_dump sample_codec old_out) = Some old_out"
    using cached_shown [OF sample_codec_ok sample_schema] by blast
  then show ?thesis by (simp add: get_message_fill race_cache_calls)
qed

lemma race_not_commit:
  "\<not> is_commit (bind_prog (get_message J k) f)" "\<not> is_commit (bind_prog (load_message k (fill_cache J k)) f)"
  "\<not> is_commit (bind_prog (update_message k p) f)" "\<not> is_commit (bind_prog (update_matched k) f)"
  "\<not> is_commit (bind_prog (evict_and_return k out) f)"
  by (simp_all add: get_message_def load_message_def update_message_def update_matched_def evict_and_return_def)

lemma race_committed: "rd_committed writing_state = sample_db" "rd_committed patched_state = patched_db"
  by (simp_all add: run_defs)

lemma race_reach:
  "\<exists>cf. reach ref_engine ref_obs FakeCache (tasks sample_env race_requests) (sample_state, empty_cache) race_schedule cf
     \<and> cf_task cf 0 = answer_200 patched_out \<and> cf_task cf 2 = answer_200 old_out
     \<and> cf_log cf = [(0, sample_db, patched_db)] \<and> ob_committed ref_obs (cf_db cf) = patched_db"
proof -
  let ?T = "tasks sample_env race_requests"
  let ?reach = "\<lambda>sched U s c L. reach ref_engine ref_obs FakeCache ?T (sample_state, empty_cache) sched
      \<lparr>cf_task = U, cf_db = s, cf_cache = c, cf_log = L\<rparr>"
  let ?js = "jc_dump sample_codec old_out"
  let ?set = "CacheSet (uuid_str 7) ?js (answer_200 old_out)"
  let ?L = "[(0::nat, sample_db, patched_db)]"
  note steps = sample_exec(4) race_cache_calls race_tasks race_reader race_updater race_second_reader race_not_commit race_committed
  let ?U1 = "?T(1 := bind_prog (load_message 7 (fill_cache sample_codec 7)) answer_200)"
  let ?U2 = "?U1(1 := ?set)"
  let ?U3 = "?U2(0 := bind_prog (update_matched 7) answer_200)"
  let ?U4 = "?U3(0 := Commit (bind_prog (evict_and_return 7 patched_out) answer_200) reraise)"
  let ?U5 = "?U4(0 := bind_prog (evict_and_return 7 patched_out) answer_200)"
  let ?U6 = "?U5(0 := answer_200 patched_out)"
  let ?U7 = "?U6(1 := answer_200 old_out)"
  let ?key = "uuid_str 7"
  let ?calls = "[CallGet ?key, CallEvict ?key, CallSet ?key, CallGet ?key]"
  have r: "?reach [] ?T sample_state empty_cache []"
    using reach.start [where w = "(sample_state, empty_cache)"] by simp
  have r: "?reach ([] @ [1]) ?U1 sample_state (race_cache (take 1 ?calls) []) []"
    by (rule reach_step [OF r]) (simp_all add: steps)
  have r: "?reach (([] @ [1]) @ [1]) ?U2 sample_state (race_cache (take 1 ?calls) []) []"
    by (rule reach_step [OF r]) (simp_all add: steps)
  have r: "?reach ((([] @ [1]) @ [1]) @ [0]) ?U3 writing_state (race_cache (take 1 ?calls) []) []"
    by (rule reach_step [OF r]) (simp_all add: steps)
  have r: "?reach (((([] @ [1]) @ [1]) @ [0]) @ [0]) ?U4 writing_state (race_cache (take 1 ?calls) []) []"
    by (rule reach_step [OF r]) (simp_all add: steps)
  have r: "?reach ((((([] @ [1]) @ [1]) @ [0]) @ [0]) @ [0]) ?U5 patched_state (race_cache (take 1 ?calls) []) ?L"
    by (rule reach_step [OF r]) (simp_all add: steps)
  have r: "?reach (([1, 1, 0, 0, 0] @ [0])) ?U6 patched_state (race_cache (take 2 ?calls) []) ?L"
    by (rule reach_step [OF r [simplified append_Nil append_Cons]]) (simp_all add: steps)
  have r: "?reach (([1, 1, 0, 0, 0] @ [0]) @ [1]) ?U7 patched_state (race_cache (take 3 ?calls) [(?key, ?js)]) ?L"
    by (rule reach_step [OF r]) (simp_all add: steps)
  have "?reach ((([1, 1, 0, 0, 0] @ [0]) @ [1]) @ [2]) (?U7(2 := answer_200 old_out)) patched_state
      (race_cache ?calls [(?key, ?js)]) ?L"
    by (rule reach_step [OF r]) (simp_all add: steps)
  moreover have "(([1, 1, 0, 0, 0] @ [0]) @ [1]) @ [2] = race_schedule" by (simp add: race_schedule_def)
  ultimately show ?thesis
    by (intro exI [of _ "\<lparr>cf_task = ?U7(2 := answer_200 old_out), cf_db = patched_state,
      cf_cache = race_cache ?calls [(?key, ?js)], cf_log = ?L\<rparr>"]) (simp add: race_committed)
qed

subsection \<open>A slow reader of a deleted message\<close>

text \<open>The same run, with a DELETE in the place of the update.\<close>

definition deletion_requests :: "nat \<Rightarrow> request option" where
  "deletion_requests =
     (\<lambda>_. None)(0 := Some (DeleteMessage (uuid_str 7)), 1 := Some (GetMessage (uuid_str 7)),
              2 := Some (GetMessage (uuid_str 7)))"

definition emptied_db :: db where
  "emptied_db = apply_change (DropMessage 7) sample_db"

definition dropping_state :: ref_db where
  "dropping_state = sample_state\<lparr>rd_owner := Some 0, rd_pending := [DropMessage 7]\<rparr>"

definition emptied_state :: ref_db where
  "emptied_state = sample_state\<lparr>rd_committed := emptied_db, rd_clock := 1\<rparr>"

definition delete_committed :: "response prog" where
  "delete_committed = CacheEvict (uuid_str 7) (Return no_content)"

lemma deletion_tasks:
  "tasks sample_env deletion_requests 0 = bind_prog (delete_message 7) (\<lambda>_. Return no_content)"
  "tasks sample_env deletion_requests (Suc 0) = bind_prog (get_message sample_codec 7) answer_200"
  "tasks sample_env deletion_requests 2 = bind_prog (get_message sample_codec 7) answer_200"
  by (simp_all add: tasks_def deletion_requests_def delete_message_route_def get_message_route_def ok_json_def)

lemma deletion_exec:
  "ref_exec 0 (DeleteMessages [MessageIdIs 7]) sample_state = Some (Reply (IdRows [7]), dropping_state)"
  "ref_commit 0 dropping_state = (CommitOk, emptied_state)"
proof -
  have "m_id sample_message = 7" by (simp add: sample_message_def)
  then show "ref_exec 0 (DeleteMessages [MessageIdIs 7]) sample_state = Some (Reply (IdRows [7]), dropping_state)"
    using sample_schema by (simp add: ref_exec_def run_defs dropping_state_def messages_where_id sample_maps)
  show "ref_commit 0 dropping_state = (CommitOk, emptied_state)"
    by (simp add: ref_commit_def ref_end_def run_defs dropping_state_def emptied_state_def emptied_db_def)
qed

lemma deletion_steps:
  "advance ref_engine FakeCache 0 (bind_prog (delete_message 7) (\<lambda>_. Return no_content)) (sample_state, c)
     = Some (Commit delete_committed reraise, dropping_state, c)"
  "advance ref_engine FakeCache 0 (Commit delete_committed reraise) (dropping_state, c)
     = Some (delete_committed, emptied_state, c)"
  "advance ref_engine FakeCache 0 delete_committed (s, race_cache calls [])
     = Some (Return no_content, s, race_cache (calls @ [CallEvict (uuid_str 7)]) [])"
  by (simp_all add: delete_message_def deletion_exec delete_committed_def race_cache_calls)

lemma deletion_not_commit: "\<not> is_commit (bind_prog (delete_message k) f)" "\<not> is_commit delete_committed"
  by (simp_all add: delete_message_def delete_committed_def)

lemma deletion_committed: "rd_committed dropping_state = sample_db" "rd_committed emptied_state = emptied_db"
  by (simp_all add: dropping_state_def emptied_state_def run_defs)

lemma deletion_reach:
  "\<exists>cf. reach ref_engine ref_obs FakeCache (tasks sample_env deletion_requests) (sample_state, empty_cache)
         ([1, 1] @ [0, 0, 0] @ [1] @ [2]) cf
     \<and> cf_task cf 0 = Return no_content \<and> cf_task cf 2 = answer_200 old_out
     \<and> ob_committed ref_obs (cf_db cf) = emptied_db"
proof -
  let ?T = "tasks sample_env deletion_requests"
  let ?reach = "\<lambda>sched U s c L. reach ref_engine ref_obs FakeCache ?T (sample_state, empty_cache) sched
      \<lparr>cf_task = U, cf_db = s, cf_cache = c, cf_log = L\<rparr>"
  let ?js = "jc_dump sample_codec old_out"
  let ?L = "[(0::nat, sample_db, emptied_db)]"
  note steps = deletion_exec(2) race_cache_calls deletion_tasks race_reader deletion_steps race_second_reader
    race_not_commit deletion_not_commit deletion_committed
  let ?U1 = "?T(1 := bind_prog (load_message 7 (fill_cache sample_codec 7)) answer_200)"
  let ?U2 = "?U1(1 := CacheSet (uuid_str 7) ?js (answer_200 old_out))"
  let ?U3 = "?U2(0 := Commit delete_committed reraise)"
  let ?U4 = "?U3(0 := delete_committed)"
  let ?U5 = "?U4(0 := Return no_content)"
  let ?U6 = "?U5(1 := answer_200 old_out)"
  let ?key = "uuid_str 7"
  let ?calls = "[CallGet ?key, CallEvict ?key, CallSet ?key, CallGet ?key]"
  have r: "?reach [] ?T sample_state empty_cache []"
    using reach.start [where w = "(sample_state, empty_cache)"] by simp
  have r: "?reach ([] @ [1]) ?U1 sample_state (race_cache (take 1 ?calls) []) []"
    by (rule reach_step [OF r]) (simp_all add: steps)
  have r: "?reach ([1] @ [1]) ?U2 sample_state (race_cache (take 1 ?calls) []) []"
    by (rule reach_step [OF r [simplified append_Nil]]) (simp_all add: steps)
  have r: "?reach ([1, 1] @ [0]) ?U3 dropping_state (race_cache (take 1 ?calls) []) []"
    by (rule reach_step [OF r [simplified append_Nil append_Cons]]) (simp_all add: steps)
  have r: "?reach ([1, 1, 0] @ [0]) ?U4 emptied_state (race_cache (take 1 ?calls) []) ?L"
    by (rule reach_step [OF r [simplified append_Nil append_Cons]]) (simp_all add: steps)
  have r: "?reach ([1, 1, 0, 0] @ [0]) ?U5 emptied_state (race_cache (take 2 ?calls) []) ?L"
    by (rule reach_step [OF r [simplified append_Nil append_Cons]]) (simp_all add: steps)
  have r: "?reach ([1, 1, 0, 0, 0] @ [1]) ?U6 emptied_state (race_cache (take 3 ?calls) [(?key, ?js)]) ?L"
    by (rule reach_step [OF r [simplified append_Nil append_Cons]]) (simp_all add: steps)
  have "?reach ([1, 1, 0, 0, 0, 1] @ [2]) (?U6(2 := answer_200 old_out)) emptied_state
      (race_cache ?calls [(?key, ?js)]) ?L"
    by (rule reach_step [OF r [simplified append_Nil append_Cons]]) (simp_all add: steps)
  then show ?thesis
    by (intro exI [of _ "\<lparr>cf_task = ?U6(2 := answer_200 old_out), cf_db = emptied_state,
      cf_cache = race_cache ?calls [(?key, ?js)], cf_log = ?L\<rparr>"]) (simp add: deletion_committed)
qed

subsection \<open>Properties\<close>

text \<open>
  C4. Whatever requests run at the same time, however their awaits interleave and whichever calls on
  the database and the cache fail: a GET of a message that is answered 200 shows that message as it
  was committed at one moment of the run, and so does every entry of the cache. No answer mixes two
  states, shows what was rolled back or shows another message.
\<close>

theorem reads_show_committed_states:
  assumes "service_setting E B C contents up" and "reach E B C (tasks N reqs) w sched cf" and "idle B (fst w)"
    and "codec_ok (en_codec N)" and "cache_from (en_codec N) {ob_committed B (fst w)} (contents (snd w))"
  shows "cache_from (en_codec N) (snapshots B (fst w) (cf_log cf)) (contents (cf_cache cf))
     \<and> (\<forall>i v k r. reqs i = Some (GetMessage v) \<and> path_id N v = Inr k \<and> cf_task cf i = Return r \<longrightarrow>
          (\<exists>out. shown_in (snapshots B (fst w) (cf_log cf)) k out
             \<and> r = json_response 200 [] (message_json N out)))"
proof -
  have inv: "read_state N B contents reqs (snapshots B (fst w) (cf_log cf)) cf"
    by (rule service_setting.reach_read_state [OF assms])
  have "\<exists>out. shown_in (snapshots B (fst w) (cf_log cf)) k out \<and> r = json_response 200 [] (message_json N out)"
    if "reqs i = Some (GetMessage v)" "path_id N v = Inr k" "cf_task cf i = Return r" for i v k r
  proof -
    have "wanted N (reqs i) = Some k" using that(1,2) by (simp add: wanted_def)
    with inv have "get_point (en_codec N) k (\<lambda>x. json_response 200 [] (message_json N x))
        (snapshots B (fst w) (cf_log cf)) (cf_task cf i) (ob_pending B i (cf_db cf))"
      by (auto simp: read_state_def read_point_def dest: spec [of _ i])
    then show ?thesis unfolding that(3) by (rule get_point_ended)
  qed
  with inv show ?thesis by (auto simp: read_state_def)
qed

theorem reads_show_committed_states_witness:
  "\<exists>cf out. reach ref_engine ref_obs FakeCache (tasks sample_env race_requests) (sample_state, empty_cache) race_schedule cf
     \<and> shown_in {sample_db, patched_db} 7 out \<and> cf_task cf 2 = answer_200 out"
proof -
  obtain cf where cf: "reach ref_engine ref_obs FakeCache (tasks sample_env race_requests)
      (sample_state, empty_cache) race_schedule cf" "cf_task cf 2 = answer_200 old_out"
    "cf_log cf = [(0, sample_db, patched_db)]"
    using race_reach by blast
  have "cache_from (en_codec sample_env) {ob_committed ref_obs (fst (sample_state, empty_cache))}
      (fake_contents (snd (sample_state, empty_cache)))"
    by (simp add: cache_from_def fake_contents_def empty_cache_def)
  note read = reads_show_committed_states [OF ref_service.service_setting_axioms cf(1) sample_idle _ this]
  have "\<exists>out. shown_in (snapshots ref_obs sample_state (cf_log cf)) 7 out
      \<and> json_response 200 [] (message_json sample_env old_out) = json_response 200 [] (message_json sample_env out)"
    by (rule read [THEN conjunct2, rule_format, where i = 2 and v = "uuid_str 7", simplified])
      (simp_all add: sample_codec_ok race_requests_def cf(2))
  moreover have "snapshots ref_obs sample_state (cf_log cf) = {sample_db, patched_db}"
    by (simp add: snapshots_def cf(3) sample_state_sel)
  ultimately show ?thesis using cf(1,2) by metis
qed

text \<open>
  A read can be old. The run the comment in \<open>update_message\<close> warns of exists: a reader misses and
  loads, an update runs to its end and is answered with version 4, the reader then fills the cache,
  and a GET that starts after all this is answered 200 with version 3.
\<close>

theorem slow_reader_leaves_stale_entry:
  "\<exists>cf. reach ref_engine ref_obs FakeCache (tasks sample_env race_requests) (sample_state, empty_cache)
         ([1, 1] @ [0, 0, 0, 0] @ [1] @ [2]) cf
     \<and> cf_task cf 0 = Return (json_response 200 [] (message_json sample_env patched_out)) \<and> ms_version patched_out = 4
     \<and> map_option m_version (message_map (ob_committed ref_obs (cf_db cf)) 7) = Some 4
     \<and> cf_task cf 2 = Return (json_response 200 [] (message_json sample_env old_out)) \<and> ms_version old_out = 3"
proof -
  obtain cf where cf: "reach ref_engine ref_obs FakeCache (tasks sample_env race_requests)
      (sample_state, empty_cache) race_schedule cf" "cf_task cf 0 = answer_200 patched_out"
    "cf_task cf 2 = answer_200 old_out" "ob_committed ref_obs (cf_db cf) = patched_db"
    using race_reach by blast
  have "ms_version patched_out = 4" "ms_version old_out = 3"
    using patched_row_sel(3) by (simp_all add: patched_out_def old_out_def MessageOut_of_def sample_message_def)
  with cf patched_row_sel(3) show ?thesis
    unfolding race_schedule_def by (intro exI [of _ cf]) (simp add: patched_db_maps del: append_Cons append_Nil)
qed

text \<open>
  C40. A deleted message can come back. The same slow reader next to a DELETE: the message is gone from
  the tables and its entry evicted, the DELETE is answered 204, and a GET that starts afterwards is
  answered 200 with the deleted message. Of an update the next refused PATCH evicts the entry; of a
  deletion nothing does before a client tries to change or delete the message once more.
\<close>

theorem deleted_message_can_reappear:
  "\<exists>cf. reach ref_engine ref_obs FakeCache (tasks sample_env deletion_requests) (sample_state, empty_cache)
         ([1, 1] @ [0, 0, 0] @ [1] @ [2]) cf
     \<and> cf_task cf 0 = Return no_content \<and> message_map (ob_committed ref_obs (cf_db cf)) 7 = None
     \<and> cf_task cf 2 = Return (json_response 200 [] (message_json sample_env old_out)) \<and> ms_id old_out = 7"
proof -
  have "message_map emptied_db 7 = None" by (simp add: emptied_db_def)
  moreover have "ms_id old_out = 7" by (simp add: old_out_def MessageOut_of_def sample_message_def)
  ultimately show ?thesis using deletion_reach by metis
qed

end
