(* ===== verification/ResponseTypes.thy ===== *)
theory ResponseTypes
  imports Api
begin

section \<open>The types of the bodies: the response models of \<open>app/schemas.py\<close> and \<open>Problem\<close>\<close>

text \<open>
  Every route declares the model of its body (\<open>response_model\<close>), and the errors declare \<open>Problem\<close>;
  both end up in the OpenAPI document. Here the models are types of JSON values, and every response
  that leaves the application, whatever the engine and the cache did, has a body of the type its
  route declares for the status.
\<close>

subsection \<open>Types of JSON values\<close>

text \<open>
  The types pydantic writes into a JSON schema for the models. A member of an object has a name,
  whether it is required, and a type; other members are not allowed.
\<close>

datatype jtype = TStr | TUuid | TDateTime | TInt | TList jtype | TObj "(string \<times> bool \<times> jtype) list"

fun has_type :: "jtype \<Rightarrow> json \<Rightarrow> bool" where
  "has_type TStr v = (case v of JStr _ \<Rightarrow> True | _ \<Rightarrow> False)"
| "has_type TUuid v =
     (case v of JStr s \<Rightarrow> (case uuid_parse s of None \<Rightarrow> False | Some u \<Rightarrow> uuid_str u = s) | _ \<Rightarrow> False)"
| "has_type TDateTime v = (case v of JStr _ \<Rightarrow> True | _ \<Rightarrow> False)"
| "has_type TInt v = (case v of JInt _ \<Rightarrow> True | _ \<Rightarrow> False)"
| "has_type (TList t) v = (case v of JList vs \<Rightarrow> list_all (has_type t) vs | _ \<Rightarrow> False)"
| "has_type (TObj fs) v =
     (case v of
        JObj kvs \<Rightarrow>
          distinct (map fst kvs) \<and> list_all (\<lambda>(k, _). k \<in> set (map (\<lambda>(n, _). lit n) fs)) kvs
          \<and> list_all (\<lambda>(n, required, t). case map_of kvs (lit n) of None \<Rightarrow> \<not> required | Some x \<Rightarrow> has_type t x) fs
      | _ \<Rightarrow> False)"

subsection \<open>The models\<close>

text \<open>The members under their aliases. A subclass has the members of its base class first.\<close>

type_synonym members = "(string \<times> bool \<times> jtype) list"

definition AuthorOut_members :: members where
  "AuthorOut_members =
     [(''id'', True, TUuid), (''name'', True, TStr), (''email'', True, TStr), (''createdAt'', True, TDateTime)]"

definition MessageSummary_members :: members where
  "MessageSummary_members =
     [(''id'', True, TUuid), (''title'', True, TStr), (''content'', True, TStr), (''createdAt'', True, TDateTime),
      (''version'', True, TInt)]"

definition MessageOut_type :: jtype where
  "MessageOut_type = TObj (MessageSummary_members @ [(''author'', True, TObj AuthorOut_members)])"

definition AuthorDetailOut_type :: jtype where
  "AuthorDetailOut_type =
     TObj (AuthorOut_members @ [(''messages'', False, TList (TObj MessageSummary_members))])"

definition Page_type :: "jtype \<Rightarrow> jtype" where
  "Page_type t = TObj [(''items'', True, TList t), (''totalCount'', True, TInt)]"

definition ProblemParam_type :: jtype where
  "ProblemParam_type = TObj [(''name'', True, TStr), (''reason'', True, TStr)]"

definition Problem_type :: jtype where
  "Problem_type =
     TObj [(''type'', True, TStr), (''title'', True, TStr), (''status'', True, TInt), (''detail'', True, TStr),
       (''instance'', True, TStr), (''code'', True, TStr), (''invalidParams'', False, TList ProblemParam_type)]"

text \<open>The \<open>response_model\<close> of each route; the deletions have no body.\<close>

fun response_model :: "request \<Rightarrow> jtype option" where
  "response_model (GetMessages _) = Some (Page_type MessageOut_type)"
| "response_model (GetMessage _) = Some MessageOut_type"
| "response_model (PostMessage _) = Some MessageOut_type"
| "response_model (PatchMessage _ _) = Some MessageOut_type"
| "response_model (DeleteMessage _) = None"
| "response_model (GetAuthors _) = Some (Page_type (TObj AuthorOut_members))"
| "response_model (GetAuthor _ _) = Some AuthorDetailOut_type"
| "response_model (PostAuthor _) = Some (TObj AuthorOut_members)"
| "response_model (PatchAuthor _ _) = Some (TObj AuthorOut_members)"
| "response_model (DeleteAuthor _) = None"

subsection \<open>The bodies have their types\<close>

lemma has_type_uuid [simp]: "has_type TUuid (JStr (uuid_str u))"
  by simp

lemma author_json_type: "has_type (TObj AuthorOut_members) (author_json N a)"
  by (simp add: author_json_def author_members_def AuthorOut_members_def)

lemma summary_type: "has_type (TObj MessageSummary_members) (JObj (summary_members N m))"
  by (simp add: summary_members_def MessageSummary_members_def)

lemma message_json_type: "has_type MessageOut_type (message_json N m)"
  by (simp add: author_json_type message_json_def summary_members_def MessageSummary_members_def MessageOut_type_def
      del: has_type.simps(6) add: has_type.simps(6) [of "_ @ _"] has_type.simps(6) [of "_ # _"])

lemma author_detail_type: "has_type AuthorDetailOut_type (author_detail_json N a)"
  by (simp add: author_detail_json_def author_members_def AuthorOut_members_def AuthorDetailOut_type_def
      list_all_iff summary_type
      del: has_type.simps(6) add: has_type.simps(6) [of "_ @ _"] has_type.simps(6) [of "_ # _"]
      split: option.split)

lemma page_type: "(\<And>x. has_type t (item x)) \<Longrightarrow> has_type (Page_type t) (page_json item p)"
  by (simp add: page_json_def Page_type_def list.pred_map comp_def list.pred_True)

declare has_type.simps(6) [simp del]

lemma problem_body_type: "has_type Problem_type (problem_body ty ti st de ins co ps)"
  by (auto simp: has_type.simps(6) problem_body_def Problem_type_def ProblemParam_type_def invalid_params_json_def list_all_iff
      split: option.split)

subsection \<open>How a handler can end\<close>

text \<open>
  \<open>leaves P Q p\<close>: every value the program returns satisfies \<open>P\<close> and every exception it raises
  itself satisfies \<open>Q\<close>, whatever its awaits return.
\<close>

primrec leaves :: "('a \<Rightarrow> bool) \<Rightarrow> (exn \<Rightarrow> bool) \<Rightarrow> 'a prog \<Rightarrow> bool" where
  "leaves P Q (Return x) = P x"
| "leaves P Q (Raise e) = Q e"
| "leaves P Q (Exec st k h) = ((\<forall>r. leaves P Q (k r)) \<and> (\<forall>e. leaves P Q (h e)))"
| "leaves P Q (Commit k h) = (leaves P Q k \<and> (\<forall>e. leaves P Q (h e)))"
| "leaves P Q (Rollback k) = leaves P Q k"
| "leaves P Q (CacheGet key k) = (\<forall>v. leaves P Q (k v))"
| "leaves P Q (CacheSet key v k) = leaves P Q k"
| "leaves P Q (CacheEvict key k) = leaves P Q k"

lemma leaves_bind: "leaves (\<lambda>_. True) Q p \<Longrightarrow> (\<And>x. leaves P Q (f x)) \<Longrightarrow> leaves P Q (bind_prog p f)"
  by (induction p) auto

text \<open>
  What a handler may raise: an error of the service with a status of \<open>S\<close>, or an exception of a
  library, which no exception handler is registered for. No handler raises an HTTPException.
\<close>

fun raises_in :: "nat set \<Rightarrow> exn \<Rightarrow> bool" where
  "raises_in S (ApiExn e) = (ae_status e \<in> S)"
| "raises_in S (RequestValidationError _) = False"
| "raises_in S (StarletteHTTPException _ _ _) = False"
| "raises_in S CancelledError = False"
| "raises_in S _ = True"

lemma raises_in_service [simp]:
  "raises_in S (ApiExn (author_not_found k)) = (404 \<in> S)" "raises_in S (ApiExn (duplicate_email e)) = (409 \<in> S)"
  "raises_in S (ApiExn (author_has_messages k)) = (409 \<in> S)" "raises_in S (ApiExn (message_not_found k)) = (404 \<in> S)"
  "raises_in S (ApiExn (stale_version k v)) = (409 \<in> S)"
  by simp_all

lemma leaves_run:
  assumes "leaves P (raises_in S) p" and "run E C i p w = (res, w')"
  shows "(case res of Returned x \<Rightarrow> P x | Raised e \<Rightarrow> raises_in S e | Waiting \<Rightarrow> True)"
  using assms
proof (induction p arbitrary: w)
  case (Exec st k h)
  have k: "leaves P (raises_in S) (k r) \<Longrightarrow> run E C i (k r) w = (res, w') \<Longrightarrow> ?case"
    and h: "leaves P (raises_in S) (h e) \<Longrightarrow> run E C i (h e) w = (res, w') \<Longrightarrow> ?case" for r e w
    by (rule Exec.IH(1) [OF rangeI], assumption, assumption) (rule Exec.IH(2) [OF rangeI], assumption, assumption)
  from Exec.prems show ?case
    by (cases w) (auto split: option.splits prod.splits reply.splits intro: k h)
next
  case (Commit k h)
  have h: "leaves P (raises_in S) (h e) \<Longrightarrow> run E C i (h e) w = (res, w') \<Longrightarrow> ?case" for e w
    by (rule Commit.IH(2) [OF rangeI])
  from Commit.prems show ?case
    by (cases w) (auto split: prod.splits commit_reply.splits intro: h Commit.IH(1))
next
  case (Rollback k)
  from Rollback.prems show ?case by (cases w) (auto intro: Rollback.IH)
next
  case (CacheGet key k)
  have k: "leaves P (raises_in S) (k r) \<Longrightarrow> run E C i (k r) w = (res, w') \<Longrightarrow> ?case" for r w
    by (rule CacheGet.IH [OF rangeI])
  from CacheGet.prems show ?case by (cases w) (auto split: prod.splits sum.splits intro: k)
next
  case (CacheSet key v k)
  from CacheSet.prems show ?case by (cases w) (auto split: prod.splits sum.splits intro: CacheSet.IH)
next
  case (CacheEvict key k)
  from CacheEvict.prems show ?case by (cases w) (auto split: prod.splits sum.splits intro: CacheEvict.IH)
qed auto

lemma raises_in_reraise [simp]: "leaves P (raises_in S) (reraise e)"
  by (simp add: reraise_def)

lemma raises_in_scalar:
  "(\<And>x. leaves P (raises_in S) (k x)) \<Longrightarrow> leaves P (raises_in S) (scalar_one_or_none rs k)"
  "(\<And>x. leaves P (raises_in S) (k' x)) \<Longrightarrow> leaves P (raises_in S) (scalar_one rs k')"
  by (auto simp: scalar_one_or_none_def scalar_one_def split: list.split)

lemma raises_in_load: "(\<And>x. leaves P (raises_in S) (k x)) \<Longrightarrow> leaves P (raises_in S) (load_message i k)"
  by (auto simp: load_message_def intro!: raises_in_scalar split: option.split)

text \<open>The errors of each handler.\<close>

lemma handlers_raise:
  "leaves (\<lambda>_. True) (raises_in S) (list_messages limit offset)"
  "404 \<in> S \<Longrightarrow> leaves (\<lambda>_. True) (raises_in S) (get_message J k)"
  "404 \<in> S \<Longrightarrow> leaves (\<lambda>_. True) (raises_in S) (create_message p)"
  "404 \<in> S \<Longrightarrow> 409 \<in> S \<Longrightarrow> leaves (\<lambda>_. True) (raises_in S) (update_message k q)"
  "404 \<in> S \<Longrightarrow> leaves (\<lambda>_. True) (raises_in S) (delete_message k)"
  "leaves (\<lambda>_. True) (raises_in S) (list_authors limit offset)"
  "404 \<in> S \<Longrightarrow> leaves (\<lambda>_. True) (raises_in S) (get_author k inc)"
  "409 \<in> S \<Longrightarrow> leaves (\<lambda>_. True) (raises_in S) (create_author ap)"
  "404 \<in> S \<Longrightarrow> 409 \<in> S \<Longrightarrow> leaves (\<lambda>_. True) (raises_in S) (update_author k aq)"
  "404 \<in> S \<Longrightarrow> 409 \<in> S \<Longrightarrow> leaves (\<lambda>_. True) (raises_in S) (delete_author k)"
  by (auto simp: svc_defs simp del: raises_in.simps(1) intro!: raises_in_scalar raises_in_load split: option.split)

subsection \<open>Responses have their declared type\<close>

text \<open>
  A success has the status and the model of its route; any other response is a problem document
  whose member \<open>status\<close> is the status of the response.
\<close>

definition success :: "request \<Rightarrow> response \<Rightarrow> bool" where
  "success req r \<longleftrightarrow>
     rs_status r = hd (declared_by_route req)
     \<and> (case response_model req of
          None \<Rightarrow> rs_body r = None
        | Some t \<Rightarrow> rs_media r = lit ''application/json''
            \<and> (case rs_body r of None \<Rightarrow> False | Some body \<Rightarrow> has_type t body))"

definition problem_document :: "response \<Rightarrow> bool" where
  "problem_document r \<longleftrightarrow>
     400 \<le> rs_status r \<and> rs_media r = PROBLEM_JSON
     \<and> (case rs_body r of None \<Rightarrow> False
        | Some body \<Rightarrow> has_type Problem_type body
            \<and> json_get (lit ''status'') body = Some (JInt (int (rs_status r))))"

text \<open>The errors a router declares, and what its handlers raise.\<close>

definition declared_errors :: "request \<Rightarrow> nat set" where
  "declared_errors req = {st \<in> set (declared_by_route req). 400 \<le> st}"

lemma declared_errors_simps [simp]:
  "404 \<in> declared_errors (GetMessage v)" "404 \<in> declared_errors (PostMessage body)"
  "404 \<in> declared_errors (PatchMessage v body)" "409 \<in> declared_errors (PatchMessage v body)"
  "404 \<in> declared_errors (DeleteMessage v)" "404 \<in> declared_errors (GetAuthor v q)"
  "409 \<in> declared_errors (PostAuthor body)" "404 \<in> declared_errors (PatchAuthor v body)"
  "409 \<in> declared_errors (PatchAuthor v body)" "404 \<in> declared_errors (DeleteAuthor v)"
  "409 \<in> declared_errors (DeleteAuthor v)"
  by (simp_all add: declared_errors_def)

abbreviation honest :: "request \<Rightarrow> exn \<Rightarrow> bool" where
  "honest req \<equiv> raises_in (declared_errors req)"

lemma route_success: "route N req = Inr p \<Longrightarrow> leaves (success req) (honest req) p"
  by (cases req)
    (auto simp: route_defs success_def json_response_def no_content_def
      message_json_type author_json_type author_detail_type page_type handlers_raise
      intro!: leaves_bind split: sum.splits)

lemma problem_response_document:
  assumes "problem_response sc status code detail ps slug = (Inr r, sc')" and "400 \<le> status"
  shows "problem_document r"
proof -
  from problem_response_Inr [OF assms(1)] obtain ty ti ins where
    "rs_status r = status" "rs_media r = PROBLEM_JSON" "rs_body r = Some (problem_body ty ti status detail ins code ps)"
    by metis
  with assms(2) problem_body_type show ?thesis
    by (simp add: problem_document_def problem_body_def)
qed

lemma honest_document:
  assumes "handled sc e = Inr r" and "honest req e"
  shows "problem_document r \<and> rs_status r \<in> declared_errors req"
proof -
  from assms obtain x where e: "e = ApiExn x" by (cases e) (auto simp: handled_def handle_exception_def)
  with assms have st: "ae_status x \<in> declared_errors req" "400 \<le> ae_status x" by (simp_all add: declared_errors_def)
  from assms(1) e have p: "problem_response sc (ae_status x) (ae_code x) (ae_detail x) (ae_invalid_params x) (ae_type_slug x)
      = (Inr r, snd (api_error_handler sc x))"
    by (auto simp: handled_def handle_exception_def api_error_handler_def split: prod.splits)
  from problem_response_document [OF this st(2)] problem_response_Inr [OF p] st(1) show ?thesis by metis
qed

lemma invalid_document:
  assumes "handled sc (RequestValidationError es) = Inr r"
  shows "problem_document r \<and> rs_status r \<in> declared_errors req"
proof -
  from assms have p: "problem_response sc 400 (lit ''BAD_USER_INPUT'') VALIDATION_DETAIL (Some (map invalid_param_of es)) None
      = (Inr r, snd (validation_error_handler sc es))"
    by (auto simp: handled_def handle_exception_def validation_error_handler_def split: prod.splits)
  have "400 \<in> declared_errors req" using declared_400 by (simp add: declared_errors_def)
  with problem_response_document [OF p] problem_response_Inr [OF p] show ?thesis by (metis order_refl)
qed

text \<open>
  C18. Whatever the database engine and the cache return, a response of the application is either
  the success its route declares, with a body of the declared response model and no body where
  there is none, or a problem document of type \<open>Problem\<close> that repeats the status of the response.
\<close>

theorem responses_have_their_declared_type:
  assumes "serve N E C i sc req w = (Some (Inr r), w')"
  shows "success req r \<or> problem_document r"
proof (cases "route N req")
  case (Inl es)
  with assms show ?thesis by (auto simp: serve_def dest: invalid_document)
next
  case (Inr p)
  obtain res s c where run: "run E C i p w = (res, s, c)" by (cases "run E C i p w")
  with leaves_run [OF route_success [OF Inr] run] assms Inr show ?thesis
    by (auto simp: serve_def with_session_def dest: honest_document split: outcome.splits)
qed

theorem responses_have_their_declared_type_witness:
  "\<exists>r w'. serve sample_env ref_engine FakeCache 0 sample_scope (PostMessage sample_post) (sample_state, empty_cache)
       = (Some (Inr r), w') \<and> rs_status r = 201
     \<and> (success (PostMessage sample_post) r \<or> problem_document r)"
  using serve_sample_post responses_have_their_declared_type by blast

end
