(* ===== verification/Middleware.thy ===== *)
theory Middleware
  imports Problems
begin

section \<open>ASGI and the limit on request bodies: \<open>app/middleware.py\<close>\<close>

text \<open>
  An ASGI application is called with a scope, a \<open>receive\<close> and a \<open>send\<close>. It is modelled as a tree of
  what it awaits (\<open>asgi\<close>), run over a server that provides the two calls. A middleware wraps the
  calls it passes on, as the closures of the source do: \<open>limited_receive\<close> is a server whose state
  holds the counter \<open>received\<close>. The lemmas show that no application behind the limit reads more
  than the limit, and that one that reads less does not notice it.
\<close>

subsection \<open>Applications and servers\<close>

text \<open>
  \<open>HttpRequest body more\<close> is an \<open>http.request\<close> message; without the key \<open>body\<close> it is \<open>None\<close>.
\<close>

datatype asgi_event = HttpRequest "nat list option" bool | HttpDisconnect

datatype asgi_send =
    ResponseStart nat pystr "(pystr \<times> pystr) list"
  | ResponseBody "json option"

text \<open>
  \<open>Touch\<close> reads and writes the scope, a dictionary that the application and the middleware share;
  an exception raised by \<open>receive\<close> or \<open>send\<close> reaches the application, which may catch it.
\<close>

datatype asgi =
    Done
  | Fail exn
  | Receive "exn + asgi_event \<Rightarrow> asgi"
  | Send asgi_send "exn option \<Rightarrow> asgi"
  | Touch "scope \<Rightarrow> scope \<times> asgi"

record 'w server =
  sv_receive :: "'w \<Rightarrow> (exn + asgi_event) \<times> 'w"
  sv_send :: "asgi_send \<Rightarrow> 'w \<Rightarrow> exn option \<times> 'w"

primrec run_app :: "'w server \<Rightarrow> asgi \<Rightarrow> scope \<Rightarrow> 'w \<Rightarrow> exn option \<times> scope \<times> 'w" where
  "run_app V Done = (\<lambda>sc w. (None, sc, w))"
| "run_app V (Fail e) = (\<lambda>sc w. (Some e, sc, w))"
| "run_app V (Receive k) = (\<lambda>sc w. let (m, w') = sv_receive V w in run_app V (k m) sc w')"
| "run_app V (Send m k) = (\<lambda>sc w. let (e, w') = sv_send V m w in run_app V (k e) sc w')"
| "run_app V (Touch f) = (\<lambda>sc w. case map_prod id (run_app V) (f sc) of (sc', g) \<Rightarrow> g sc' w)"

text \<open>The messages an application has received in a run.\<close>

primrec received_by :: "'w server \<Rightarrow> asgi \<Rightarrow> scope \<Rightarrow> 'w \<Rightarrow> asgi_event list" where
  "received_by V Done = (\<lambda>sc w. [])"
| "received_by V (Fail e) = (\<lambda>sc w. [])"
| "received_by V (Receive k) = (\<lambda>sc w. let (m, w') = sv_receive V w in
     (case m of Inl _ \<Rightarrow> [] | Inr ev \<Rightarrow> [ev]) @ received_by V (k m) sc w')"
| "received_by V (Send m k) = (\<lambda>sc w. let (e, w') = sv_send V m w in received_by V (k e) sc w')"
| "received_by V (Touch f) = (\<lambda>sc w. case map_prod id (received_by V) (f sc) of (sc', g) \<Rightarrow> g sc' w)"

definition body_length :: "asgi_event \<Rightarrow> nat" where
  "body_length ev =
     (case ev of HttpRequest body _ \<Rightarrow> (case body of None \<Rightarrow> 0 | Some b \<Rightarrow> length b) | HttpDisconnect \<Rightarrow> 0)"

definition total_body :: "asgi_event list \<Rightarrow> nat" where
  "total_body evs = sum_list (map body_length evs)"

lemma total_body_simps [simp]:
  "total_body [] = 0" "total_body (ev # evs) = body_length ev + total_body evs"
  "total_body (evs @ evs') = total_body evs + total_body evs'"
  by (simp_all add: total_body_def)

text \<open>\<open>await response(scope, receive, send)\<close>: the start, then the body.\<close>

definition send_response :: "'w server \<Rightarrow> response \<Rightarrow> 'w \<Rightarrow> exn option \<times> 'w" where
  "send_response V r w =
     (case sv_send V (ResponseStart (rs_status r) (rs_media r) (rs_headers r)) w of
        (Some e, w') \<Rightarrow> (Some e, w')
      | (None, w') \<Rightarrow> sv_send V (ResponseBody (rs_body r)) w')"

subsection \<open>BodyLimitMiddleware\<close>

definition too_large :: "int \<Rightarrow> api_error" where
  "too_large max_bytes =
     PayloadTooLargeError (lit ''Request body must not exceed '' @ int_str max_bytes @ lit '' bytes.'')"

text \<open>\<open>limited_receive\<close>; the counter is the first component of the state.\<close>

definition limited_receive ::
  "'w server \<Rightarrow> int \<Rightarrow> nat \<times> 'w \<Rightarrow> (exn + asgi_event) \<times> nat \<times> 'w" where
  "limited_receive V max_bytes = (\<lambda>(received, w).
     case sv_receive V w of
       (Inl e, w') \<Rightarrow> (Inl e, received, w')
     | (Inr message, w') \<Rightarrow>
         (case message of
            HttpRequest body _ \<Rightarrow>
              (let received' = received + (case body of None \<Rightarrow> 0 | Some b \<Rightarrow> length b)
               in if int received' > max_bytes then (Inl (ApiExn (too_large max_bytes)), received', w')
                  else (Inr message, received', w'))
          | HttpDisconnect \<Rightarrow> (Inr message, received, w')))"

definition limited :: "'w server \<Rightarrow> int \<Rightarrow> (nat \<times> 'w) server" where
  "limited V max_bytes =
     \<lparr>sv_receive = limited_receive V max_bytes,
      sv_send = (\<lambda>m (received, w). let (e, w') = sv_send V m w in (e, received, w'))\<rparr>"

text \<open>\<open>dict(scope["headers"]).get(b"content-length", b"")\<close>: the last of several headers counts.\<close>

definition declared_length :: "scope \<Rightarrow> nat list" where
  "declared_length sc =
     (case map_of (rev (sc_headers sc)) (lit ''content-length'') of None \<Rightarrow> [] | Some v \<Rightarrow> v)"

definition run_limited :: "int \<Rightarrow> asgi \<Rightarrow> 'w server \<Rightarrow> scope \<Rightarrow> 'w \<Rightarrow> exn option \<times> scope \<times> 'w" where
  "run_limited max_bytes app V sc w =
     (let (e, sc', received, w') = run_app (limited V max_bytes) app sc (0, w) in (e, sc', w'))"

definition BodyLimitMiddleware ::
  "int \<Rightarrow> asgi \<Rightarrow> 'w server \<Rightarrow> scope \<Rightarrow> 'w \<Rightarrow> exn option \<times> scope \<times> 'w" where
  "BodyLimitMiddleware max_bytes app V sc w =
     (if sc_type sc \<noteq> ''http'' then run_app V app sc w
      else let declared = declared_length sc in
        if py_isdigit declared then
          (case py_int declared of
             None \<Rightarrow> (Some (ValueError (lit ''Exceeds the limit (4300 digits) for integer string conversion'')), sc, w)
           | Some n \<Rightarrow>
               if int n > max_bytes then
                 (let error = too_large max_bytes in
                  case problem_response sc (ae_status error) (ae_code error) (ae_detail error) None (ae_type_slug error) of
                    (Inl e, sc') \<Rightarrow> (Some e, sc', w)
                  | (Inr response, sc') \<Rightarrow> let (e, w') = send_response V response w in (e, sc', w'))
               else run_limited max_bytes app V sc w)
        else run_limited max_bytes app V sc w)"


subsection \<open>What the application behind the limit sees\<close>

lemma limited_receive_cases:
  obtains (failed) e w' where "sv_receive V w = (Inl e, w')" "limited_receive V b (n, w) = (Inl e, n, w')"
  | (cut) ev w' where "sv_receive V w = (Inr ev, w')" "int (n + body_length ev) > b" "ev \<noteq> HttpDisconnect"
      "limited_receive V b (n, w) = (Inl (ApiExn (too_large b)), n + body_length ev, w')"
  | (passed) ev w' where "sv_receive V w = (Inr ev, w')" "ev = HttpDisconnect \<or> int (n + body_length ev) \<le> b"
      "limited_receive V b (n, w) = (Inr ev, n + body_length ev, w')"
proof (cases "sv_receive V w")
  case (Pair r w')
  show ?thesis
  proof (cases r)
    case (Inl e)
    with Pair failed show ?thesis by (simp add: limited_receive_def)
  next
    case (Inr ev)
    show ?thesis
    proof (cases "ev = HttpDisconnect \<or> int (n + body_length ev) \<le> b")
      case True
      with Pair Inr show ?thesis
        by (intro passed [of ev w']) (auto simp: limited_receive_def body_length_def Let_def split: asgi_event.split)
    next
      case False
      with Pair Inr show ?thesis
        by (intro cut [of ev w']) (auto simp: limited_receive_def body_length_def Let_def split: asgi_event.splits)
    qed
  qed
qed

lemma limited_sel [simp]:
  "sv_receive (limited V b) = limited_receive V b"
  "sv_send (limited V b) m (n, w) = (fst (sv_send V m w), n, snd (sv_send V m w))"
  by (simp_all add: limited_def split: prod.split)

lemma limited_send_iff: "sv_send (limited V b) m (n, w) = (r, n', w') \<longleftrightarrow> sv_send V m w = (r, w') \<and> n' = n"
  by (auto simp: limited_def split: prod.splits)

lemma body_length_disconnect [simp]: "body_length HttpDisconnect = 0"
  by (simp add: body_length_def)

lemma snd_in_snds: "snd p \<in> Basic_BNFs.snds p"
  by (cases p) simp

lemma reads_below_limit:
  "int (n + total_body (received_by (limited V b) app sc (n, w))) \<le> max (int n) b"
proof (induction app arbitrary: sc n w)
  case (Receive k)
  have IH: "int (n + total_body (received_by (limited V b) (k r) sc (n, w))) \<le> max (int n) b" for r sc n w
    by (rule Receive.IH) simp
  show ?case
  proof (cases rule: limited_receive_cases [where V = V and b = b and n = n and w = w])
    case (failed e w')
    then show ?thesis using IH [of n "Inl e" sc w'] by simp
  next
    case (cut ev w')
    then show ?thesis using IH [of "n + body_length ev" "Inl (ApiExn (too_large b))" sc w'] by simp
  next
    case (passed ev w')
    then show ?thesis using IH [of "n + body_length ev" "Inr ev" sc w'] by (auto simp: algebra_simps)
  qed
next
  case (Send m k)
  have IH: "int (n + total_body (received_by (limited V b) (k r) sc (n, w))) \<le> max (int n) b" for r sc n w
    by (rule Send.IH) simp
  then show ?case by (simp add: case_prod_unfold Let_def)
next
  case (Touch f)
  have "int (n + total_body (received_by (limited V b) (snd (f sc)) sc' (n, w))) \<le> max (int n) b" for sc'
    by (rule Touch.IH [OF rangeI snd_in_snds])
  then show ?case by (simp add: case_prod_unfold Let_def)
qed simp_all

text \<open>Below the limit the wrapped calls are the server's own.\<close>

lemma limited_transparent:
  assumes "int (n + total_body (received_by V app sc w)) \<le> b"
  shows "run_app (limited V b) app sc (n, w) =
    (let (e, sc', w') = run_app V app sc w in (e, sc', n + total_body (received_by V app sc w), w'))"
  using assms
proof (induction app arbitrary: sc n w)
  case (Receive k)
  have IH: "int (n + total_body (received_by V (k r) sc w)) \<le> b \<Longrightarrow> run_app (limited V b) (k r) sc (n, w) =
    (let (e, sc', w') = run_app V (k r) sc w in (e, sc', n + total_body (received_by V (k r) sc w), w'))" for r sc n w
    by (rule Receive.IH) simp_all
  show ?case
  proof (cases rule: limited_receive_cases [where V = V and b = b and n = n and w = w])
    case (failed e w')
    then show ?thesis using IH [of n "Inl e" sc w'] Receive.prems by simp
  next
    case (cut ev w')
    then show ?thesis using Receive.prems by simp
  next
    case (passed ev w')
    then show ?thesis using IH [of "n + body_length ev" "Inr ev" sc w'] Receive.prems by (simp add: algebra_simps)
  qed
next
  case (Send m k)
  have "int (n + total_body (received_by V (k r) sc w)) \<le> b \<Longrightarrow> run_app (limited V b) (k r) sc (n, w) =
    (let (e, sc', w') = run_app V (k r) sc w in (e, sc', n + total_body (received_by V (k r) sc w), w'))" for r sc n w
    by (rule Send.IH) simp_all
  with Send.prems show ?case by (simp add: case_prod_unfold Let_def)
next
  case (Touch f)
  have "int (n + total_body (received_by V (snd (f sc)) sc2 w)) \<le> b \<Longrightarrow> run_app (limited V b) (snd (f sc)) sc2 (n, w) =
    (let (e, sc', w') = run_app V (snd (f sc)) sc2 w in (e, sc', n + total_body (received_by V (snd (f sc)) sc2 w), w'))" for sc2
    by (rule Touch.IH [OF rangeI snd_in_snds])
  with Touch.prems show ?case by (simp add: case_prod_unfold Let_def)
qed simp_all

text \<open>The results of a number of calls of \<open>receive\<close>, one after the other.\<close>

primrec receive_calls :: "'w server \<Rightarrow> nat \<Rightarrow> 'w \<Rightarrow> (exn + asgi_event) list" where
  "receive_calls V 0 w = []"
| "receive_calls V (Suc k) w = (let (m, w') = sv_receive V w in m # receive_calls V k w')"

definition event_bytes :: "exn + asgi_event \<Rightarrow> nat" where
  "event_bytes r = (case r of Inl _ \<Rightarrow> 0 | Inr ev \<Rightarrow> body_length ev)"

lemma event_bytes_simps [simp]: "event_bytes (Inl e) = 0" "event_bytes (Inr ev) = body_length ev"
  by (simp_all add: event_bytes_def)

lemma receive_calls_limited:
  assumes "i < k"
  shows "receive_calls (limited V b) k (n, w) ! i =
    (case receive_calls V k w ! i of
       Inl e \<Rightarrow> Inl e
     | Inr ev \<Rightarrow>
         if ev \<noteq> HttpDisconnect \<and> int (n + sum_list (map event_bytes (take (Suc i) (receive_calls V k w)))) > b
         then Inl (ApiExn (too_large b)) else Inr ev)"
  using assms
proof (induction k arbitrary: n w i)
  case (Suc k)
  show ?case
  proof (cases rule: limited_receive_cases [where V = V and b = b and n = n and w = w])
    case (failed e w')
    with Suc show ?thesis by (cases i) (auto split: sum.split)
  next
    case (cut ev w')
    with Suc show ?thesis by (cases i) (auto simp: algebra_simps split: sum.split)
  next
    case (passed ev w')
    with Suc show ?thesis by (cases i) (auto simp: algebra_simps split: sum.split)
  qed
qed simp

subsection \<open>What a server promises\<close>

text \<open>
  \<open>sent w\<close> is what has been sent. A \<open>send\<close> that returns has appended its message, one that raises
  has sent nothing, and \<open>receive\<close> sends nothing.
\<close>

locale asgi_server =
  fixes V :: "'w server" and sent :: "'w \<Rightarrow> asgi_send list"
  assumes send_done: "sv_send V m w = (None, w') \<Longrightarrow> sent w' = sent w @ [m]"
    and send_failed: "sv_send V m w = (Some e, w') \<Longrightarrow> sent w' = sent w"
    and receive_sends_nothing: "sv_receive V w = (r, w') \<Longrightarrow> sent w' = sent w"
begin

lemma sent_response:
  assumes "send_response V r w = (None, w')"
  shows "sent w' = sent w @ [ResponseStart (rs_status r) (rs_media r) (rs_headers r), ResponseBody (rs_body r)]"
  using assms by (auto simp: send_response_def dest!: send_done split: prod.splits option.splits)

text \<open>A middleware that passes the calls on is a server too.\<close>

lemma limited_server: "asgi_server (limited V b) (\<lambda>(n, w). sent w)"
proof
  fix m :: asgi_send and x y :: "nat \<times> 'w" and e r
  show "sv_send (limited V b) m x = (None, y) \<Longrightarrow> (case y of (n, w) \<Rightarrow> sent w) = (case x of (n, w) \<Rightarrow> sent w) @ [m]"
    by (cases x; cases y) (auto intro: send_done simp: limited_send_iff simp del: limited_sel(2))
  show "sv_send (limited V b) m x = (Some e, y) \<Longrightarrow> (case y of (n, w) \<Rightarrow> sent w) = (case x of (n, w) \<Rightarrow> sent w)"
    by (cases x; cases y) (auto intro: send_failed simp: limited_send_iff simp del: limited_sel(2))
  show "sv_receive (limited V b) x = (r, y) \<Longrightarrow> (case y of (n, w) \<Rightarrow> sent w) = (case x of (n, w) \<Rightarrow> sent w)"
    by (cases x, cases rule: limited_receive_cases [where V = V and b = b and n = "fst x" and w = "snd x"])
      (auto dest: receive_sends_nothing)
qed

end

text \<open>A connection with the messages still to come and those sent, which no send fails on.\<close>

record wire =
  w_in :: "(exn + asgi_event) list"
  w_out :: "asgi_send list"

definition wire_server :: "wire server" where
  "wire_server =
     \<lparr>sv_receive = (\<lambda>w. case w_in w of [] \<Rightarrow> (Inr HttpDisconnect, w) | m # ms \<Rightarrow> (m, w\<lparr>w_in := ms\<rparr>)),
      sv_send = (\<lambda>m w. (None, w\<lparr>w_out := w_out w @ [m]\<rparr>))\<rparr>"

interpretation wire: asgi_server wire_server w_out
  by unfold_locales (auto simp: wire_server_def split: list.splits)

subsection \<open>Properties\<close>

text \<open>
  C24. A streamed body is counted as it arrives: a call of \<open>receive\<close> behind the limit fails with
  PayloadTooLargeError exactly when the bytes of the body up to and including this message exceed
  \<open>max_bytes\<close>, and returns the server's message otherwise; so no application, whatever it does with
  the error, has ever read more than \<open>max_bytes\<close> bytes.
\<close>

theorem streamed_body_is_cut_at_the_limit:
  assumes "i < k"
  shows "receive_calls (limited V max_bytes) k (0, w) ! i =
     (case receive_calls V k w ! i of
        Inl e \<Rightarrow> Inl e
      | Inr ev \<Rightarrow>
          if ev \<noteq> HttpDisconnect \<and> int (sum_list (map event_bytes (take (Suc i) (receive_calls V k w)))) > max_bytes
          then Inl (ApiExn (too_large max_bytes)) else Inr ev)
   \<and> int (total_body (received_by (limited V max_bytes) app sc (0, w))) \<le> max 0 max_bytes"
  using receive_calls_limited [OF assms, of V max_bytes 0 w] reads_below_limit [of 0 V max_bytes app sc w]
  by (simp add: add_0 split: sum.split)

definition sample_wire :: wire where
  "sample_wire = \<lparr>w_in = [Inr (HttpRequest (Some [1, 2, 3]) True), Inr (HttpRequest (Some [4, 5]) False)], w_out = []\<rparr>"

definition sample_app :: asgi where
  "sample_app = Receive (\<lambda>_. Receive (\<lambda>r. case r of
     Inl e \<Rightarrow> Fail e
   | Inr _ \<Rightarrow> Send (ResponseStart 200 (lit ''application/json'') []) (\<lambda>_. Send (ResponseBody None) (\<lambda>_. Done))))"

lemma sample_wire_calls:
  "receive_calls wire_server 2 sample_wire = w_in sample_wire"
  by (simp add: numeral_2_eq_2 sample_wire_def wire_server_def)

theorem streamed_body_is_cut_at_the_limit_witness:
  "receive_calls (limited wire_server 4) 2 (0, sample_wire) ! 1 = Inl (ApiExn (too_large 4))
   \<and> total_body (received_by (limited wire_server 4) sample_app (http_scope (lit ''POST'') (lit ''/messages'')) (0, sample_wire)) \<le> 4"
  using streamed_body_is_cut_at_the_limit [of 1 2 wire_server 4 sample_wire sample_app
      "http_scope (lit ''POST'') (lit ''/messages'')"]
  unfolding sample_wire_calls by (simp add: sample_wire_def body_length_def)

text \<open>
  A request that declares a Content-Length over the limit is answered 413 with the problem type
  payload-too-large, and the application behind the limit is not called: the outcome is the same
  for every application, and nothing of the body is received.
\<close>

theorem declared_length_over_limit_is_refused:
  assumes "sc_type sc = ''http''" and "py_int (declared_length sc) = Some n" and "int n > max_bytes"
    and "utf8_encode (sc_path sc) = Some bs"
  shows "\<exists>r. rs_status r = 413 \<and> rs_media r = PROBLEM_JSON
     \<and> body_member ''type'' r = Some (JStr (lit ''/problems/payload-too-large''))
     \<and> body_member ''code'' r = Some (JStr (lit ''BAD_USER_INPUT''))
     \<and> (\<forall>app. BodyLimitMiddleware max_bytes app V sc w =
          (let (e, w') = send_response V r w in (e, sc\<lparr>sc_error_code := Some (lit ''BAD_USER_INPUT'')\<rparr>, w')))"
proof -
  let ?e = "too_large max_bytes"
  have e: "ae_status ?e = 413" "ae_code ?e = lit ''BAD_USER_INPUT''" "ae_type_slug ?e = Some (lit ''payload-too-large'')"
    by (simp_all add: too_large_def service_error_defs)
  obtain q where q: "py_quote [47] (sc_path sc) = Some q" using assms(4) by (auto simp: py_quote_def)
  have t: "problem_type_member (problem_slug (ae_type_slug ?e) (ae_code ?e)) = Inr (lit ''/problems/payload-too-large'')"
    by (simp add: e problem_slug_def problem_type_member_def) (simp add: problem_type_uri_def PROBLEM_BASE_def lit_def)
  have d: "py_isdigit (declared_length sc)" using assms(2) by (simp add: py_int_def split: if_splits)
  from assms d problem_response_ok [OF t _ q, of "ae_status ?e" "lit ''Content Too Large''" "ae_detail ?e" None]
  show ?thesis
    by (intro exI conjI allI) (simp_all add: BodyLimitMiddleware_def e)
qed

definition oversized_scope :: scope where
  "oversized_scope = (http_scope (lit ''POST'') (lit ''/messages''))
     \<lparr>sc_headers := [(lit ''content-length'', lit ''16385'')]\<rparr>"

theorem declared_length_over_limit_is_refused_witness:
  "sc_type oversized_scope = ''http'' \<and> py_int (declared_length oversized_scope) = Some 16385
   \<and> (\<exists>r. rs_status r = 413
        \<and> (\<forall>app. BodyLimitMiddleware 16384 app wire_server oversized_scope sample_wire =
             (let (e, w') = send_response wire_server r sample_wire
              in (e, oversized_scope\<lparr>sc_error_code := Some (lit ''BAD_USER_INPUT'')\<rparr>, w'))))"
proof -
  have 1: "sc_type oversized_scope = ''http''" by (simp add: oversized_scope_def http_scope_def)
  have 2: "py_int (declared_length oversized_scope) = Some 16385"
    by (simp add: oversized_scope_def declared_length_def py_defs is_ascii_digit_def digits_val_def lit_def)
  have 3: "utf8_encode (sc_path oversized_scope) = Some (lit ''/messages'')"
    by (simp add: oversized_scope_def http_scope_def lit_def utf8_char_def)
  have 4: "int 16385 > 16384" by simp
  from declared_length_over_limit_is_refused [OF 1 2 4 3, of wire_server sample_wire] 1 2 show ?thesis by blast
qed

text \<open>
  A request within the limit is served as if the middleware were not there: the application
  makes the same calls with the same results and leaves the same scope, whatever it does, when no
  Content-Length over the limit is declared and what it reads stays below the limit.
\<close>

theorem body_limit_is_transparent:
  assumes "\<not> py_isdigit (declared_length sc)
      \<or> (\<exists>n. py_int (declared_length sc) = Some n \<and> int n \<le> max_bytes)"
    and "int (total_body (received_by V app sc w)) \<le> max_bytes"
  shows "BodyLimitMiddleware max_bytes app V sc w = run_app V app sc w"
  using assms limited_transparent [of 0 V app sc w max_bytes]
  by (auto simp: BodyLimitMiddleware_def run_limited_def Let_def py_int_def split: prod.split if_splits)

theorem body_limit_is_transparent_witness:
  "BodyLimitMiddleware 16384 sample_app wire_server (http_scope (lit ''POST'') (lit ''/messages'')) sample_wire
     = (None, http_scope (lit ''POST'') (lit ''/messages''),
        \<lparr>w_in = [], w_out = [ResponseStart 200 (lit ''application/json'') [], ResponseBody None]\<rparr>)"
proof -
  have 1: "\<not> py_isdigit (declared_length (http_scope (lit ''POST'') (lit ''/messages'')))"
    by (simp add: declared_length_def http_scope_def py_defs)
  have 2: "int (total_body (received_by wire_server sample_app (http_scope (lit ''POST'') (lit ''/messages'')) sample_wire)) \<le> 16384"
    by (simp add: sample_app_def sample_wire_def wire_server_def body_length_def)
  show ?thesis
    using body_limit_is_transparent [of "http_scope (lit ''POST'') (lit ''/messages'')" 16384 wire_server sample_app sample_wire]
      1 2 by (simp add: sample_app_def sample_wire_def wire_server_def)
qed

end
