(* ===== verification/Telemetry.thy ===== *)
theory Telemetry
  imports Middleware Complex_Main "HOL-Library.Multiset"
begin

section \<open>Metrics: \<open>app/telemetry.py\<close>\<close>

text \<open>
  The metrics middleware, which is also the last handler of exceptions, and the state behind the
  gauges: the samples of the loop lag, the sum of the query durations and the CPU times of the last
  collection. Durations are rationals: the source computes with floats, and the rounding of a float
  operation is not modelled. The readings of the clocks are arguments.
\<close>

subsection \<open>RequestMetricsMiddleware\<close>

definition EXCLUDED_PREFIX :: pystr where
  "EXCLUDED_PREFIX = lit ''/health/''"

definition UNMATCHED_ROUTE :: pystr where
  "UNMATCHED_ROUTE = lit ''unmatched''"

text \<open>
  What is recorded: the data points with their attributes (method, route, and status or error code)
  and the lines of the access log.
\<close>

datatype observation =
    DurationRecorded rat pystr pystr
  | RequestCounted pystr pystr nat
  | ErrorCounted pystr pystr pystr
  | AccessLogged pystr pystr nat rat
  | ExceptionLogged pystr

text \<open>\<open>round(x, 2)\<close> rounds half to even.\<close>

definition py_round2 :: "rat \<Rightarrow> rat" where
  "py_round2 x =
     (let f = \<lfloor>x * 100\<rfloor>; d = x * 100 - of_int f
      in of_int (if d < 1 / 2 \<or> d = 1 / 2 \<and> even f then f else f + 1) / 100)"

text \<open>\<open>send_wrapper\<close>: the variables \<open>status\<close> and \<open>started\<close> are a pair in the state of the server.\<close>

fun note_start :: "asgi_send \<Rightarrow> nat \<times> bool \<Rightarrow> nat \<times> bool" where
  "note_start (ResponseStart st _ _) p = (st, True)"
| "note_start (ResponseBody _) p = p"

definition watched :: "'w server \<Rightarrow> ((nat \<times> bool) \<times> 'w) server" where
  "watched V =
     \<lparr>sv_receive = (\<lambda>(p, w). let (m, w') = sv_receive V w in (m, p, w')),
      sv_send = (\<lambda>message (p, w).
        let p' = note_start message p; (e, w') = sv_send V message w in (e, p', w'))\<rparr>"

text \<open>The \<open>send\<close> of the server itself, which the health probes get.\<close>

definition unwatched :: "'w server \<Rightarrow> ((nat \<times> bool) \<times> 'w) server" where
  "unwatched V =
     \<lparr>sv_receive = (\<lambda>(p, w). let (m, w') = sv_receive V w in (m, p, w')),
      sv_send = (\<lambda>message (p, w). let (e, w') = sv_send V message w in (e, p, w'))\<rparr>"

text \<open>\<open>except Exception\<close>: a cancellation is not an Exception.\<close>

definition is_exception :: "exn \<Rightarrow> bool" where
  "is_exception e \<longleftrightarrow> e \<noteq> CancelledError"

definition unhandled_exception ::
  "'w server \<Rightarrow> exn option \<times> scope \<times> (nat \<times> bool) \<times> 'w
     \<Rightarrow> (exn option \<times> scope \<times> (nat \<times> bool) \<times> 'w) \<times> observation list" where
  "unhandled_exception V = (\<lambda>(e, sc, (status, started), w).
     case e of
       None \<Rightarrow> ((None, sc, (status, started), w), [])
     | Some x \<Rightarrow>
         if \<not> is_exception x then ((Some x, sc, (status, started), w), [])
         else
           ((if started then (None, sc, (500, started), w)
             else (case problem_response sc 500 (lit ''INTERNAL_SERVER_ERROR'')
                       (lit ''An unexpected error occurred.'') None None of
                     (Inl e', sc') \<Rightarrow> (Some e', sc', (500, started), w)
                   | (Inr response, sc') \<Rightarrow>
                       let (e', x') = send_response (watched V) response ((500, started), w)
                       in (e', sc', x'))),
            [ExceptionLogged (sc_method sc)]))"

text \<open>The \<open>finally\<close> block.\<close>

definition request_record :: "rat \<Rightarrow> rat \<Rightarrow> scope \<Rightarrow> nat \<Rightarrow> observation list" where
  "request_record start stop sc status =
     (let elapsed_ms = (stop - start) * 1000;
          route = (case sc_route sc of None \<Rightarrow> UNMATCHED_ROUTE | Some r \<Rightarrow> r);
          method = sc_method sc
      in [DurationRecorded elapsed_ms method route, RequestCounted method route status]
         @ (if status \<ge> 400 then
              [ErrorCounted method route (case sc_error_code sc of None \<Rightarrow> lit ''UNKNOWN'' | Some c \<Rightarrow> c)]
            else [])
         @ [AccessLogged method route status (py_round2 elapsed_ms)])"

text \<open>
  \<open>app\<close> is the application the middleware wraps, as a function of the server it is given;
  \<open>start\<close> and \<open>stop\<close> are the readings of \<open>perf_counter\<close>.
\<close>

definition RequestMetricsMiddleware ::
  "(((nat \<times> bool) \<times> 'w) server \<Rightarrow> scope \<Rightarrow> (nat \<times> bool) \<times> 'w \<Rightarrow> exn option \<times> scope \<times> (nat \<times> bool) \<times> 'w)
     \<Rightarrow> 'w server \<Rightarrow> rat \<Rightarrow> rat \<Rightarrow> scope \<Rightarrow> 'w \<Rightarrow> (exn option \<times> scope \<times> 'w) \<times> observation list" where
  "RequestMetricsMiddleware app V start stop sc w =
     (if sc_type sc \<noteq> ''http'' \<or> py_startswith (sc_path sc) EXCLUDED_PREFIX then
        (let (e, sc', _, w') = app (unwatched V) sc ((500, False), w) in ((e, sc', w'), []))
      else
        (let ((e, sc', (status, _), w'), logged) =
               unhandled_exception V (app (watched V) sc ((500, False), w))
         in ((e, sc', w'), logged @ request_record start stop sc' status)))"

subsection \<open>The lag of the event loop\<close>

definition INTERVAL :: rat where
  "INTERVAL = 2 / 100"

definition MAX_SAMPLES :: nat where
  "MAX_SAMPLES = 3000"

text \<open>A \<open>deque(maxlen=n)\<close>: appending to a full one drops the oldest.\<close>

definition deque_append :: "nat \<Rightarrow> 'a \<Rightarrow> 'a list \<Rightarrow> 'a list" where
  "deque_append maxlen x xs = (let ys = xs @ [x] in drop (length ys - maxlen) ys)"

text \<open>One round of \<open>_run\<close>: the clock before and after the sleep.\<close>

definition lag_sample :: "rat \<Rightarrow> rat \<Rightarrow> rat list \<Rightarrow> rat list" where
  "lag_sample before after samples =
     deque_append MAX_SAMPLES (max ((after - before - INTERVAL) * 1000) 0) samples"

definition lag_run :: "(rat \<times> rat) list \<Rightarrow> rat list" where
  "lag_run sleeps = foldl (\<lambda>samples (before, after). lag_sample before after samples) [] sleeps"

text \<open>
  \<open>ordered[int(0.99 * (len(ordered) - 1))]\<close>. For the lengths a deque of 3000 can have, the float
  product truncates to the quotient below.
\<close>

definition p99 :: "rat list \<Rightarrow> rat" where
  "p99 samples =
     (if samples = [] then 0
      else let ordered = sort samples in ordered ! (99 * (length ordered - 1) div 100))"

subsection \<open>The durations of the queries, the CPU usage and the pool\<close>

record query_stats =
  qs_total_ms :: rat
  qs_count :: nat

definition query_stats_init :: query_stats where
  "query_stats_init = \<lparr>qs_total_ms = 0, qs_count = 0\<rparr>"

definition query_add :: "rat \<Rightarrow> query_stats \<Rightarrow> query_stats" where
  "query_add ms q = q\<lparr>qs_total_ms := qs_total_ms q + ms, qs_count := qs_count q + 1\<rparr>"

definition take_average :: "query_stats \<Rightarrow> rat \<times> query_stats" where
  "take_average q =
     (let avg = (if qs_count q \<noteq> 0 then qs_total_ms q / of_nat (qs_count q) else 0)
      in (avg, q\<lparr>qs_total_ms := 0, qs_count := 0\<rparr>))"

text \<open>\<open>last\<close>: the CPU time and the clock at the previous collection.\<close>

record cpu_last =
  cl_cpu :: rat
  cl_wall :: rat

definition cpu_ratio :: "rat \<Rightarrow> rat \<Rightarrow> cpu_last \<Rightarrow> rat \<times> cpu_last" where
  "cpu_ratio cpu wall prev =
     (let elapsed = wall - cl_wall prev;
          ratio = (if elapsed > 0 then (cpu - cl_cpu prev) / elapsed else 0)
      in (ratio, prev\<lparr>cl_cpu := cpu, cl_wall := wall\<rparr>))"

text \<open>
  The state behind the gauges. The listeners of SQLAlchemy's events keep the start of a statement in
  its execution context, here a map from contexts.
\<close>

record metrics_state =
  mt_last :: cpu_last
  mt_samples :: "rat list"
  mt_started :: "nat \<Rightarrow> rat option"
  mt_stats :: query_stats

definition metrics_init :: "rat \<Rightarrow> rat \<Rightarrow> metrics_state" where
  "metrics_init cpu wall =
     \<lparr>mt_last = \<lparr>cl_cpu = cpu, cl_wall = wall\<rparr>, mt_samples = [], mt_started = Map.empty,
      mt_stats = query_stats_init\<rparr>"

definition before_cursor_execute :: "nat \<Rightarrow> rat \<Rightarrow> metrics_state \<Rightarrow> metrics_state" where
  "before_cursor_execute context now s = s\<lparr>mt_started := (mt_started s)(context \<mapsto> now)\<rparr>"

text \<open>Without a start it is an AttributeError.\<close>

definition after_cursor_execute :: "nat \<Rightarrow> rat \<Rightarrow> metrics_state \<Rightarrow> exn + metrics_state" where
  "after_cursor_execute context now s =
     (case mt_started s context of
        None \<Rightarrow> Inl (OtherError ''AttributeError'')
      | Some started \<Rightarrow> Inr (s\<lparr>mt_stats := query_add ((now - started) * 1000) (mt_stats s)\<rparr>))"

text \<open>What the process and the pool of the engine say at a collection.\<close>

record readings =
  rd_rss :: rat
  rd_cpu :: rat
  rd_wall :: rat
  rd_checkedin :: nat
  rd_checkedout :: nat

text \<open>One collection: the callbacks of the gauges, in the order they were created.\<close>

definition collect :: "readings \<Rightarrow> metrics_state \<Rightarrow> (string \<times> rat) list \<times> metrics_state" where
  "collect rd s =
     (let (ratio, last') = cpu_ratio (rd_cpu rd) (rd_wall rd) (mt_last s);
          (avg, stats') = take_average (mt_stats s)
      in ([(''python_process_memory_rss_bytes'', rd_rss rd),
           (''python_process_cpu_usage_ratio'', ratio),
           (''python_eventloop_lag_p99_ms'', p99 (mt_samples s)),
           (''db_pool_connections_open'', of_nat (rd_checkedin rd + rd_checkedout rd)),
           (''db_pool_connections_busy'', of_nat (rd_checkedout rd)),
           (''db_pool_connections_idle'', of_nat (rd_checkedin rd)),
           (''db_client_queries_duration_avg_ms'', avg)],
          s\<lparr>mt_last := last', mt_stats := stats'\<rparr>))"

datatype metrics_event =
    SleepEnded rat rat
  | QueryStarted nat rat
  | QueryEnded nat rat
  | Collected readings

definition metrics_step :: "metrics_state \<Rightarrow> metrics_event \<Rightarrow> metrics_state" where
  "metrics_step s ev =
     (case ev of
        SleepEnded before after \<Rightarrow> s\<lparr>mt_samples := lag_sample before after (mt_samples s)\<rparr>
      | QueryStarted context now \<Rightarrow> before_cursor_execute context now s
      | QueryEnded context now \<Rightarrow> (case after_cursor_execute context now s of Inl _ \<Rightarrow> s | Inr s' \<Rightarrow> s')
      | Collected rd \<Rightarrow> snd (collect rd s))"


subsection \<open>The middleware and what is sent\<close>

text \<open>
  A server whose state also holds the pair \<open>(status, started)\<close>: the pair follows the starts that are
  sent. The watched server is one, and so is the body limit around it.
\<close>

locale reliable_server = asgi_server V sent for V :: "'w server" and sent +
  assumes send_ok: "fst (sv_send V m w) = None"
begin

lemma response_sent:
  obtains w' where "send_response V r w = (None, w')"
    "sent w' = sent w @ [ResponseStart (rs_status r) (rs_media r) (rs_headers r), ResponseBody (rs_body r)]"
proof (cases "send_response V r w")
  case (Pair e w')
  have "e = None" using Pair send_ok by (auto simp: send_response_def split: prod.splits option.splits) (metis fst_conv option.distinct(1))+
  with Pair that sent_response show ?thesis by blast
qed

end

interpretation wire: reliable_server wire_server w_out
  by unfold_locales (simp add: wire_server_def)

definition noting_run ::
  "('x \<Rightarrow> asgi_send list) \<Rightarrow> ('x \<Rightarrow> nat \<times> bool) \<Rightarrow> 'x \<Rightarrow> exn option \<times> scope \<times> 'x \<Rightarrow> bool" where
  "noting_run sent noted x res \<longleftrightarrow>
     (\<exists>new. sent (snd (snd res)) = sent x @ new \<and> noted (snd (snd res)) = fold note_start new (noted x))"

locale noting_server = asgi_server V sent for V :: "'x server" and sent +
  fixes noted :: "'x \<Rightarrow> nat \<times> bool"
  assumes send_noted: "sv_send V m x = (r, x') \<Longrightarrow> r = None \<and> noted x' = note_start m (noted x)"
    and receive_keeps: "sv_receive V x = (ev, x') \<Longrightarrow> noted x' = noted x"
begin

lemma run_app_noted:
  "\<exists>new. sent (snd (snd (run_app V app sc x))) = sent x @ new
     \<and> noted (snd (snd (run_app V app sc x))) = fold note_start new (noted x)"
proof (induction app arbitrary: sc x)
  case (Receive k)
  show ?case
  proof (cases "sv_receive V x")
    case (Pair r x')
    have "\<exists>new. sent (snd (snd (run_app V (k r) sc x'))) = sent x' @ new
        \<and> noted (snd (snd (run_app V (k r) sc x'))) = fold note_start new (noted x')" by (rule Receive.IH) simp
    with Pair receive_keeps [OF Pair] receive_sends_nothing [OF Pair] show ?thesis by simp
  qed
next
  case (Send m k)
  show ?case
  proof (cases "sv_send V m x")
    case (Pair r x')
    have IH: "\<exists>new. sent (snd (snd (run_app V (k r) sc x'))) = sent x' @ new
        \<and> noted (snd (snd (run_app V (k r) sc x'))) = fold note_start new (noted x')" by (rule Send.IH) simp
    then obtain new where "sent (snd (snd (run_app V (k r) sc x'))) = sent x' @ new
        \<and> noted (snd (snd (run_app V (k r) sc x'))) = fold note_start new (noted x')" ..
    with Pair send_noted [OF Pair] send_done show ?thesis
      by (intro exI [of _ "m # new"]) (auto dest: send_done)
  qed
next
  case (Touch f)
  have "\<exists>new. sent (snd (snd (run_app V (snd (f sc)) sc2 x))) = sent x @ new
      \<and> noted (snd (snd (run_app V (snd (f sc)) sc2 x))) = fold note_start new (noted x)" for sc2
    by (rule Touch.IH [OF rangeI snd_in_snds])
  then show ?case by (simp add: case_prod_unfold)
qed simp_all

lemma limited_noting: "noting_server (limited V b) (\<lambda>(n, x). sent x) (\<lambda>(n, x). noted x)"
proof (intro noting_server.intro limited_server noting_server_axioms.intro)
  fix m :: asgi_send and x y :: "nat \<times> 'x" and r ev
  show "sv_send (limited V b) m x = (r, y) \<Longrightarrow>
      r = None \<and> (case y of (n, x) \<Rightarrow> noted x) = note_start m (case x of (n, x) \<Rightarrow> noted x)"
    by (cases x; cases y) (auto dest: send_noted simp: limited_send_iff simp del: limited_sel(2))
  show "sv_receive (limited V b) x = (ev, y) \<Longrightarrow> (case y of (n, x) \<Rightarrow> noted x) = (case x of (n, x) \<Rightarrow> noted x)"
    by (cases x, cases rule: limited_receive_cases [where V = V and b = b and n = "fst x" and w = "snd x"])
      (auto dest: receive_keeps)
qed

lemma response_noted: "noting_run sent noted x (let (e, x') = send_response V r x in (e, sc, x'))"
proof (cases "sv_send V (ResponseStart (rs_status r) (rs_media r) (rs_headers r)) x")
  case (Pair e x1)
  then have 1: "e = None" "noted x1 = (rs_status r, True)"
    "sent x1 = sent x @ [ResponseStart (rs_status r) (rs_media r) (rs_headers r)]"
    using send_noted [OF Pair] send_done by auto
  show ?thesis
  proof (cases "sv_send V (ResponseBody (rs_body r)) x1")
    fix e2 x2 assume 2: "sv_send V (ResponseBody (rs_body r)) x1 = (e2, x2)"
    then have "e2 = None" "noted x2 = noted x1" "sent x2 = sent x1 @ [ResponseBody (rs_body r)]"
      using send_noted [OF 2] send_done by auto
    with Pair 1 2 show ?thesis by (auto simp: noting_run_def send_response_def)
  qed
qed

lemma body_limit_noted: "noting_run sent noted x (BodyLimitMiddleware b app V sc x)"
proof -
  have plain: "noting_run sent noted x (run_app V app sc x)"
    using run_app_noted [of app sc x] by (simp add: noting_run_def)
  have lim: "noting_run sent noted x (run_limited b app V sc x)"
    using noting_server.run_app_noted [OF limited_noting, of b app sc "(0, x)"]
    by (simp add: noting_run_def run_limited_def case_prod_unfold Let_def)
  have none: "noting_run sent noted x (e, sc, x)" for e sc by (simp add: noting_run_def)
  show ?thesis
    using plain lim none response_noted
    by (simp add: BodyLimitMiddleware_def Let_def split: option.split sum.split prod.split)
qed

end

context reliable_server
begin

lemma watched_noting: "noting_server (watched V) (\<lambda>(p, w). sent w) fst"
proof unfold_locales
  fix m and x y :: "(nat \<times> bool) \<times> 'w" and r e ev
  have ok: "sv_send V m w = (None, snd (sv_send V m w))" for w
    using send_ok [of m w] by (simp add: prod_eq_iff)
  show "sv_send (watched V) m x = (None, y) \<Longrightarrow> (case y of (p, w) \<Rightarrow> sent w) = (case x of (p, w) \<Rightarrow> sent w) @ [m]"
    by (auto simp: watched_def Let_def dest: send_done split: prod.splits)
  show "sv_send (watched V) m x = (Some e, y) \<Longrightarrow> (case y of (p, w) \<Rightarrow> sent w) = (case x of (p, w) \<Rightarrow> sent w)"
    by (auto simp: watched_def Let_def dest: send_failed split: prod.splits)
  show "sv_receive (watched V) x = (ev, y) \<Longrightarrow> (case y of (p, w) \<Rightarrow> sent w) = (case x of (p, w) \<Rightarrow> sent w)"
    by (auto simp: watched_def dest: receive_sends_nothing split: prod.splits)
  show "sv_send (watched V) m x = (r, y) \<Longrightarrow> r = None \<and> fst y = note_start m (fst x)"
    using ok [of "snd x"] by (auto simp: watched_def Let_def split: prod.splits)
  show "sv_receive (watched V) x = (ev, y) \<Longrightarrow> fst y = fst x"
    by (auto simp: watched_def split: prod.splits)
qed

end

interpretation watched_wire: noting_server "watched wire_server" "\<lambda>(p, w). w_out w" fst
  by (rule wire.watched_noting)

text \<open>The status the client saw last, 500 when no response was started.\<close>

definition last_status :: "asgi_send list \<Rightarrow> nat" where
  "last_status ms = fst (fold note_start ms (500, False))"

definition response_started :: "asgi_send list \<Rightarrow> bool" where
  "response_started ms \<longleftrightarrow> (\<exists>st media hs. ResponseStart st media hs \<in> set ms)"

lemma fold_note_started: "snd (fold note_start ms p) \<longleftrightarrow> snd p \<or> response_started ms"
proof (induction ms arbitrary: p)
  case (Cons m ms)
  from Cons.IH [of "note_start m p"] show ?case by (cases m; cases p) (auto simp: response_started_def)
qed (simp add: response_started_def)

text \<open>
  A request that is not a health probe, from what the application behind the middleware did: its
  exception \<open>x\<close>, the scope it left, what it sent, and the state of the connection.
\<close>

definition measured :: "scope \<Rightarrow> bool" where
  "measured sc \<longleftrightarrow> sc_type sc = ''http'' \<and> \<not> py_startswith (sc_path sc) EXCLUDED_PREFIX"

definition inner_run ::
  "int \<Rightarrow> asgi \<Rightarrow> 'w server \<Rightarrow> scope \<Rightarrow> 'w \<Rightarrow> exn option \<times> scope \<times> (nat \<times> bool) \<times> 'w" where
  "inner_run max_bytes app V sc w = BodyLimitMiddleware max_bytes app (watched V) sc ((500, False), w)"

definition internal_error :: "pystr \<Rightarrow> json" where
  "internal_error inst =
     problem_body (lit ''/problems/internal-server-error'') (lit ''Internal Server Error'') 500
       (lit ''An unexpected error occurred.'') inst (lit ''INTERNAL_SERVER_ERROR'') None"

lemma internal_error_response:
  assumes "py_quote [47] (sc_path sc) = Some inst"
  shows "problem_response sc 500 (lit ''INTERNAL_SERVER_ERROR'') (lit ''An unexpected error occurred.'') None None
     = (Inr \<lparr>rs_status = 500, rs_media = PROBLEM_JSON, rs_headers = [], rs_body = Some (internal_error inst)\<rparr>,
        sc\<lparr>sc_error_code := Some (lit ''INTERNAL_SERVER_ERROR'')\<rparr>)"
proof -
  have "problem_type_member (problem_slug None (lit ''INTERNAL_SERVER_ERROR'')) = Inr (lit ''/problems/internal-server-error'')"
    by (simp add: problem_slug_def problem_type_member_def) (simp add: problem_type_uri_def PROBLEM_BASE_def lit_def)
  then show ?thesis
    by (subst problem_response_ok [OF _ http_phrase_simps(6) assms]) (simp_all add: internal_error_def)
qed

context reliable_server
begin

lemma inner_run_noted:
  assumes "inner_run b app V sc w = (e, sc1, (status, started), w1)"
  obtains new where "sent w1 = sent w @ new" "status = last_status new" "started = response_started new"
proof -
  from noting_server.body_limit_noted [OF watched_noting, of "((500, False), w)" b app sc] assms
  obtain new where "sent w1 = sent w @ new" "(status, started) = fold note_start new (500, False)"
    by (auto simp: noting_run_def inner_run_def)
  with that [of new] fold_note_started [of new "(500, False)"] show ?thesis
    by (simp add: last_status_def) (metis fst_conv snd_conv)
qed

text \<open>The application returned.\<close>

lemma request_returned:
  assumes "measured sc" and "inner_run b app V sc w = (None, sc1, p, w1)"
  shows "RequestMetricsMiddleware (BodyLimitMiddleware b app) V start stop sc w
     = ((None, sc1, w1), request_record start stop sc1 (fst p))"
  using assms
  by (cases p) (simp add: measured_def inner_run_def RequestMetricsMiddleware_def unhandled_exception_def)

text \<open>A response sent through the watched \<open>send\<close>.\<close>

lemma response_watched:
  obtains w' where "send_response (watched V) r (p, w) = (None, (rs_status r, True), w')"
    "sent w' = sent w @ [ResponseStart (rs_status r) (rs_media r) (rs_headers r), ResponseBody (rs_body r)]"
proof (rule response_sent [of r w])
  fix w'
  assume w': "send_response V r w = (None, w')"
    "sent w' = sent w @ [ResponseStart (rs_status r) (rs_media r) (rs_headers r), ResponseBody (rs_body r)]"
  then have "send_response (watched V) r (p, w) = (None, (rs_status r, True), w')"
    by (auto simp: send_response_def watched_def Let_def split: prod.splits option.splits)
  with w'(2) show thesis by (rule that [rotated])
qed

text \<open>The request was cancelled.\<close>

lemma request_cancelled:
  assumes "measured sc" and "inner_run b app V sc w = (Some CancelledError, sc1, p, w1)"
  shows "RequestMetricsMiddleware (BodyLimitMiddleware b app) V start stop sc w
     = ((Some CancelledError, sc1, w1), request_record start stop sc1 (fst p))"
  using assms
  by (cases p) (simp add: measured_def inner_run_def RequestMetricsMiddleware_def unhandled_exception_def is_exception_def)

text \<open>The application raised.\<close>

lemma request_raised:
  assumes "measured sc" and "inner_run b app V sc w = (Some x, sc1, (status, started), w1)" and "is_exception x"
    and "py_quote [47] (sc_path sc1) = Some inst"
  obtains w' sc' where "RequestMetricsMiddleware (BodyLimitMiddleware b app) V start stop sc w
     = ((None, sc', w'), ExceptionLogged (sc_method sc1) # request_record start stop sc' 500)"
    "sc' = (if started then sc1 else sc1\<lparr>sc_error_code := Some (lit ''INTERNAL_SERVER_ERROR'')\<rparr>)"
    "sent w' = sent w1
       @ (if started then [] else [ResponseStart 500 PROBLEM_JSON [], ResponseBody (Some (internal_error inst))])"
proof (cases started)
  case True
  with assms that [of sc1 w1] show ?thesis
    by (simp add: measured_def inner_run_def RequestMetricsMiddleware_def unhandled_exception_def)
next
  case False
  let ?r = "\<lparr>rs_status = 500, rs_media = PROBLEM_JSON, rs_headers = [], rs_body = Some (internal_error inst)\<rparr>"
  obtain w' where r: "send_response (watched V) ?r ((500, False), w1) = (None, (500, True), w')"
    "sent w' = sent w1 @ [ResponseStart 500 PROBLEM_JSON [], ResponseBody (Some (internal_error inst))]"
    by (rule response_watched [of ?r "(500, False)" w1]) simp
  with assms False r that [of "sc1\<lparr>sc_error_code := Some (lit ''INTERNAL_SERVER_ERROR'')\<rparr>" w'] show ?thesis
    by (simp add: measured_def inner_run_def RequestMetricsMiddleware_def unhandled_exception_def
        internal_error_response [OF assms(4)])
qed

end

fun request_points :: "observation list \<Rightarrow> (pystr \<times> pystr \<times> nat) list" where
  "request_points [] = []"
| "request_points (RequestCounted method route status # obs) = (method, route, status) # request_points obs"
| "request_points (_ # obs) = request_points obs"

fun error_points :: "observation list \<Rightarrow> (pystr \<times> pystr \<times> pystr) list" where
  "error_points [] = []"
| "error_points (ErrorCounted method route code # obs) = (method, route, code) # error_points obs"
| "error_points (_ # obs) = error_points obs"

definition route_label :: "scope \<Rightarrow> pystr" where
  "route_label sc = (case sc_route sc of None \<Rightarrow> UNMATCHED_ROUTE | Some r \<Rightarrow> r)"

definition code_label :: "scope \<Rightarrow> pystr" where
  "code_label sc = (case sc_error_code sc of None \<Rightarrow> lit ''UNKNOWN'' | Some c \<Rightarrow> c)"

lemma request_record_points [simp]:
  "request_points (request_record t0 t1 sc status) = [(sc_method sc, route_label sc, status)]"
  "error_points (request_record t0 t1 sc status)
     = (if status \<ge> 400 then [(sc_method sc, route_label sc, code_label sc)] else [])"
  by (simp_all add: request_record_def Let_def route_label_def code_label_def)

subsection \<open>The samples of the lag\<close>

definition lag_ms :: "rat \<times> rat \<Rightarrow> rat" where
  "lag_ms = (\<lambda>(before, after). max ((after - before - INTERVAL) * 1000) 0)"

lemma foldl_deque: "foldl (\<lambda>xs x. deque_append m x xs) [] ys = drop (length ys - m) ys"
proof (induction ys rule: rev_induct)
  case (snoc y ys)
  show ?case
  proof (cases "length ys < m")
    case True
    with snoc show ?thesis by (simp add: deque_append_def)
  next
    case False
    with snoc show ?thesis by (simp add: deque_append_def Let_def Suc_diff_le)
  qed
qed simp

lemma lag_run_recent: "lag_run sleeps = drop (length sleeps - MAX_SAMPLES) (map lag_ms sleeps)"
proof -
  have "lag_run sleeps = foldl (\<lambda>xs x. deque_append MAX_SAMPLES x xs) [] (map lag_ms sleeps)"
    by (simp add: lag_run_def foldl_map lag_sample_def lag_ms_def case_prod_unfold)
  then show ?thesis by (simp add: foldl_deque)
qed

lemma sorted_nth_counts:
  assumes "sorted xs" and "k < length xs"
  shows "length [x \<leftarrow> xs. x < xs ! k] \<le> k" and "length [x \<leftarrow> xs. x > xs ! k] \<le> length xs - Suc k"
proof -
  have "[x \<leftarrow> xs. x < xs ! k] = [x \<leftarrow> take k xs. x < xs ! k] @ [x \<leftarrow> drop k xs. x < xs ! k]"
    by (subst append_take_drop_id [of k xs, symmetric]) (simp only: filter_append)
  moreover have "[x \<leftarrow> drop k xs. x < xs ! k] = []"
    using assms by (auto simp: filter_empty_conv in_set_conv_nth not_less intro!: sorted_nth_mono [OF assms(1)])
  ultimately show "length [x \<leftarrow> xs. x < xs ! k] \<le> k"
    using length_filter_le [of "\<lambda>x. x < xs ! k" "take k xs"] by simp
  have "[x \<leftarrow> xs. x > xs ! k] = [x \<leftarrow> take (Suc k) xs. x > xs ! k] @ [x \<leftarrow> drop (Suc k) xs. x > xs ! k]"
    by (subst append_take_drop_id [of "Suc k" xs, symmetric]) (simp only: filter_append)
  moreover have "[x \<leftarrow> take (Suc k) xs. x > xs ! k] = []"
    using assms by (auto simp: filter_empty_conv in_set_conv_nth not_less intro!: sorted_nth_mono [OF assms(1)])
  ultimately show "length [x \<leftarrow> xs. x > xs ! k] \<le> length xs - Suc k"
    using length_filter_le [of "\<lambda>x. x > xs ! k" "drop (Suc k) xs"] by simp
qed

lemma length_filter_mset: "mset xs = mset ys \<Longrightarrow> length (filter P xs) = length (filter P ys)"
  by (metis mset_filter size_mset)

lemma p99_counts:
  assumes "samples \<noteq> []"
  shows "p99 samples \<in> set samples"
    and "length [x \<leftarrow> samples. x > p99 samples] \<le> (length samples + 98) div 100"
    and "length [x \<leftarrow> samples. x < p99 samples] \<le> 99 * (length samples - 1) div 100"
proof -
  let ?k = "99 * (length samples - 1) div 100"
  have k: "?k < length (sort samples)" using assms by (cases samples) simp_all
  have p: "p99 samples = sort samples ! ?k" using assms by (simp add: p99_def Let_def)
  show "p99 samples \<in> set samples" using nth_mem [OF k] unfolding p by simp
  have m: "length (filter P samples) = length (filter P (sort samples))" for P
    by (rule length_filter_mset) simp
  show "length [x \<leftarrow> samples. x < p99 samples] \<le> ?k"
    using sorted_nth_counts(1) [OF sorted_sort k] unfolding m p .
  have "length [x \<leftarrow> samples. x > p99 samples] \<le> length samples - Suc ?k"
    using sorted_nth_counts(2) [OF sorted_sort k] unfolding m p by simp
  also have "\<dots> \<le> (length samples + 98) div 100" by (cases "length samples") simp_all
  finally show "length [x \<leftarrow> samples. x > p99 samples] \<le> (length samples + 98) div 100" .
qed

subsection \<open>The gauges of one interval\<close>

text \<open>The durations of the statements that end in a sequence of events.\<close>

fun durations :: "(nat \<Rightarrow> rat option) \<Rightarrow> metrics_event list \<Rightarrow> rat list" where
  "durations started [] = []"
| "durations started (QueryStarted context now # evs) = durations (started(context \<mapsto> now)) evs"
| "durations started (QueryEnded context now # evs) =
     (case started context of None \<Rightarrow> [] | Some t \<Rightarrow> [(now - t) * 1000]) @ durations started evs"
| "durations started (_ # evs) = durations started evs"

definition is_collection :: "metrics_event \<Rightarrow> bool" where
  "is_collection ev \<longleftrightarrow> (\<exists>rd. ev = Collected rd)"

lemma metrics_steps:
  assumes "\<forall>ev \<in> set evs. \<not> is_collection ev"
  shows "qs_total_ms (mt_stats (foldl metrics_step s evs)) = qs_total_ms (mt_stats s) + sum_list (durations (mt_started s) evs)
    \<and> qs_count (mt_stats (foldl metrics_step s evs)) = qs_count (mt_stats s) + length (durations (mt_started s) evs)
    \<and> mt_last (foldl metrics_step s evs) = mt_last s"
  using assms
proof (induction evs arbitrary: s)
  case (Cons ev evs)
  then show ?case
    by (cases ev) (auto simp: is_collection_def metrics_step_def before_cursor_execute_def after_cursor_execute_def
        query_add_def split: option.split)
qed simp

subsection \<open>Properties\<close>

text \<open>What the middleware itself adds to a request whose application raised before it started a response.\<close>

definition last_resort :: "exn option \<Rightarrow> asgi_send list \<Rightarrow> pystr \<Rightarrow> asgi_send list" where
  "last_resort e seen inst =
     (if e = None \<or> e = Some CancelledError \<or> response_started seen then []
      else [ResponseStart 500 PROBLEM_JSON [], ResponseBody (Some (internal_error inst))])"

lemma last_status_answered: "last_status (seen @ [ResponseStart st media hs, ResponseBody body]) = st"
  by (simp add: last_status_def case_prod_unfold)

text \<open>
  C27. Every request that is not a health probe is counted exactly once, whatever the application
  does, on a server whose sends succeed. The data point has the status the client was sent last (500
  when it was sent none), with one exception: when the application raised after it had started a
  response, the count is 500 and nothing more is sent. When it raised before, the client is sent the
  generic 500 document and 500 is counted. A cancellation is passed on and counted like a return. The
  error counter has a point exactly when the counted status is at least 400, with the code of the
  problem response, and no exception other than a cancellation leaves the middleware.
\<close>

theorem every_request_is_counted_once:
  assumes "reliable_server V sent" and "measured sc"
    and "inner_run max_bytes app V sc w = (e, sc1, p, w1)" and "py_quote [47] (sc_path sc1) = Some inst"
  shows "\<exists>sc' w' obs seen. RequestMetricsMiddleware (BodyLimitMiddleware max_bytes app) V start stop sc w
         = ((if e = Some CancelledError then e else None, sc', w'), obs)
     \<and> sent w1 = sent w @ seen \<and> sent w' = sent w @ seen @ last_resort e seen inst
     \<and> (let status = (if e \<noteq> None \<and> e \<noteq> Some CancelledError \<and> response_started seen then 500
                       else last_status (seen @ last_resort e seen inst))
        in request_points obs = [(sc_method sc', route_label sc', status)]
           \<and> error_points obs = (if status \<ge> 400 then [(sc_method sc', route_label sc', code_label sc')] else []))"
proof -
  obtain status started where p: "p = (status, started)" by (cases p)
  from reliable_server.inner_run_noted [OF assms(1) assms(3) [unfolded p]] obtain seen where
    seen: "sent w1 = sent w @ seen" "status = last_status seen" "started = response_started seen" .
  consider "e = None" | "e = Some CancelledError" | x where "e = Some x" "is_exception x"
    by (cases e) (auto simp: is_exception_def)
  then show ?thesis
  proof cases
    case 1
    with reliable_server.request_returned [OF assms(1,2), of max_bytes app w sc1 p w1 start stop] assms(3) p seen
    show ?thesis by (simp add: last_resort_def)
  next
    case 2
    with reliable_server.request_cancelled [OF assms(1,2), of max_bytes app w sc1 p w1 start stop] assms(3) p seen
    show ?thesis by (simp add: last_resort_def)
  next
    case 3
    from reliable_server.request_raised [OF assms(1,2) assms(3) [unfolded p 3(1)] 3(2) assms(4), of start stop]
    obtain w' sc' where "RequestMetricsMiddleware (BodyLimitMiddleware max_bytes app) V start stop sc w
        = ((None, sc', w'), ExceptionLogged (sc_method sc1) # request_record start stop sc' 500)"
      "sent w' = sent w1
         @ (if started then [] else [ResponseStart 500 PROBLEM_JSON [], ResponseBody (Some (internal_error inst))])"
      by blast
    with 3 seen show ?thesis by (auto simp: last_resort_def last_status_answered is_exception_def)
  qed
qed

definition failing_app :: asgi where
  "failing_app = Receive (\<lambda>_. Fail (DatabaseError ''connection lost''))"

lemma failing_inner_run:
  "inner_run 16384 failing_app wire_server (http_scope (lit ''GET'') (lit ''/messages'')) sample_wire
     = (Some (DatabaseError ''connection lost''), http_scope (lit ''GET'') (lit ''/messages''), (500, False),
        sample_wire\<lparr>w_in := [Inr (HttpRequest (Some [4, 5]) False)]\<rparr>)"
  by (simp add: inner_run_def BodyLimitMiddleware_def run_limited_def declared_length_def http_scope_def
      py_defs failing_app_def sample_wire_def limited_receive_def watched_def wire_server_def Let_def)

lemma sample_request: "measured (http_scope (lit ''GET'') (lit ''/messages''))"
  by (simp add: measured_def http_scope_def EXCLUDED_PREFIX_def py_startswith_def lit_def)

lemma sample_request_path:
  "py_quote [47] (sc_path (http_scope (lit ''GET'') (lit ''/messages''))) = Some (lit ''/messages'')"
  by (simp add: http_scope_def py_quote_def lit_def utf8_char_def quote_byte_def always_safe_def)

theorem every_request_is_counted_once_witness:
  "\<exists>sc' w' obs. RequestMetricsMiddleware (BodyLimitMiddleware 16384 failing_app) wire_server 0 1
       (http_scope (lit ''GET'') (lit ''/messages'')) sample_wire = ((None, sc', w'), obs)
     \<and> w_out w' = [ResponseStart 500 PROBLEM_JSON [], ResponseBody (Some (internal_error (lit ''/messages'')))]
     \<and> request_points obs = [(sc_method sc', route_label sc', 500)]
     \<and> error_points obs = [(sc_method sc', route_label sc', code_label sc')]"
  using every_request_is_counted_once [OF wire.reliable_server_axioms sample_request failing_inner_run
      sample_request_path, where start = 0 and stop = 1]
  by (auto simp: sample_wire_def last_resort_def response_started_def last_status_def)

text \<open>
  No exception of the application reaches the client: it is logged, and when no response had
  been started the client gets a 500 problem document that depends on the path only, not on the
  exception; after a response has been started nothing more is sent.
\<close>

theorem unhandled_exception_is_answered:
  assumes "reliable_server V sent" and "measured sc"
    and "inner_run max_bytes app V sc w = (Some x, sc1, p, w1)" and "x \<noteq> CancelledError"
    and "py_quote [47] (sc_path sc1) = Some inst"
  shows "\<exists>sc' w' obs seen. RequestMetricsMiddleware (BodyLimitMiddleware max_bytes app) V start stop sc w
         = ((None, sc', w'), ExceptionLogged (sc_method sc1) # obs)
     \<and> sent w1 = sent w @ seen
     \<and> sent w' = sent w @ seen
         @ (if response_started seen then []
            else [ResponseStart 500 PROBLEM_JSON [], ResponseBody (Some (internal_error inst))])"
proof -
  obtain status started where p: "p = (status, started)" by (cases p)
  from reliable_server.inner_run_noted [OF assms(1) assms(3) [unfolded p]] obtain seen where
    seen: "sent w1 = sent w @ seen" "started = response_started seen" by blast
  have x: "is_exception x" using assms(4) by (simp add: is_exception_def)
  from reliable_server.request_raised [OF assms(1,2) assms(3) [unfolded p] x assms(5), of start stop] seen
  show ?thesis by fastforce
qed

theorem unhandled_exception_is_answered_witness:
  "\<exists>sc' w' obs. RequestMetricsMiddleware (BodyLimitMiddleware 16384 failing_app) wire_server 0 1
       (http_scope (lit ''GET'') (lit ''/messages'')) sample_wire = ((None, sc', w'), ExceptionLogged (lit ''GET'') # obs)
     \<and> w_out w' = [ResponseStart 500 PROBLEM_JSON [], ResponseBody (Some (internal_error (lit ''/messages'')))]"
proof -
  have n: "DatabaseError ''connection lost'' \<noteq> CancelledError" by simp
  from unhandled_exception_is_answered [OF wire.reliable_server_axioms sample_request failing_inner_run n sample_request_path,
      where start = 0 and stop = 1]
  show ?thesis by (auto simp: sample_wire_def http_scope_def response_started_def)
qed

text \<open>
  The lag gauge reports a percentile of the recent past: it is one of the last 3000 sleeps, at
  most one in a hundred of them (rounded up) was longer, and it is never negative.
\<close>

theorem lag_p99_of_recent_samples:
  assumes "sleeps \<noteq> []"
  shows "\<exists>recent. recent = drop (length sleeps - MAX_SAMPLES) (map lag_ms sleeps)
     \<and> length recent = min (length sleeps) 3000 \<and> p99 (lag_run sleeps) \<in> set recent
     \<and> length [x \<leftarrow> recent. x > p99 (lag_run sleeps)] \<le> (length recent + 98) div 100
     \<and> length [x \<leftarrow> recent. x < p99 (lag_run sleeps)] \<le> 99 * (length recent - 1) div 100
     \<and> p99 (lag_run sleeps) \<ge> 0"
proof -
  let ?r = "drop (length sleeps - MAX_SAMPLES) (map lag_ms sleeps)"
  have l: "length ?r = min (length sleeps) 3000" by (simp add: MAX_SAMPLES_def)
  with assms have "0 < length ?r" by simp
  then have "?r \<noteq> []" by (rule length_greater_0_conv [THEN iffD1])
  note counts = p99_counts [OF this]
  have "x \<in> set ?r \<Longrightarrow> x \<ge> 0" for x by (auto simp: lag_ms_def dest!: in_set_dropD)
  with l counts show ?thesis by (auto simp: lag_run_recent)
qed

theorem lag_p99_of_recent_samples_witness:
  "p99 (lag_run [(0, 3 / 100), (3 / 100, 8 / 100)]) \<in> {10, 30}"
  using lag_p99_of_recent_samples [of "[(0, 3 / 100), (3 / 100, 8 / 100)]"]
  by (simp add: MAX_SAMPLES_def lag_ms_def INTERVAL_def)

text \<open>
  A collection describes the interval since the one before it: the query gauge is the mean of
  the durations of the statements that ended in between (0 when there was none), each of them in one
  interval only, and the CPU gauge is the CPU time used in it divided by its length.
\<close>

theorem collection_describes_its_interval:
  assumes "\<forall>ev \<in> set evs. \<not> is_collection ev"
    and "s' = foldl metrics_step (metrics_step s (Collected rd')) evs"
  shows "(let ds = durations (mt_started s) evs; gauges = map_of (fst (collect rd s'))
     in gauges ''db_client_queries_duration_avg_ms''
          = Some (if ds = [] then 0 else sum_list ds / of_nat (length ds))
      \<and> gauges ''python_process_cpu_usage_ratio''
          = Some (if rd_wall rd > rd_wall rd' then (rd_cpu rd - rd_cpu rd') / (rd_wall rd - rd_wall rd') else 0))"
proof -
  let ?s = "metrics_step s (Collected rd')"
  have reset: "mt_started ?s = mt_started s" "qs_total_ms (mt_stats ?s) = 0" "qs_count (mt_stats ?s) = 0"
    "mt_last ?s = \<lparr>cl_cpu = rd_cpu rd', cl_wall = rd_wall rd'\<rparr>"
    by (simp_all add: metrics_step_def collect_def take_average_def cpu_ratio_def Let_def)
  from metrics_steps [OF assms(1), of ?s] reset show ?thesis
    by (simp add: assms(2) collect_def take_average_def cpu_ratio_def Let_def)
qed

definition first_readings :: readings where
  "first_readings = \<lparr>rd_rss = 1000, rd_cpu = 1, rd_wall = 10, rd_checkedin = 1, rd_checkedout = 0\<rparr>"

theorem collection_describes_its_interval_witness:
  "map_of (fst (collect (first_readings\<lparr>rd_cpu := 2, rd_wall := 20\<rparr>)
       (foldl metrics_step (metrics_step (metrics_init 0 0) (Collected first_readings))
         [QueryStarted 1 11, QueryStarted 2 12, QueryEnded 2 13, QueryEnded 1 14])))
     ''db_client_queries_duration_avg_ms'' = Some 2000"
  using collection_describes_its_interval [OF _ refl,
      where evs = "[QueryStarted 1 11, QueryStarted 2 12, QueryEnded 2 13, QueryEnded 1 14]" and s = "metrics_init 0 0"
        and rd' = first_readings and rd = "first_readings\<lparr>rd_cpu := 2, rd_wall := 20\<rparr>"]
  by (simp add: is_collection_def metrics_init_def Let_def)

end
