(* ===== verification/Stack.thy ===== *)
theory Stack
  imports ResponseTypes Telemetry
begin

section \<open>A request through the whole application\<close>

text \<open>
  The endpoint behind the middlewares, in the order \<open>create_app\<close> installs them: the metrics
  outside, the body limit inside. The endpoint is what starlette makes of a route: it notes the route
  in the scope, runs the handler, lets the exception handlers answer what it raised, and sends the
  response. The lemmas join what the client is sent with what is counted.
\<close>

subsection \<open>The endpoint as an ASGI application\<close>

text \<open>
  The scope after the exception handlers: \<open>problem_response\<close> has noted the error code in it, also when
  it raised itself.
\<close>

definition handled_scope :: "scope \<Rightarrow> exn \<Rightarrow> scope" where
  "handled_scope sc e = (case handle_exception sc e of None \<Rightarrow> sc | Some (_, sc') \<Rightarrow> sc')"

definition serve_scope ::
  "api_env \<Rightarrow> 's engine \<Rightarrow> 'c cache_api \<Rightarrow> nat \<Rightarrow> scope \<Rightarrow> request \<Rightarrow> 's \<times> 'c \<Rightarrow> scope" where
  "serve_scope N E C i sc req w =
     (case route N req of
        Inl errors \<Rightarrow> handled_scope sc (RequestValidationError errors)
      | Inr p \<Rightarrow> (case with_session E C i p w of (Raised e, _) \<Rightarrow> handled_scope sc e | _ \<Rightarrow> sc))"

definition respond :: "exn + response \<Rightarrow> asgi" where
  "respond res =
     (case res of
        Inl e \<Rightarrow> Fail e
      | Inr r \<Rightarrow>
          Send (ResponseStart (rs_status r) (rs_media r) (rs_headers r))
            (\<lambda>e. case e of
                 Some x \<Rightarrow> Fail x
               | None \<Rightarrow> Send (ResponseBody (rs_body r)) (\<lambda>e. case e of Some x \<Rightarrow> Fail x | None \<Rightarrow> Done)))"

text \<open>
  \<open>template\<close> is the path of the route. A handler that has to wait for a lock has not answered yet; the
  lemmas are about requests that are answered.
\<close>

definition endpoint ::
  "api_env \<Rightarrow> 's engine \<Rightarrow> 'c cache_api \<Rightarrow> nat \<Rightarrow> pystr \<Rightarrow> request \<Rightarrow> 's \<times> 'c \<Rightarrow> asgi" where
  "endpoint N E C i template req w =
     Touch (\<lambda>sc. let sc1 = sc\<lparr>sc_route := Some template\<rparr> in
       (serve_scope N E C i sc1 req w,
        respond (case serve N E C i sc1 req w of (None, _) \<Rightarrow> Inl (OtherError ''waiting'') | (Some res, _) \<Rightarrow> res)))"

definition stack ::
  "int \<Rightarrow> asgi \<Rightarrow> 'w server \<Rightarrow> rat \<Rightarrow> rat \<Rightarrow> scope \<Rightarrow> 'w \<Rightarrow> (exn option \<times> scope \<times> 'w) \<times> observation list" where
  "stack max_bytes app V start stop sc w =
     RequestMetricsMiddleware (BodyLimitMiddleware max_bytes app) V start stop sc w"

subsection \<open>The code in the scope is the code in the body\<close>

definition coded :: "response \<Rightarrow> pystr option \<Rightarrow> bool" where
  "coded r code \<longleftrightarrow> (case code of None \<Rightarrow> False | Some c \<Rightarrow> body_member ''code'' r = Some (JStr c))"

lemma problem_response_coded:
  "problem_response sc status code detail ps slug = (Inr r, sc') \<Longrightarrow> coded r (sc_error_code sc')"
  by (elim problem_response_Inr) (simp add: coded_def body_member_problem)

lemma handled_coded:
  assumes "handled sc e = Inr r" and "honest req e \<or> (\<exists>es. e = RequestValidationError es)"
  shows "coded r (sc_error_code (handled_scope sc e))"
  using assms
  by (cases e)
    (auto simp: handled_def handled_scope_def handle_exception_def api_error_handler_def validation_error_handler_def
      split: prod.splits intro: problem_response_coded)

lemma handled_scope_frame [simp]:
  "sc_method (handled_scope sc e) = sc_method sc" "sc_path (handled_scope sc e) = sc_path sc"
  "sc_route (handled_scope sc e) = sc_route sc"
  by (cases e; simp add: handled_scope_def handle_exception_def api_error_handler_def validation_error_handler_def
      http_error_handler_def problem_response_def Let_def)+

lemma serve_scope_frame [simp]:
  "sc_method (serve_scope N E C i sc req w) = sc_method sc" "sc_path (serve_scope N E C i sc req w) = sc_path sc"
  "sc_route (serve_scope N E C i sc req w) = sc_route sc"
  by (simp_all add: serve_scope_def split: sum.split prod.split outcome.split)

lemma serve_raised:
  assumes "route N req = Inr p" and "with_session E C i p w = (Raised e, w')"
  shows "honest req e"
proof -
  obtain s c where "run E C i p w = (Raised e, s, c)"
    using assms(2) by (cases "run E C i p w") (auto simp: with_session_def)
  from leaves_run [OF route_success [OF assms(1)] this] show ?thesis by simp
qed

lemma serve_returned:
  assumes "route N req = Inr p" and "with_session E C i p w = (Returned r, w')"
  shows "success req r"
proof -
  obtain s c where "run E C i p w = (Returned r, s, c)"
    using assms(2) by (cases "run E C i p w") (auto simp: with_session_def)
  from leaves_run [OF route_success [OF assms(1)] this] show ?thesis by simp
qed

lemma serve_answer:
  assumes "serve N E C i sc req w = (Some (Inr r), w')"
  shows "success req r
     \<or> problem_document r \<and> rs_status r \<in> declared_errors req \<and> coded r (sc_error_code (serve_scope N E C i sc req w))"
proof (cases "route N req")
  case (Inl es)
  with assms have "handled sc (RequestValidationError es) = Inr r" by (simp add: serve_def)
  with Inl invalid_document [OF this, of req] handled_coded [OF this, of req] show ?thesis
    by (simp add: serve_scope_def)
next
  case (Inr p)
  obtain res v where v: "with_session E C i p w = (res, v)" by (cases "with_session E C i p w")
  show ?thesis
  proof (cases res)
    case (Returned x)
    with assms Inr v have "x = r" by (simp add: serve_def)
    with serve_returned [OF Inr v [unfolded Returned]] show ?thesis by simp
  next
    case (Raised e)
    with v have "honest req e" using serve_raised [OF Inr] by blast
    moreover have "handled sc e = Inr r" using assms Inr v Raised by (simp add: serve_def)
    ultimately show ?thesis
      using honest_document [of sc e r req] handled_coded [of sc e r req] Inr v Raised by (simp add: serve_scope_def)
  qed (use assms Inr v in \<open>simp add: serve_def\<close>)
qed

text \<open>What leaves the application is an Exception, so the metrics middleware answers it.\<close>

lemma problem_response_exception:
  "problem_response sc status code detail ps slug = (Inl e, sc') \<Longrightarrow> is_exception e"
  by (auto simp: problem_response_def problem_type_member_def is_exception_def split: option.splits sum.splits if_splits)

lemma handled_exception: "handled sc e = Inl x \<Longrightarrow> is_exception e \<Longrightarrow> is_exception x"
  by (cases e)
    (auto simp: handled_def handle_exception_def api_error_handler_def validation_error_handler_def
      http_error_handler_def split: prod.splits sum.splits intro: problem_response_exception)

lemma honest_exception: "honest req e \<Longrightarrow> is_exception e"
  by (cases e) (simp_all add: is_exception_def)

lemma serve_exception:
  assumes "serve N E C i sc req w = (Some (Inl e), w')"
  shows "is_exception e"
proof (cases "route N req")
  case (Inl es)
  with assms have "handled sc (RequestValidationError es) = Inl e" by (simp add: serve_def)
  then show ?thesis by (rule handled_exception) (simp add: is_exception_def)
next
  case (Inr p)
  obtain res v where v: "with_session E C i p w = (res, v)" by (cases "with_session E C i p w")
  with assms Inr obtain x where x: "res = Raised x" "handled sc x = Inl e" by (cases res) (auto simp: serve_def)
  from serve_raised [OF Inr v [unfolded x(1)]] show ?thesis
    by (intro handled_exception [OF x(2)] honest_exception)
qed

subsection \<open>The endpoint behind the middlewares\<close>

text \<open>A request whose declared length, if it is a number, is within the limit.\<close>

definition length_allowed :: "int \<Rightarrow> scope \<Rightarrow> bool" where
  "length_allowed max_bytes sc \<longleftrightarrow>
     (py_isdigit (declared_length sc) \<longrightarrow>
        (case py_int (declared_length sc) of None \<Rightarrow> False | Some n \<Rightarrow> int n \<le> max_bytes))"

lemma body_limit_passes:
  "sc_type sc = ''http'' \<Longrightarrow> length_allowed b sc \<Longrightarrow> BodyLimitMiddleware b app V sc w = run_limited b app V sc w"
  by (auto simp: BodyLimitMiddleware_def length_allowed_def Let_def split: option.splits)

context reliable_server
begin

lemma send_pair: "sv_send V m w = (None, snd (sv_send V m w))"
  using send_ok [of m w] by (simp add: prod_eq_iff)

lemma respond_run:
  "\<exists>x. run_limited b (respond (Inr r)) (watched V) sc ((500, False), w) = (None, sc, (rs_status r, True), x)
     \<and> sent x = sent w @ [ResponseStart (rs_status r) (rs_media r) (rs_headers r), ResponseBody (rs_body r)]"
proof -
  obtain x1 where 1: "sv_send V (ResponseStart (rs_status r) (rs_media r) (rs_headers r)) w = (None, x1)"
    using send_pair by blast
  obtain x2 where 2: "sv_send V (ResponseBody (rs_body r)) x1 = (None, x2)" using send_pair by blast
  from 1 2 send_done [OF 1] send_done [OF 2] show ?thesis
    by (simp add: respond_def run_limited_def limited_def watched_def Let_def)
qed

lemma endpoint_run:
  "run_limited b (endpoint N E C i template req w) U sc x
     = run_limited b (respond (case serve N E C i (sc\<lparr>sc_route := Some template\<rparr>) req w of
           (None, _) \<Rightarrow> Inl (OtherError ''waiting'') | (Some res, _) \<Rightarrow> res))
         U (serve_scope N E C i (sc\<lparr>sc_route := Some template\<rparr>) req w) x"
  by (simp add: endpoint_def run_limited_def Let_def)

lemma stack_answers:
  assumes "measured sc" and "length_allowed b sc"
    and "serve N E C i (sc\<lparr>sc_route := Some template\<rparr>) req w = (Some (Inr r), w')"
  obtains x where "stack b (endpoint N E C i template req w) V t0 t1 sc v
      = ((None, serve_scope N E C i (sc\<lparr>sc_route := Some template\<rparr>) req w, x),
         request_record t0 t1 (serve_scope N E C i (sc\<lparr>sc_route := Some template\<rparr>) req w) (rs_status r))"
    "sent x = sent v @ [ResponseStart (rs_status r) (rs_media r) (rs_headers r), ResponseBody (rs_body r)]"
proof -
  let ?sc = "serve_scope N E C i (sc\<lparr>sc_route := Some template\<rparr>) req w"
  from respond_run [of b r ?sc v] obtain x where
    x: "run_limited b (respond (Inr r)) (watched V) ?sc ((500, False), v) = (None, ?sc, (rs_status r, True), x)"
      "sent x = sent v @ [ResponseStart (rs_status r) (rs_media r) (rs_headers r), ResponseBody (rs_body r)]" by blast
  have "inner_run b (endpoint N E C i template req w) V sc v = (None, ?sc, (rs_status r, True), x)"
    using assms x(1) by (simp add: inner_run_def body_limit_passes endpoint_run measured_def)
  from request_returned [OF assms(1) this] x(2) that show ?thesis by (simp add: stack_def)
qed

lemma stack_fails:
  assumes "measured sc" and "length_allowed b sc" and "py_quote [47] (sc_path sc) = Some inst"
    and "serve N E C i (sc\<lparr>sc_route := Some template\<rparr>) req w = (Some (Inl e), w')"
  obtains x sc' where "stack b (endpoint N E C i template req w) V t0 t1 sc v
      = ((None, sc', x), ExceptionLogged (sc_method sc) # request_record t0 t1 sc' 500)"
    "sc' = (serve_scope N E C i (sc\<lparr>sc_route := Some template\<rparr>) req w)
       \<lparr>sc_error_code := Some (lit ''INTERNAL_SERVER_ERROR'')\<rparr>"
    "sent x = sent v @ [ResponseStart 500 PROBLEM_JSON [], ResponseBody (Some (internal_error inst))]"
proof -
  let ?sc = "serve_scope N E C i (sc\<lparr>sc_route := Some template\<rparr>) req w"
  have "inner_run b (endpoint N E C i template req w) V sc v = (Some e, ?sc, (500, False), v)"
    using assms(1,2,4)
    by (simp add: inner_run_def body_limit_passes endpoint_run measured_def) (simp add: respond_def run_limited_def)
  from request_raised [where start = t0 and stop = t1, OF assms(1) this serve_exception [OF assms(4)]] assms(3) that
  show ?thesis by (fastforce simp: stack_def)
qed

text \<open>A declared length that is over the limit, or that \<open>int\<close> does not convert: the endpoint is not called.\<close>

lemma stack_refuses:
  assumes "measured sc" and "\<not> length_allowed b sc" and "py_quote [47] (sc_path sc) = Some inst"
  obtains x sc' obs and r :: response where "stack b app V t0 t1 sc v = ((None, sc', x), obs)"
    "sent x = sent v @ [ResponseStart (rs_status r) (rs_media r) (rs_headers r), ResponseBody (rs_body r)]"
    "rs_status r = 413 \<or> rs_status r = 500"
proof -
  from assms(2) have d: "py_isdigit (declared_length sc)" by (simp add: length_allowed_def)
  show ?thesis
  proof (cases "py_int (declared_length sc)")
    case None
    let ?e = "ValueError (lit ''Exceeds the limit (4300 digits) for integer string conversion'')"
    have "inner_run b app V sc v = (Some ?e, sc, (500, False), v)" "is_exception ?e"
      using assms(1) d None by (simp_all add: inner_run_def BodyLimitMiddleware_def measured_def is_exception_def)
    from request_raised [where start = t0 and stop = t1, OF assms(1) this assms(3)]
      that [where r = "\<lparr>rs_status = 500, rs_media = PROBLEM_JSON, rs_headers = [], rs_body = Some (internal_error inst)\<rparr>"]
    show ?thesis by (fastforce simp: stack_def)
  next
    case (Some n)
    with assms(2) d have n: "int n > b" by (simp add: length_allowed_def)
    let ?e = "too_large b"
    have e: "ae_status ?e = 413" "ae_code ?e = lit ''BAD_USER_INPUT''" "ae_type_slug ?e = Some (lit ''payload-too-large'')"
      by (simp_all add: too_large_def service_error_defs)
    have "problem_type_member (problem_slug (ae_type_slug ?e) (ae_code ?e)) = Inr (lit ''/problems/payload-too-large'')"
      by (simp add: e problem_slug_def problem_type_member_def) (simp add: problem_type_uri_def PROBLEM_BASE_def lit_def)
    from problem_response_ok [OF this _ assms(3), of "ae_status ?e" "lit ''Content Too Large''" "ae_detail ?e" None]
    obtain r sc' where r: "problem_response sc (ae_status ?e) (ae_code ?e) (ae_detail ?e) None (ae_type_slug ?e) = (Inr r, sc')"
      "rs_status r = 413" by (simp add: e)
    obtain x where x: "send_response (watched V) r ((500, False), v) = (None, (rs_status r, True), x)"
      "sent x = sent v @ [ResponseStart (rs_status r) (rs_media r) (rs_headers r), ResponseBody (rs_body r)]"
      by (rule response_watched)
    have "inner_run b app V sc v = (None, sc', (rs_status r, True), x)"
      using assms(1) d Some n r(1) x(1) by (simp add: inner_run_def BodyLimitMiddleware_def measured_def Let_def)
    from request_returned [OF assms(1) this, of t0 t1] r(2) x(2) that [of sc' x _ r] show ?thesis by (simp add: stack_def)
  qed
qed

end

text \<open>The generic answer of the metrics middleware.\<close>

definition internal_error_answer :: "pystr \<Rightarrow> response" where
  "internal_error_answer inst =
     \<lparr>rs_status = 500, rs_media = PROBLEM_JSON, rs_headers = [], rs_body = Some (internal_error inst)\<rparr>"

lemma internal_error_answer_ok:
  "problem_document (internal_error_answer inst)"
  "body_member ''code'' (internal_error_answer inst) = Some (JStr (lit ''INTERNAL_SERVER_ERROR''))"
  by (simp_all add: internal_error_answer_def problem_document_def internal_error_def problem_body_type)
    (simp_all add: problem_body_def body_member_def)

text \<open>A success is no error, and a problem document is one.\<close>

lemma success_status: "success req r \<Longrightarrow> rs_status r < 400"
  by (cases req) (simp_all add: success_def)

text \<open>
  What the client was sent, the request counter and the error counter tell the same story: one
  response, counted once with its status, and an error point exactly for a problem document, with
  the code that is in its body.
\<close>

definition agreeing :: "request \<Rightarrow> pystr \<Rightarrow> pystr \<Rightarrow> response \<Rightarrow> observation list \<Rightarrow> bool" where
  "agreeing req verb template r obs \<longleftrightarrow>
     request_points obs = [(verb, template, rs_status r)]
     \<and> (if error_points obs = [] then success req r
        else problem_document r
          \<and> (\<exists>code. body_member ''code'' r = Some (JStr code) \<and> error_points obs = [(verb, template, code)]))"

lemma agreeing_success:
  "success req r \<Longrightarrow> sc_method sc = verb \<Longrightarrow> sc_route sc = Some template \<Longrightarrow>
     agreeing req verb template r (request_record t0 t1 sc (rs_status r))"
  using success_status [of req r] by (simp add: agreeing_def route_label_def)

lemma agreeing_problem:
  "problem_document r \<Longrightarrow> coded r (sc_error_code sc) \<Longrightarrow> sc_method sc = verb \<Longrightarrow> sc_route sc = Some template \<Longrightarrow>
     agreeing req verb template r (request_record t0 t1 sc (rs_status r))"
  by (auto simp: agreeing_def route_label_def code_label_def problem_document_def coded_def split: option.splits)

subsection \<open>Every answer is declared\<close>

lemma declared_not_500: "500 \<notin> set (declared_by_route req)"
  by (cases req) simp_all

lemma serve_declared:
  assumes "serve N E C i sc req w = (Some (Inr r), w')"
  shows "rs_status r \<in> set (declared_by_route req)"
proof -
  have "hd (declared_by_route req) \<in> set (declared_by_route req)" by (cases req) simp_all
  with serve_answer [OF assms] show ?thesis by (auto simp: success_def declared_errors_def)
qed

text \<open>
  C6. Every request of the two routers, its body read and parsed, that is answered, whatever the
  database and the cache did and whatever it contains, is answered with a status its route declares: the success, one of the errors
  its router gives to \<open>problem_responses\<close>, or the 500 \<open>create_app\<close> declares for all routes. The one
  exception is a request whose declared length is over the limit, which is answered 413 also by routes
  without a body. 500 is the answer exactly when an exception left the application, and never for a
  request that is alone on a working database, with the cache up and coherent and texts and a version
  the columns can hold.
\<close>

theorem every_answer_is_declared:
  assumes "reliable_server V sent" and "measured sc" and "utf8_encode (sc_path sc) = Some bs"
    and "serve N E C i (sc\<lparr>sc_route := Some template\<rparr>) req w = (Some res, w')"
  shows "\<exists>x sc' obs (r :: response). stack max_bytes (endpoint N E C i template req w) V start stop sc v = ((None, sc', x), obs)
    \<and> sent x = sent v @ [ResponseStart (rs_status r) (rs_media r) (rs_headers r), ResponseBody (rs_body r)]
    \<and> (rs_status r \<in> set (declared req) \<or> \<not> length_allowed max_bytes sc \<and> rs_status r = 413)
    \<and> (length_allowed max_bytes sc \<longrightarrow> (rs_status r = 500 \<longleftrightarrow> (\<exists>e. res = Inl e)))
    \<and> (length_allowed max_bytes sc \<and> service_setting E B C contents up \<and> w = (s, c) \<and> storable N req
         \<and> ready B contents up N i (sc\<lparr>sc_route := Some template\<rparr>) s c d \<longrightarrow> rs_status r \<in> set (declared_by_route req))"
proof -
  obtain inst where inst: "py_quote [47] (sc_path sc) = Some inst" using assms(3) by (auto simp: py_quote_def)
  show ?thesis
  proof (cases "length_allowed max_bytes sc")
    case False
    from reliable_server.stack_refuses [OF assms(1,2) False inst] obtain x sc' obs and r :: response where
      "stack max_bytes (endpoint N E C i template req w) V start stop sc v = ((None, sc', x), obs)"
      "sent x = sent v @ [ResponseStart (rs_status r) (rs_media r) (rs_headers r), ResponseBody (rs_body r)]"
      "rs_status r = 413 \<or> rs_status r = 500" .
    with False show ?thesis
      by (intro exI [of _ x] exI [of _ sc'] exI [of _ obs] exI [of _ r]) (auto simp: declared_def)
  next
    case True
    show ?thesis
    proof (cases res)
      case (Inr r)
      have "rs_status r \<in> set (declared_by_route req)" by (rule serve_declared [OF assms(4) [unfolded Inr]])
      moreover from this declared_not_500 have "rs_status r \<noteq> 500" by metis
      moreover obtain x where
        "stack max_bytes (endpoint N E C i template req w) V start stop sc v
          = ((None, serve_scope N E C i (sc\<lparr>sc_route := Some template\<rparr>) req w, x),
             request_record start stop (serve_scope N E C i (sc\<lparr>sc_route := Some template\<rparr>) req w) (rs_status r))"
        "sent x = sent v @ [ResponseStart (rs_status r) (rs_media r) (rs_headers r), ResponseBody (rs_body r)]"
        by (rule reliable_server.stack_answers [OF assms(1,2) True assms(4) [unfolded Inr]])
      ultimately show ?thesis using Inr True
        by (intro exI [of _ x] exI [of _ r] exI conjI) (simp_all add: declared_def)
    next
      case (Inl e)
      obtain x sc' where x: "stack max_bytes (endpoint N E C i template req w) V start stop sc v
          = ((None, sc', x), ExceptionLogged (sc_method sc) # request_record start stop sc' 500)"
        "sent x = sent v @ [ResponseStart 500 PROBLEM_JSON [], ResponseBody (Some (internal_error inst))]"
        by (rule reliable_server.stack_fails [OF assms(1,2) True inst assms(4) [unfolded Inl]])
      have "\<not> (service_setting E B C contents up \<and> w = (s, c) \<and> storable N req
          \<and> ready B contents up N i (sc\<lparr>sc_route := Some template\<rparr>) s c d)"
        using responses_are_declared [of E B C contents up N i "sc\<lparr>sc_route := Some template\<rparr>" s c d req] assms(4) Inl by auto
      with x Inl show ?thesis
        by (intro exI [of _ x] exI [of _ sc'] exI [of _ "internal_error_answer inst"] exI conjI)
          (auto simp: declared_def internal_error_answer_def)
    qed
  qed
qed

theorem every_answer_is_declared_witness:
  "\<exists>x sc' obs (r :: response). stack 1024 (endpoint sample_env ref_engine FakeCache 0 (lit ''/messages'') (PostMessage sample_post)
        (sample_state, empty_cache)) wire_server 0 1 (http_scope (lit ''POST'') (lit ''/messages'')) \<lparr>w_in = [], w_out = []\<rparr>
      = ((None, sc', x), obs)
    \<and> w_out x = [ResponseStart (rs_status r) (rs_media r) (rs_headers r), ResponseBody (rs_body r)]
    \<and> rs_status r \<in> {201, 400, 404, 413}"
proof -
  let ?sc = "http_scope (lit ''POST'') (lit ''/messages'')"
  have sc: "measured ?sc" "utf8_encode (sc_path ?sc) = Some (lit ''/messages'')" "length_allowed 1024 ?sc"
    by (simp_all add: measured_def http_scope_def EXCLUDED_PREFIX_def py_startswith_def length_allowed_def
        declared_length_def py_isdigit_def lit_def utf8_char_def)
  obtain r s1 c1 where r: "serve sample_env ref_engine FakeCache 0 (?sc\<lparr>sc_route := Some (lit ''/messages'')\<rparr>)
      (PostMessage sample_post) (sample_state, empty_cache) = (Some (Inr r), s1, c1)"
    using serve_sample_post by blast
  have "storable sample_env (PostMessage sample_post)"
    using sample_payloads_ok(2) by (simp add: validate_sample_post)
  moreover have "ready ref_obs fake_contents (\<lambda>_. True) sample_env 0 (?sc\<lparr>sc_route := Some (lit ''/messages'')\<rparr>)
      sample_state empty_cache sample_db"
    using sample_ready [of 0] sc(2) by (simp add: ready_def)
  moreover note every_answer_is_declared [OF wire.reliable_server_axioms sc(1,2) r, where v = "\<lparr>w_in = [], w_out = []\<rparr>"
      and start = 0 and stop = 1 and max_bytes = 1024 and B = ref_obs and contents = fake_contents and up = "\<lambda>_. True"
      and s = sample_state and c = empty_cache and d = sample_db]
  ultimately show ?thesis using sc(3) ref_service.service_setting_axioms by fastforce
qed

end
