(* ===== verification/Streaming.thy ===== *)
theory Streaming
  imports Stack
begin

section \<open>A body that arrives in pieces\<close>

text \<open>
  Before an endpoint with a body runs, FastAPI reads the body from \<open>receive\<close>, which behind the limit is
  \<open>limited_receive\<close>. The reading is FastAPI's and is an argument, with the laws of the locale
  \<open>body_reader\<close>: the messages are put together and parsed, and what \<open>receive\<close> raises is handed on as
  some exception, \<open>wrap\<close> of it. The lemmas join the reading with the limit and the endpoint: how the body
  is cut into messages does not matter, and what a body over the limit is answered with depends on
  \<open>wrap\<close> alone.
\<close>

subsection \<open>Messages that arrive\<close>

text \<open>An application that awaits one message after the other.\<close>

fun feed :: "asgi \<Rightarrow> (exn + asgi_event) list \<Rightarrow> asgi option" where
  "feed t [] = Some t"
| "feed (Receive k) (m # ms) = feed (k m) ms"
| "feed _ (m # ms) = None"

fun arrives :: "'w server \<Rightarrow> 'w \<Rightarrow> (exn + asgi_event) list \<Rightarrow> 'w \<Rightarrow> bool" where
  "arrives V w [] w' \<longleftrightarrow> w' = w"
| "arrives V w (m # ms) w' \<longleftrightarrow> fst (sv_receive V w) = m \<and> arrives V (snd (sv_receive V w)) ms w'"

lemma run_feed:
  "arrives V w ms w' \<Longrightarrow> feed t ms = Some t' \<Longrightarrow> run_app V t sc w = run_app V t' sc w'"
proof (induction ms arbitrary: t w)
  case (Cons m ms)
  then show ?case by (cases t) (auto simp: case_prod_unfold Let_def)
qed simp

lemma arrives_append: "arrives V w (ms @ ms') w' \<longleftrightarrow> (\<exists>w1. arrives V w ms w1 \<and> arrives V w1 ms' w')"
  by (induction ms arbitrary: w) auto

lemma arrives_snoc:
  "arrives V w ms w1 \<Longrightarrow> sv_receive V w1 = (m, w2) \<Longrightarrow> arrives V w (ms @ [m]) w2"
  by (auto simp: arrives_append)

text \<open>The pieces of a body, all but the last with \<open>more_body\<close>.\<close>

definition pieces :: "nat list list \<Rightarrow> (exn + asgi_event) list" where
  "pieces cs = map (\<lambda>c. Inr (HttpRequest (Some c) True)) cs"

lemma pieces_simps [simp]: "pieces [] = []" "pieces (c # cs) = Inr (HttpRequest (Some c) True) # pieces cs"
  by (simp_all add: pieces_def)

definition final_piece :: "nat list \<Rightarrow> exn + asgi_event" where
  "final_piece c = Inr (HttpRequest (Some c) False)"

subsection \<open>The reading of a body\<close>

text \<open>
  \<open>most\<close> bounds the number of messages: an application is a finite tree. The laws hold for every
  number, and a request has as many as it has.
\<close>

locale body_reader =
  fixes reader :: "(exn + json \<Rightarrow> asgi) \<Rightarrow> asgi" and parse :: "nat list \<Rightarrow> exn + json" and wrap :: "exn \<Rightarrow> exn"
    and most :: nat
  assumes reads_body: "length cs < most \<Longrightarrow> feed (reader k) (pieces cs @ [final_piece c]) = Some (k (parse (concat cs @ c)))"
    and read_fails: "length cs < most \<Longrightarrow> feed (reader k) (pieces cs @ [Inl e]) = Some (k (Inl (wrap e)))"

text \<open>A reader with these laws.\<close>

primrec read_body ::
  "nat \<Rightarrow> (nat list \<Rightarrow> exn + json) \<Rightarrow> (exn \<Rightarrow> exn) \<Rightarrow> nat list \<Rightarrow> (exn + json \<Rightarrow> asgi) \<Rightarrow> asgi" where
  "read_body 0 parse wrap bs k = k (Inl (wrap (OtherError ''too many messages'')))"
| "read_body (Suc n) parse wrap bs k =
     Receive (\<lambda>m. case m of
        Inl e \<Rightarrow> k (Inl (wrap e))
      | Inr HttpDisconnect \<Rightarrow> k (Inl (wrap (OtherError ''ClientDisconnect'')))
      | Inr (HttpRequest body rest) \<Rightarrow>
          (let bs' = bs @ (case body of None \<Rightarrow> [] | Some b \<Rightarrow> b)
           in if rest then read_body n parse wrap bs' k else k (parse bs')))"

lemma read_body_pieces:
  "length cs < n \<Longrightarrow> feed (read_body n parse wrap bs k) (pieces cs @ [final_piece c]) = Some (k (parse (bs @ concat cs @ c)))"
  "length cs < n \<Longrightarrow> feed (read_body n parse wrap bs k) (pieces cs @ [Inl e]) = Some (k (Inl (wrap e)))"
  by (induction n arbitrary: cs bs; case_tac cs; auto simp: final_piece_def)+

interpretation plain: body_reader "read_body n parse wrap []" parse wrap n
  by unfold_locales (simp_all add: read_body_pieces)

subsection \<open>The endpoint with its body\<close>

text \<open>What the reading raised is answered by the exception handlers; a parsed body makes the request.\<close>

definition body_endpoint ::
  "api_env \<Rightarrow> 's engine \<Rightarrow> 'c cache_api \<Rightarrow> nat \<Rightarrow> pystr \<Rightarrow> ((exn + json \<Rightarrow> asgi) \<Rightarrow> asgi) \<Rightarrow> (json \<Rightarrow> request)
     \<Rightarrow> 's \<times> 'c \<Rightarrow> asgi" where
  "body_endpoint N E C i template reader req w =
     Touch (\<lambda>sc. (sc\<lparr>sc_route := Some template\<rparr>,
       reader (\<lambda>body. case body of
           Inl e \<Rightarrow> Touch (\<lambda>sc. (handled_scope sc e, respond (handled sc e)))
         | Inr js \<Rightarrow> endpoint N E C i template (req js) w)))"

text \<open>The limit lets the pieces of a body within it through, and cuts the piece that crosses it.\<close>

lemma watched_receive [simp]: "sv_receive (watched V) (p, w) = (fst (sv_receive V w), p, snd (sv_receive V w))"
  by (simp add: watched_def case_prod_unfold Let_def)

lemma limited_piece:
  assumes "fst (sv_receive V w) = Inr (HttpRequest (Some c) rest)"
  shows "sv_receive (limited V b) (n, w) =
    (if int (n + length c) > b then Inl (ApiExn (too_large b)) else Inr (HttpRequest (Some c) rest),
     n + length c, snd (sv_receive V w))"
  using assms by (cases "sv_receive V w") (simp add: limited_receive_def Let_def)

lemma pieces_within:
  assumes "arrives V v (pieces cs) v'" and "int (n + length (concat cs)) \<le> b"
  shows "arrives (limited (watched V) b) (n, p, v) (pieces cs) (n + length (concat cs), p, v')"
  using assms
proof (induction cs arbitrary: n v)
  case (Cons c cs)
  have "sv_receive (limited (watched V) b) (n, p, v)
      = (Inr (HttpRequest (Some c) True), n + length c, p, snd (sv_receive V v))"
    using limited_piece [of "watched V" "(p, v)" c True b n] Cons.prems by simp
  with Cons.IH [of "snd (sv_receive V v)" "n + length c"] Cons.prems show ?case by (simp add: algebra_simps)
qed simp

lemma body_within:
  assumes "arrives V v (pieces cs @ [final_piece c]) v'" and "int (length (concat cs @ c)) \<le> b"
  shows "arrives (limited (watched V) b) (0, p, v) (pieces cs @ [final_piece c]) (length (concat cs @ c), p, v')"
proof -
  obtain v1 where v1: "arrives V v (pieces cs) v1" "fst (sv_receive V v1) = final_piece c" "snd (sv_receive V v1) = v'"
    using assms(1) by (auto simp: arrives_append)
  have "arrives (limited (watched V) b) (0, p, v) (pieces cs) (0 + length (concat cs), p, v1)"
    by (rule pieces_within [OF v1(1)]) (use assms(2) in simp)
  moreover have "sv_receive (limited (watched V) b) (length (concat cs), p, v1)
      = (final_piece c, length (concat cs @ c), p, v')"
    using limited_piece [of "watched V" "(p, v1)" c False b "length (concat cs)"] v1(2,3) assms(2)
    by (simp add: final_piece_def)
  ultimately show ?thesis using arrives_snoc by fastforce
qed

lemma body_over:
  assumes "arrives V v (pieces cs @ [Inr (HttpRequest (Some c) rest)]) v'"
    and "int (length (concat cs)) \<le> b" and "b < int (length (concat cs @ c))"
  shows "arrives (limited (watched V) b) (0, p, v) (pieces cs @ [Inl (ApiExn (too_large b))]) (length (concat cs @ c), p, v')"
proof -
  obtain v1 where v1: "arrives V v (pieces cs) v1" "fst (sv_receive V v1) = Inr (HttpRequest (Some c) rest)"
    "snd (sv_receive V v1) = v'"
    using assms(1) by (auto simp: arrives_append)
  have "arrives (limited (watched V) b) (0, p, v) (pieces cs) (0 + length (concat cs), p, v1)"
    by (rule pieces_within [OF v1(1)]) (use assms(2) in simp)
  moreover have "sv_receive (limited (watched V) b) (length (concat cs), p, v1)
      = (Inl (ApiExn (too_large b)), length (concat cs @ c), p, v')"
    using limited_piece [of "watched V" "(p, v1)" c rest b "length (concat cs)"] v1(2,3) assms(3) by simp
  ultimately show ?thesis using arrives_snoc by fastforce
qed

text \<open>Once the body is read, the counter does not matter any more: an endpoint receives nothing.\<close>

lemma limited_respond:
  "run_app (limited U b) (respond res) sc (n, w)
     = (let (e, sc', w') = run_app U (respond res) sc w in (e, sc', n, w'))"
  by (cases res) (auto simp: respond_def case_prod_unfold Let_def split: option.split)

lemma limited_endpoint:
  "run_app (limited U b) (endpoint N E C i template req w) sc (n, x)
     = (let (e, sc', x') = run_app U (endpoint N E C i template req w) sc x in (e, sc', n, x'))"
  by (simp add: endpoint_def Let_def limited_respond)

lemma endpoint_route:
  "run_app U (endpoint N E C i template req w) (sc\<lparr>sc_route := Some template\<rparr>) x
     = run_app U (endpoint N E C i template req w) sc x"
  by (simp add: endpoint_def Let_def)

context body_reader
begin

lemma read_within:
  assumes "arrives V v (pieces cs @ [final_piece c]) v'" and "int (length (concat cs @ c)) \<le> b"
    and "length cs < most" and "parse (concat cs @ c) = Inr js"
  shows "run_limited b (body_endpoint N E C i template reader req w) (watched V) sc (p, v)
     = run_limited b (endpoint N E C i template (req js) w) (watched V) sc (p, v')"
proof -
  let ?k = "\<lambda>body. case body of
      Inl e \<Rightarrow> Touch (\<lambda>sc. (handled_scope sc e, respond (handled sc e)))
    | Inr js \<Rightarrow> endpoint N E C i template (req js) w"
  have "run_app (limited (watched V) b) (reader ?k) (sc\<lparr>sc_route := Some template\<rparr>) (0, p, v)
      = run_app (limited (watched V) b) (endpoint N E C i template (req js) w) (sc\<lparr>sc_route := Some template\<rparr>)
          (length (concat cs @ c), p, v')"
    using run_feed [OF body_within [OF assms(1,2)] reads_body [OF assms(3), of ?k c]] by (simp add: assms(4))
  then show ?thesis
    by (simp add: run_limited_def body_endpoint_def limited_endpoint endpoint_route case_prod_unfold Let_def)
qed

lemma read_over:
  assumes "arrives V v (pieces cs @ [Inr (HttpRequest (Some c) rest)]) v'"
    and "int (length (concat cs)) \<le> b" and "b < int (length (concat cs @ c))" and "length cs < most"
  shows "run_limited b (body_endpoint N E C i template reader req w) (watched V) sc (p, v)
     = (let sc1 = sc\<lparr>sc_route := Some template\<rparr>; e = wrap (ApiExn (too_large b))
        in run_limited b (respond (handled sc1 e)) (watched V) (handled_scope sc1 e) (p, v'))"
proof -
  let ?k = "\<lambda>body. case body of
      Inl e \<Rightarrow> Touch (\<lambda>sc. (handled_scope sc e, respond (handled sc e)))
    | Inr js \<Rightarrow> endpoint N E C i template (req js) w"
  have "run_app (limited (watched V) b) (reader ?k) (sc\<lparr>sc_route := Some template\<rparr>) (0, p, v)
      = run_app (limited (watched V) b) (?k (Inl (wrap (ApiExn (too_large b))))) (sc\<lparr>sc_route := Some template\<rparr>)
          (length (concat cs @ c), p, v')"
    by (rule run_feed [OF body_over [OF assms(1-3)] read_fails [OF assms(4)]])
  then show ?thesis
    by (simp add: run_limited_def body_endpoint_def limited_respond case_prod_unfold Let_def)
qed

end

lemma arrives_sends_nothing:
  assumes "asgi_server V sent" and "arrives V v ms v'"
  shows "sent v' = sent v"
  using assms(2)
proof (induction ms arbitrary: v)
  case (Cons m ms)
  have "sent (snd (sv_receive V v)) = sent v"
    using asgi_server.receive_sends_nothing [OF assms(1), of v "fst (sv_receive V v)" "snd (sv_receive V v)"] by simp
  moreover have "sent v' = sent (snd (sv_receive V v))" using Cons by simp
  ultimately show ?case by simp
qed simp

subsection \<open>Two readings of the same error\<close>

text \<open>
  The reader that hands PayloadTooLargeError on as it is, and FastAPI's, for which every exception but
  an HTTPException becomes an HTTPException with status 400.
\<close>

definition as_http_400 :: "exn \<Rightarrow> exn" where
  "as_http_400 e =
     (case e of
        StarletteHTTPException status detail headers \<Rightarrow> e
      | _ \<Rightarrow> StarletteHTTPException 400 (lit ''There was an error parsing the body'') [])"

lemma too_large_passed_on:
  assumes "py_quote [47] (sc_path sc) = Some inst"
  obtains r where "handled sc (ApiExn (too_large b)) = Inr r" "rs_status r = 413"
proof -
  let ?e = "too_large b"
  have e: "ae_status ?e = 413" "ae_code ?e = lit ''BAD_USER_INPUT''" "ae_type_slug ?e = Some (lit ''payload-too-large'')"
    by (simp_all add: too_large_def service_error_defs)
  have "problem_type_member (problem_slug (ae_type_slug ?e) (ae_code ?e)) = Inr (lit ''/problems/payload-too-large'')"
    by (simp add: e problem_slug_def problem_type_member_def) (simp add: problem_type_uri_def PROBLEM_BASE_def lit_def)
  from problem_response_ok [OF this http_phrase_simps(5) assms, of "ae_detail ?e" "ae_invalid_params ?e"] that show ?thesis
    by (simp add: handled_def handle_exception_def api_error_handler_def e)
qed

lemma too_large_wrapped:
  assumes "py_quote [47] (sc_path sc) = Some inst"
  obtains r where "handled sc (as_http_400 (ApiExn (too_large b))) = Inr r" "rs_status r = 400"
    "body_member ''code'' r = Some (JStr (lit ''HTTP_400''))"
proof -
  have code: "http_error_code 400 = lit ''HTTP_400''" by (simp add: http_error_code_def lit_def nat_str.simps)
  have "problem_type_member (problem_slug None (lit ''HTTP_400'')) = Inr (lit ''about:blank'')"
    by (simp add: problem_slug_def problem_type_member_def DEFAULT_TYPE_BY_CODE_def lit_def)
  from problem_response_ok [OF this http_phrase_simps(1) assms, of "lit ''There was an error parsing the body''" None]
  have "\<exists>r. handled sc (as_http_400 (ApiExn (too_large b))) = Inr r \<and> rs_status r = 400
      \<and> body_member ''code'' r = Some (JStr (lit ''HTTP_400''))"
    by (simp add: handled_def handle_exception_def as_http_400_def http_error_handler_def code body_member_problem)
  with that show ?thesis by blast
qed

definition sample_parse :: "nat list \<Rightarrow> exn + json" where
  "sample_parse bs = (if bs = [1, 2, 3, 4, 5] then Inr sample_post else Inl (RequestValidationError []))"

lemma sample_pieces:
  "arrives wire_server sample_wire (pieces [[1, 2, 3]] @ [Inr (HttpRequest (Some [4, 5]) False)])
     \<lparr>w_in = [], w_out = []\<rparr>"
  by (simp add: sample_wire_def wire_server_def)

lemma sample_post_scope:
  "measured (http_scope (lit ''POST'') (lit ''/messages''))" "length_allowed b (http_scope (lit ''POST'') (lit ''/messages''))"
  "py_quote [47] (sc_path (http_scope (lit ''POST'') (lit ''/messages''))) = Some (lit ''/messages'')"
proof -
  show "measured (http_scope (lit ''POST'') (lit ''/messages''))" "length_allowed b (http_scope (lit ''POST'') (lit ''/messages''))"
    by (simp_all add: measured_def http_scope_def EXCLUDED_PREFIX_def py_startswith_def length_allowed_def
        declared_length_def py_isdigit_def lit_def)
  show "py_quote [47] (sc_path (http_scope (lit ''POST'') (lit ''/messages''))) = Some (lit ''/messages'')"
    by (simp add: http_scope_def, rule py_quote_plain) (simp add: lit_def always_safe_def)
qed

subsection \<open>Properties\<close>

text \<open>
  C26. How a body is cut into messages does not matter: a request whose body arrives in any number of
  pieces that together stay within the limit is served by the whole application exactly as the
  endpoint serves the parsed body, with the same messages sent and the same metrics.
\<close>

theorem chunking_is_invisible:
  assumes "body_reader reader parse wrap most" and "measured sc" and "length_allowed max_bytes sc"
    and "arrives V v (pieces cs @ [final_piece c]) v'" and "length cs < most"
    and "int (length (concat cs @ c)) \<le> max_bytes" and "parse (concat cs @ c) = Inr js"
  shows "stack max_bytes (body_endpoint N E C i template reader req w) V start stop sc v
     = stack max_bytes (endpoint N E C i template (req js) w) V start stop sc v'"
  using assms(2) body_reader.read_within [OF assms(1,4,6,5,7), of N E C i template req w sc "(500, False)"]
  by (simp add: stack_def RequestMetricsMiddleware_def measured_def body_limit_passes [OF _ assms(3)])

theorem chunking_is_invisible_witness:
  "stack 16384 (body_endpoint sample_env ref_engine FakeCache 0 (lit ''/messages'') (read_body 2 sample_parse as_http_400 [])
       PostMessage (sample_state, empty_cache)) wire_server 0 1 (http_scope (lit ''POST'') (lit ''/messages'')) sample_wire
   = stack 16384 (endpoint sample_env ref_engine FakeCache 0 (lit ''/messages'') (PostMessage sample_post)
       (sample_state, empty_cache)) wire_server 0 1 (http_scope (lit ''POST'') (lit ''/messages'')) \<lparr>w_in = [], w_out = []\<rparr>"
  by (rule chunking_is_invisible [OF plain.body_reader_axioms sample_post_scope(1,2)
      sample_pieces [folded final_piece_def]]) (simp_all add: sample_parse_def)

text \<open>
  C25. A streamed body over the limit, whose length was not declared: the request is answered by the
  exception handlers with what the reading makes of PayloadTooLargeError, one response that is counted
  with its status; the endpoint does not run, and its database and cache are not touched.
\<close>

theorem streamed_body_over_limit_is_answered:
  assumes "body_reader reader parse wrap most" and "reliable_server V sent" and "measured sc"
    and "length_allowed max_bytes sc"
    and "arrives V v (pieces cs @ [Inr (HttpRequest (Some c) rest)]) v'" and "length cs < most"
    and "int (length (concat cs)) \<le> max_bytes" and "max_bytes < int (length (concat cs @ c))"
    and "handled (sc\<lparr>sc_route := Some template\<rparr>) (wrap (ApiExn (too_large max_bytes))) = Inr r"
  shows "\<exists>x obs sc'. (\<forall>w. stack max_bytes (body_endpoint N E C i template reader req w) V start stop sc v = ((None, sc', x), obs))
     \<and> sent x = sent v @ [ResponseStart (rs_status r) (rs_media r) (rs_headers r), ResponseBody (rs_body r)]
     \<and> request_points obs = [(sc_method sc, template, rs_status r)]"
proof -
  let ?sc1 = "sc\<lparr>sc_route := Some template\<rparr>" and ?e = "wrap (ApiExn (too_large max_bytes))"
  let ?sc' = "handled_scope ?sc1 ?e"
  from reliable_server.respond_run [OF assms(2), of max_bytes r ?sc' v'] obtain x where
    x: "run_limited max_bytes (respond (Inr r)) (watched V) ?sc' ((500, False), v') = (None, ?sc', (rs_status r, True), x)"
      "sent x = sent v' @ [ResponseStart (rs_status r) (rs_media r) (rs_headers r), ResponseBody (rs_body r)]" by blast
  have "inner_run max_bytes (body_endpoint N E C i template reader req w) V sc v
      = (None, ?sc', (rs_status r, True), x)" for w
    using assms(3) body_reader.read_over [OF assms(1,5,7,8,6), of N E C i template req w sc "(500, False)"] x(1)
    by (simp add: inner_run_def measured_def body_limit_passes [OF _ assms(4)] assms(9) Let_def)
  from reliable_server.request_returned [OF assms(2,3) this]
  have "stack max_bytes (body_endpoint N E C i template reader req w) V start stop sc v
      = ((None, ?sc', x), request_record start stop ?sc' (rs_status r))" for w
    by (simp add: stack_def)
  moreover have "sent v' = sent v"
    using arrives_sends_nothing [OF _ assms(5)] assms(2) by (simp add: reliable_server_def)
  moreover have "request_points (request_record start stop ?sc' (rs_status r)) = [(sc_method sc, template, rs_status r)]"
    by (simp add: route_label_def)
  ultimately show ?thesis using x(2) by metis
qed

theorem streamed_body_over_limit_is_answered_witness:
  "\<exists>x y obs obs' sc' sc'' (r :: response) (r' :: response).
     stack 4 (body_endpoint sample_env ref_engine FakeCache 0 (lit ''/messages'') (read_body 2 sample_parse as_http_400 [])
       PostMessage (sample_state, empty_cache)) wire_server 0 1 (http_scope (lit ''POST'') (lit ''/messages'')) sample_wire = ((None, sc', x), obs)
   \<and> w_out x = [ResponseStart 400 (rs_media r) (rs_headers r), ResponseBody (rs_body r)]
   \<and> body_member ''code'' r = Some (JStr (lit ''HTTP_400''))
   \<and> stack 4 (body_endpoint sample_env ref_engine FakeCache 0 (lit ''/messages'') (read_body 2 sample_parse (\<lambda>e. e) [])
       PostMessage (sample_state, empty_cache)) wire_server 0 1 (http_scope (lit ''POST'') (lit ''/messages'')) sample_wire = ((None, sc'', y), obs')
   \<and> w_out y = [ResponseStart 413 (rs_media r') (rs_headers r'), ResponseBody (rs_body r')]"
proof -
  let ?sc = "http_scope (lit ''POST'') (lit ''/messages'')"
  let ?stack = "\<lambda>wrap. stack 4 (body_endpoint sample_env ref_engine FakeCache 0 (lit ''/messages'')
      (read_body 2 sample_parse wrap []) PostMessage (sample_state, empty_cache)) wire_server 0 1 ?sc sample_wire"
  have q: "py_quote [47] (sc_path (?sc\<lparr>sc_route := Some (lit ''/messages'')\<rparr>)) = Some (lit ''/messages'')"
    using sample_post_scope(3) by simp
  have empty: "w_out sample_wire = []" by (simp add: sample_wire_def)
  have answered: "\<exists>x obs sc'. ?stack wrap = ((None, sc', x), obs)
      \<and> w_out x = [ResponseStart (rs_status r) (rs_media r) (rs_headers r), ResponseBody (rs_body r)]"
    if "handled (?sc\<lparr>sc_route := Some (lit ''/messages'')\<rparr>) (wrap (ApiExn (too_large 4))) = Inr r" for wrap r
    using streamed_body_over_limit_is_answered [OF plain.body_reader_axioms wire.reliable_server_axioms
        sample_post_scope(1,2) sample_pieces, where max_bytes = 4 and most = 2 and parse = sample_parse and wrap = wrap
        and template = "lit ''/messages''" and r = r and N = sample_env and E = ref_engine and C = FakeCache and i = 0
        and req = PostMessage and start = 0 and stop = 1] that empty
    by simp blast
  obtain r where r: "handled (?sc\<lparr>sc_route := Some (lit ''/messages'')\<rparr>) (as_http_400 (ApiExn (too_large 4))) = Inr r"
    "rs_status r = 400" "body_member ''code'' r = Some (JStr (lit ''HTTP_400''))" using too_large_wrapped [OF q] by blast
  obtain r' where r': "handled (?sc\<lparr>sc_route := Some (lit ''/messages'')\<rparr>) (ApiExn (too_large 4)) = Inr r'"
    "rs_status r' = 413" using too_large_passed_on [OF q] by blast
  obtain x obs sc' where 1: "?stack as_http_400 = ((None, sc', x), obs)"
    "w_out x = [ResponseStart 400 (rs_media r) (rs_headers r), ResponseBody (rs_body r)]"
    using answered [of as_http_400, OF r(1)] unfolding r(2) by blast
  obtain y obs' sc'' where 2: "?stack (\<lambda>e. e) = ((None, sc'', y), obs')"
    "w_out y = [ResponseStart 413 (rs_media r') (rs_headers r'), ResponseBody (rs_body r')]"
    using answered [of "\<lambda>e. e", OF r'(1)] unfolding r'(2) by blast
  show ?thesis
    by (rule exI [of _ x], rule exI [of _ y], rule exI [of _ obs], rule exI [of _ obs'], rule exI [of _ sc'],
        rule exI [of _ sc''], rule exI [of _ r], rule exI [of _ r']) (intro conjI 1 2 r(3))
qed

end
