(* ===== verification/Settings.thy ===== *)
theory Settings
  imports Problems Complex_Main
begin

section \<open>Configuration: \<open>app/settings.py\<close>\<close>

text \<open>
  The settings are read from the environment, one variable per field. pydantic's parsers of
  integers and floats are arguments; the flag that opens the API docs and the list of CORS origins
  are parsed by the code.
\<close>

subsection \<open>Parsing a flag\<close>

datatype setting_value = VBool bool | VStr pystr | VOther pystr

text \<open>
  \<open>_strict_bool\<close>; \<open>repr\<close> is the text \<open>!r\<close> gives, which only the message holds.
\<close>

definition strict_bool :: "(setting_value \<Rightarrow> pystr) \<Rightarrow> setting_value \<Rightarrow> exn + bool" where
  "strict_bool repr value =
     (case value of
        VBool b \<Rightarrow> Inr b
      | _ \<Rightarrow>
          if value = VStr (lit ''true'') then Inr True
          else if value = VStr (lit ''false'') then Inr False
          else Inl (ValueError (lit ''must be exactly \"true\" or \"false\", got '' @ repr value)))"

subsection \<open>The settings\<close>

record Settings =
  port :: int
  db_host :: pystr
  db_port :: int
  db_name :: pystr
  db_user :: pystr
  db_password :: pystr
  db_pool_size :: int
  db_max_overflow :: int
  hazelcast_host :: pystr
  hazelcast_port :: int
  otel_metrics_url :: pystr
  otel_traces_url :: pystr
  pod_name :: pystr
  api_docs_enabled :: bool
  cors_allowed_origins :: pystr
  shutdown_drain_seconds :: rat
  max_body_bytes :: int

definition default_settings :: Settings where
  "default_settings =
     \<lparr>port = 8080, db_host = lit ''localhost'', db_port = 5432, db_name = lit ''messagedb'',
      db_user = lit ''message_app'', db_password = lit ''message_app'', db_pool_size = 5, db_max_overflow = 5,
      hazelcast_host = lit ''localhost'', hazelcast_port = 5701,
      otel_metrics_url = lit ''http://localhost:4318/v1/metrics'',
      otel_traces_url = lit ''http://localhost:4318/v1/traces'', pod_name = lit ''local'',
      api_docs_enabled = False, cors_allowed_origins = [], shutdown_drain_seconds = 3,
      max_body_bytes = 16 * 1024\<rparr>"

record settings_parsers =
  sp_int :: "pystr \<Rightarrow> int option"
  sp_float :: "pystr \<Rightarrow> rat option"
  sp_repr :: "setting_value \<Rightarrow> pystr"

text \<open>
  One field: unset it keeps its default, set it is parsed and stored; a field that does not parse
  adds its name to the errors.
\<close>

definition read_field ::
  "(string \<Rightarrow> pystr option) \<Rightarrow> string \<Rightarrow> (pystr \<Rightarrow> 'a option) \<Rightarrow> ('a \<Rightarrow> Settings \<Rightarrow> Settings)
     \<Rightarrow> string list \<times> Settings \<Rightarrow> string list \<times> Settings" where
  "read_field environ name parse store = (\<lambda>(errors, s).
     case environ name of
       None \<Rightarrow> (errors, s)
     | Some v \<Rightarrow> (case parse v of None \<Rightarrow> (errors @ [name], s) | Some x \<Rightarrow> (errors, store x s)))"

definition parse_flag :: "settings_parsers \<Rightarrow> pystr \<Rightarrow> bool option" where
  "parse_flag P v = (case strict_bool (sp_repr P) (VStr v) of Inl _ \<Rightarrow> None | Inr b \<Rightarrow> Some b)"

definition read_settings :: "settings_parsers \<Rightarrow> (string \<Rightarrow> pystr option) \<Rightarrow> string list \<times> Settings" where
  "read_settings P environ =
     fold (\<lambda>f. f)
       [read_field environ ''port'' (sp_int P) (\<lambda>x s. s\<lparr>port := x\<rparr>),
        read_field environ ''db_host'' Some (\<lambda>x s. s\<lparr>db_host := x\<rparr>),
        read_field environ ''db_port'' (sp_int P) (\<lambda>x s. s\<lparr>db_port := x\<rparr>),
        read_field environ ''db_name'' Some (\<lambda>x s. s\<lparr>db_name := x\<rparr>),
        read_field environ ''db_user'' Some (\<lambda>x s. s\<lparr>db_user := x\<rparr>),
        read_field environ ''db_password'' Some (\<lambda>x s. s\<lparr>db_password := x\<rparr>),
        read_field environ ''db_pool_size'' (sp_int P) (\<lambda>x s. s\<lparr>db_pool_size := x\<rparr>),
        read_field environ ''db_max_overflow'' (sp_int P) (\<lambda>x s. s\<lparr>db_max_overflow := x\<rparr>),
        read_field environ ''hazelcast_host'' Some (\<lambda>x s. s\<lparr>hazelcast_host := x\<rparr>),
        read_field environ ''hazelcast_port'' (sp_int P) (\<lambda>x s. s\<lparr>hazelcast_port := x\<rparr>),
        read_field environ ''otel_metrics_url'' Some (\<lambda>x s. s\<lparr>otel_metrics_url := x\<rparr>),
        read_field environ ''otel_traces_url'' Some (\<lambda>x s. s\<lparr>otel_traces_url := x\<rparr>),
        read_field environ ''pod_name'' Some (\<lambda>x s. s\<lparr>pod_name := x\<rparr>),
        read_field environ ''api_docs_enabled'' (parse_flag P) (\<lambda>x s. s\<lparr>api_docs_enabled := x\<rparr>),
        read_field environ ''cors_allowed_origins'' Some (\<lambda>x s. s\<lparr>cors_allowed_origins := x\<rparr>),
        read_field environ ''shutdown_drain_seconds'' (sp_float P) (\<lambda>x s. s\<lparr>shutdown_drain_seconds := x\<rparr>),
        read_field environ ''max_body_bytes'' (sp_int P) (\<lambda>x s. s\<lparr>max_body_bytes := x\<rparr>)]
       ([], default_settings)"

text \<open>\<open>Settings()\<close> fails with every field that does not parse.\<close>

definition make_settings :: "settings_parsers \<Rightarrow> (string \<Rightarrow> pystr option) \<Rightarrow> string list + Settings" where
  "make_settings P environ =
     (let (errors, s) = read_settings P environ in if errors = [] then Inr s else Inl errors)"

text \<open>
  \<open>get_settings\<close> under \<open>lru_cache\<close>: the first settings made are returned from then on; a failure is
  not cached.
\<close>

definition get_settings ::
  "settings_parsers \<Rightarrow> (string \<Rightarrow> pystr option) \<Rightarrow> Settings option \<Rightarrow> (string list + Settings) \<times> Settings option" where
  "get_settings P environ cached =
     (case cached of
        Some s \<Rightarrow> (Inr s, cached)
      | None \<Rightarrow> (case make_settings P environ of Inl e \<Rightarrow> (Inl e, None) | Inr s \<Rightarrow> (Inr s, Some s)))"

definition cors_origins :: "Settings \<Rightarrow> pystr list" where
  "cors_origins s =
     map py_strip [origin \<leftarrow> py_split (of_char CHR '','') (cors_allowed_origins s). py_strip origin \<noteq> []]"

record db_url =
  url_driver :: pystr
  url_username :: pystr
  url_password :: pystr
  url_host :: pystr
  url_port :: int
  url_database :: pystr

definition database_url :: "Settings \<Rightarrow> db_url" where
  "database_url s =
     \<lparr>url_driver = lit ''postgresql+asyncpg'', url_username = db_user s, url_password = db_password s,
      url_host = db_host s, url_port = db_port s, url_database = db_name s\<rparr>"

subsection \<open>Reading the fields\<close>

text \<open>A field changes nothing another field holds, and no field takes an error back.\<close>

lemma read_field_keeps:
  assumes "\<And>x s. get (store x s) = get s"
  shows "get (snd (read_field environ name parse store es)) = get (snd es)"
  using assms by (simp add: read_field_def case_prod_unfold split: option.split)

lemma read_field_errors:
  "fst (read_field environ name parse store es) = [] \<longleftrightarrow>
     fst es = [] \<and> (\<forall>v. environ name = Some v \<longrightarrow> parse v \<noteq> None)"
  by (auto simp: read_field_def case_prod_unfold split: option.split)

lemma read_field_stored:
  assumes "\<And>x s. get (store x s) = x" and "parse v = Some x" and "environ name = Some v"
  shows "get (snd (read_field environ name parse store es)) = x"
  using assms by (simp add: read_field_def case_prod_unfold)

lemma read_field_unset:
  "environ name = None \<Longrightarrow> snd (read_field environ name parse store es) = snd es"
  by (simp add: read_field_def case_prod_unfold)

lemma parse_flag_cases:
  "parse_flag P v = (if v = lit ''true'' then Some True else if v = lit ''false'' then Some False else None)"
  by (simp add: parse_flag_def strict_bool_def)

lemma settings_flag:
  assumes "make_settings P environ = Inr s"
  shows "(\<forall>v. environ ''api_docs_enabled'' = Some v \<longrightarrow> parse_flag P v \<noteq> None)
    \<and> api_docs_enabled s = (case environ ''api_docs_enabled'' of None \<Rightarrow> False | Some v \<Rightarrow> the (parse_flag P v))"
proof -
  have s: "s = snd (read_settings P environ)" "fst (read_settings P environ) = []"
    using assms by (auto simp: make_settings_def Let_def split: prod.splits if_splits)
  have flag: "\<forall>v. environ ''api_docs_enabled'' = Some v \<longrightarrow> parse_flag P v \<noteq> None"
    using s(2) unfolding read_settings_def fold_simps comp_apply id_apply by (simp add: read_field_errors)
  show ?thesis
  proof (cases "environ ''api_docs_enabled''")
    case None
    then have "api_docs_enabled s = False"
      unfolding s read_settings_def fold_simps comp_apply id_apply
      by (simp add: read_field_keeps [where get = api_docs_enabled] read_field_unset default_settings_def)
    with None show ?thesis by simp
  next
    case (Some v)
    with flag obtain b where b: "parse_flag P v = Some b" by auto
    have "api_docs_enabled s = b"
      unfolding s read_settings_def fold_simps comp_apply id_apply
      by (simp add: read_field_keeps [where get = api_docs_enabled] read_field_stored [where get = api_docs_enabled and v = v and x = b] b Some)
    with Some b show ?thesis by simp
  qed
qed

lemma py_split_append: "sep \<notin> set p \<Longrightarrow> py_split sep (p @ sep # s) = p # py_split sep s"
  by (induction p) simp_all

lemma py_split_single: "sep \<notin> set p \<Longrightarrow> py_split sep p = [p]"
  by (induction p) simp_all

lemma py_split_join:
  assumes "ps \<noteq> []" and "\<forall>p \<in> set ps. sep \<notin> set p"
  shows "py_split sep (py_join [sep] ps) = ps"
  using assms by (induction "[sep]" ps rule: py_join.induct) (simp_all add: py_split_append py_split_single)

subsection \<open>Properties\<close>

text \<open>
  The origins of CORS are read as they were listed: of any pieces joined with commas, blanks
  around a piece are dropped and blank pieces are left out; a list of origins without blanks is read
  back as it is.
\<close>

theorem cors_origins_roundtrip:
  assumes "\<forall>piece \<in> set pieces. of_char CHR '','' \<notin> set piece"
  shows "cors_origins (s\<lparr>cors_allowed_origins := py_join [of_char CHR '',''] pieces\<rparr>)
       = [origin \<leftarrow> map py_strip pieces. origin \<noteq> []]
     \<and> ((\<forall>piece \<in> set pieces. piece \<noteq> [] \<and> py_strip piece = piece) \<longrightarrow>
         cors_origins (s\<lparr>cors_allowed_origins := py_join [of_char CHR '',''] pieces\<rparr>) = pieces)"
proof -
  have "cors_origins (s\<lparr>cors_allowed_origins := py_join [of_char CHR '',''] pieces\<rparr>)
      = [origin \<leftarrow> map py_strip pieces. origin \<noteq> []]"
  proof (cases "pieces = []")
    case True
    then show ?thesis by (simp add: cors_origins_def py_strip_def)
  next
    case False
    with py_split_join [OF this assms] show ?thesis by (simp add: cors_origins_def filter_map comp_def)
  qed
  moreover have "(\<forall>piece \<in> set pieces. piece \<noteq> [] \<and> py_strip piece = piece) \<Longrightarrow>
      [origin \<leftarrow> map py_strip pieces. origin \<noteq> []] = pieces"
    by (induction pieces) auto
  ultimately show ?thesis by simp
qed

theorem cors_origins_roundtrip_witness:
  "cors_origins (default_settings\<lparr>cors_allowed_origins :=
     py_join [of_char CHR '',''] [lit '' http://a.test'', lit '' '', lit ''https://b.test '']\<rparr>)
   = [lit ''http://a.test'', lit ''https://b.test'']"
  using cors_origins_roundtrip [of "[lit '' http://a.test'', lit '' '', lit ''https://b.test '']" default_settings]
  by (simp add: lit_def py_strip_def py_isspace_def)

end
