(* ===== verification/Lifecycle.thy ===== *)
theory Lifecycle
  imports Settings
begin

section \<open>Startup, readiness and shutdown: \<open>app/main.py\<close>, \<open>app/__main__.py\<close>, \<open>app/state.py\<close>, \<open>app/routers/health.py\<close>\<close>

text \<open>
  The process as a state machine: the lifespan of the application advances through its awaits, a
  signal may arrive between any two of them, and the event loop runs the callbacks that a signal
  handler has scheduled. Uvicorn's own server is an argument, a state with its \<open>handle_exit\<close>.
\<close>

subsection \<open>The state of the process\<close>

text \<open>The await the lifespan is at; \<open>Running\<close> is its \<open>yield\<close>.\<close>

datatype lifespan_pc =
    NotStarted
  | SettingUpMetrics | ConnectingCache | ProbingDatabase | Seeding
  | Running
  | ShuttingCache | DisposingEngine | ShuttingMetrics | ShuttingTracing
  | Finished
  | Died

record 'u uvicorn =
  uv_handle_exit :: "nat \<Rightarrow> 'u \<Rightarrow> 'u"
  uv_exiting :: "'u \<Rightarrow> bool"

datatype sighandler = SigDefault | GracefulExit | OtherHandler nat

definition SIGINT :: nat where "SIGINT = 2"
definition SIGTERM :: nat where "SIGTERM = 15"

text \<open>
  \<open>pr_ready\<close> is \<open>state.ready\<close>, \<open>pr_draining\<close> and \<open>pr_loop\<close> are \<open>_draining\<close> and \<open>_loop is not None\<close> of
  the server, \<open>pr_server\<close> is the state of uvicorn's server. \<open>pr_soon\<close> holds the calls queued by
  \<open>call_soon_threadsafe\<close> and \<open>pr_timers\<close> those of \<open>call_later\<close> with their deadlines.
\<close>

record 'u proc =
  pr_ready :: bool
  pr_draining :: bool
  pr_loop :: bool
  pr_server :: 'u
  pr_soon :: "nat list"
  pr_timers :: "(rat \<times> nat) list"
  pr_clock :: rat
  pr_pc :: lifespan_pc
  pr_handlers :: "nat \<Rightarrow> sighandler"
  pr_original :: "(nat \<times> sighandler) list"
  pr_exit :: "nat option"

definition new_process :: "'u \<Rightarrow> (nat \<Rightarrow> sighandler) \<Rightarrow> 'u proc" where
  "new_process u handlers =
     \<lparr>pr_ready = False, pr_draining = False, pr_loop = False, pr_server = u, pr_soon = [], pr_timers = [],
      pr_clock = 0, pr_pc = NotStarted, pr_handlers = handlers, pr_original = [], pr_exit = None\<rparr>"

subsection \<open>GracefulServer\<close>

text \<open>
  \<open>handle_exit\<close>; the callback it queues calls \<open>call_later\<close> with \<open>drain_seconds\<close> when the loop runs it.
\<close>

definition handle_exit :: "'u uvicorn \<Rightarrow> rat \<Rightarrow> nat \<Rightarrow> 'u proc \<Rightarrow> 'u proc" where
  "handle_exit U drain_seconds sig p =
     (let p1 = p\<lparr>pr_ready := False\<rparr>
      in if pr_draining p1 \<or> \<not> pr_loop p1 \<or> drain_seconds \<le> 0 then
           p1\<lparr>pr_server := uv_handle_exit U sig (pr_server p1)\<rparr>
         else p1\<lparr>pr_draining := True, pr_soon := pr_soon p1 @ [sig]\<rparr>)"

text \<open>\<open>capture_signals\<close> around the server: what is installed on entry and restored on exit.\<close>

definition capture_enter :: "'u proc \<Rightarrow> 'u proc" where
  "capture_enter p =
     p\<lparr>pr_original := map (\<lambda>sig. (sig, pr_handlers p sig)) [SIGINT, SIGTERM],
       pr_handlers := (pr_handlers p)(SIGINT := GracefulExit, SIGTERM := GracefulExit)\<rparr>"

definition capture_leave :: "'u proc \<Rightarrow> 'u proc" where
  "capture_leave p =
     p\<lparr>pr_handlers := foldl (\<lambda>h (sig, handler). h(sig := handler)) (pr_handlers p) (pr_original p)\<rparr>"

text \<open>\<open>serve\<close>: the loop is known before the handlers are installed and the lifespan starts.\<close>

definition serve_start :: "'u proc \<Rightarrow> 'u proc" where
  "serve_start p = (capture_enter (p\<lparr>pr_loop := True\<rparr>))\<lparr>pr_pc := SettingUpMetrics\<rparr>"

subsection \<open>The lifespan\<close>

text \<open>
  One await of the lifespan returns (\<open>ok\<close>) or raises; \<open>None\<close> when it has nothing to continue. After
  \<open>yield\<close> it continues when uvicorn's server exits its main loop. The last step ends \<open>serve\<close>: the
  handlers are restored, no signal is raised again, and the process ends with exit code 0.
\<close>

definition lifespan_step :: "'u uvicorn \<Rightarrow> bool \<Rightarrow> 'u proc \<Rightarrow> 'u proc option" where
  "lifespan_step U ok p =
     (case pr_pc p of
        SettingUpMetrics \<Rightarrow> Some (p\<lparr>pr_pc := (if ok then ConnectingCache else Died)\<rparr>)
      | ConnectingCache \<Rightarrow> Some (p\<lparr>pr_pc := (if ok then ProbingDatabase else Died)\<rparr>)
      | ProbingDatabase \<Rightarrow> Some (p\<lparr>pr_pc := (if ok then Seeding else Died)\<rparr>)
      | Seeding \<Rightarrow> Some (if ok then p\<lparr>pr_ready := True, pr_pc := Running\<rparr> else p\<lparr>pr_pc := Died\<rparr>)
      | Running \<Rightarrow> if uv_exiting U (pr_server p) then Some (p\<lparr>pr_ready := False, pr_pc := ShuttingCache\<rparr>) else None
      | ShuttingCache \<Rightarrow> Some (p\<lparr>pr_pc := (if ok then DisposingEngine else Died)\<rparr>)
      | DisposingEngine \<Rightarrow> Some (p\<lparr>pr_pc := (if ok then ShuttingMetrics else Died)\<rparr>)
      | ShuttingMetrics \<Rightarrow> Some (p\<lparr>pr_pc := (if ok then ShuttingTracing else Died)\<rparr>)
      | ShuttingTracing \<Rightarrow>
          Some (if ok then (capture_leave p)\<lparr>pr_pc := Finished, pr_exit := Some 0\<rparr> else p\<lparr>pr_pc := Died\<rparr>)
      | _ \<Rightarrow> None)"

subsection \<open>The steps of the process\<close>

datatype proc_event =
    Serve
  | Signal nat
  | LoopTurn
  | TimerFired
  | Elapse rat
  | LifespanStep bool

definition alive :: "'u proc \<Rightarrow> bool" where
  "alive p \<longleftrightarrow> pr_pc p \<noteq> Finished \<and> pr_pc p \<noteq> Died"

inductive proc_step :: "'u uvicorn \<Rightarrow> rat \<Rightarrow> 'u proc \<Rightarrow> proc_event \<Rightarrow> 'u proc \<Rightarrow> bool" for U drain where
  serve: "pr_pc p = NotStarted \<Longrightarrow> proc_step U drain p Serve (serve_start p)"
| signal: "alive p \<Longrightarrow> pr_handlers p sig = GracefulExit \<Longrightarrow> proc_step U drain p (Signal sig) (handle_exit U drain sig p)"
| killed: "alive p \<Longrightarrow> pr_handlers p sig = SigDefault \<Longrightarrow>
    proc_step U drain p (Signal sig) (p\<lparr>pr_pc := Died, pr_exit := Some (128 + sig)\<rparr>)"
| turn: "alive p \<Longrightarrow> pr_soon p = sig # rest \<Longrightarrow>
    proc_step U drain p LoopTurn (p\<lparr>pr_soon := rest, pr_timers := pr_timers p @ [(pr_clock p + drain, sig)]\<rparr>)"
| fire: "alive p \<Longrightarrow> pr_timers p = ts @ (t, sig) # ts' \<Longrightarrow> t \<le> pr_clock p \<Longrightarrow>
    proc_step U drain p TimerFired
      (p\<lparr>pr_timers := ts @ ts', pr_server := uv_handle_exit U sig (pr_server p)\<rparr>)"
| elapse: "alive p \<Longrightarrow> 0 \<le> d \<Longrightarrow> proc_step U drain p (Elapse d) (p\<lparr>pr_clock := pr_clock p + d\<rparr>)"
| lifespan: "lifespan_step U ok p = Some p' \<Longrightarrow> proc_step U drain p (LifespanStep ok) p'"

inductive_cases signalE: "proc_step U drain p (Signal sig) p'"

inductive proc_run :: "'u uvicorn \<Rightarrow> rat \<Rightarrow> 'u proc \<Rightarrow> proc_event list \<Rightarrow> 'u proc \<Rightarrow> bool" for U drain p where
  start: "proc_run U drain p [] p"
| next_step: "proc_run U drain p evs q \<Longrightarrow> proc_step U drain q ev q' \<Longrightarrow> proc_run U drain p (evs @ [ev]) q'"

subsection \<open>Health probes\<close>

definition status_response :: "nat \<Rightarrow> string \<Rightarrow> response" where
  "status_response code status = json_response code [] (JObj [(lit ''status'', JStr (lit status))])"

definition liveness :: "'u proc \<Rightarrow> response" where
  "liveness p = status_response 200 ''UP''"

definition readiness :: "'u proc \<Rightarrow> response" where
  "readiness p = (if pr_ready p then status_response 200 ''UP'' else status_response 503 ''DOWN'')"

subsection \<open>The application and the server\<close>

text \<open>
  \<open>add_middleware\<close> puts a middleware in front of those added before; the list is from the outermost
  to the innermost.
\<close>

datatype middleware =
    BodyLimit int
  | Cors "pystr list" "pystr list" "pystr list"
  | RequestMetrics
  | OpenTelemetry

datatype router = Health | MessagesRouter | AuthorsRouter | ProblemsRouter

record application =
  ap_docs_url :: "pystr option"
  ap_redoc_url :: "pystr option"
  ap_openapi_url :: "pystr option"
  ap_routers :: "router list"
  ap_middleware :: "middleware list"

definition add_middleware :: "middleware \<Rightarrow> application \<Rightarrow> application" where
  "add_middleware m a = a\<lparr>ap_middleware := m # ap_middleware a\<rparr>"

definition create_app :: "Settings \<Rightarrow> bool \<Rightarrow> application" where
  "create_app settings telemetry =
     (let docs = api_docs_enabled settings;
          a = \<lparr>ap_docs_url = (if docs then Some (lit ''/docs'') else None),
               ap_redoc_url = (if docs then Some (lit ''/redoc'') else None),
               ap_openapi_url = (if docs then Some (lit ''/openapi.json'') else None),
               ap_routers = [Health, MessagesRouter, AuthorsRouter, ProblemsRouter], ap_middleware = []\<rparr>;
          a = add_middleware (BodyLimit (max_body_bytes settings)) a;
          a = (if cors_origins settings \<noteq> [] then
                 add_middleware (Cors (cors_origins settings) [lit ''GET'', lit ''POST'', lit ''PATCH'', lit ''DELETE'']
                   [lit ''Content-Type'']) a
               else a);
          a = add_middleware RequestMetrics a
      in if telemetry then add_middleware OpenTelemetry a else a)"

record server_config =
  cfg_host :: pystr
  cfg_port :: int
  cfg_proxy_headers :: bool
  cfg_forwarded_allow_ips :: pystr
  cfg_graceful_timeout :: int
  cfg_access_log :: bool
  cfg_drain_seconds :: rat

definition main_config :: "Settings \<Rightarrow> server_config" where
  "main_config settings =
     \<lparr>cfg_host = lit ''0.0.0.0'', cfg_port = port settings, cfg_proxy_headers = True,
      cfg_forwarded_allow_ips = lit ''*'', cfg_graceful_timeout = 20, cfg_access_log = False,
      cfg_drain_seconds = shutdown_drain_seconds settings\<rparr>"

subsection \<open>Runs\<close>

fun lifespan_results :: "proc_event list \<Rightarrow> bool list" where
  "lifespan_results [] = []"
| "lifespan_results (LifespanStep ok # evs) = ok # lifespan_results evs"
| "lifespan_results (_ # evs) = lifespan_results evs"

fun elapsed :: "proc_event list \<Rightarrow> rat" where
  "elapsed [] = 0"
| "elapsed (Elapse d # evs) = d + elapsed evs"
| "elapsed (_ # evs) = elapsed evs"

fun signals :: "proc_event list \<Rightarrow> nat list" where
  "signals [] = []"
| "signals (Signal sig # evs) = sig # signals evs"
| "signals (_ # evs) = signals evs"

lemma lifespan_results_append [simp]: "lifespan_results (xs @ ys) = lifespan_results xs @ lifespan_results ys"
  by (induction xs rule: lifespan_results.induct) simp_all

lemma elapsed_append [simp]: "elapsed (xs @ ys) = elapsed xs + elapsed ys"
  by (induction xs rule: elapsed.induct) simp_all

lemma signals_append [simp]: "signals (xs @ ys) = signals xs @ signals ys"
  by (induction xs rule: signals.induct) simp_all

lemma proc_run_one: "proc_step U drain p ev q \<Longrightarrow> proc_run U drain p [ev] q"
  using next_step [OF start] by fastforce

lemma proc_run_append: "proc_run U drain p evs q \<Longrightarrow> proc_run U drain q evs' r \<Longrightarrow> proc_run U drain p (evs @ evs') r"
proof (rotate_tac, induction rule: proc_run.induct)
  case start
  then show ?case by simp
next
  case (next_step evs' q' ev q'')
  then show ?case by (metis append_assoc proc_run.next_step)
qed

lemma proc_run_step: "proc_step U drain p ev q \<Longrightarrow> proc_run U drain q evs r \<Longrightarrow> proc_run U drain p (ev # evs) r"
  using proc_run_append [OF proc_run_one] by fastforce

lemma handle_exit_sel [simp]:
  "pr_pc (handle_exit U d sig p) = pr_pc p" "\<not> pr_ready (handle_exit U d sig p)"
  by (simp_all add: handle_exit_def Let_def)

lemma capture_sel [simp]:
  "pr_ready (serve_start p) = pr_ready p" "pr_pc (serve_start p) = SettingUpMetrics"
  "pr_server (serve_start p) = pr_server p" "pr_soon (serve_start p) = pr_soon p"
  "pr_timers (serve_start p) = pr_timers p" "pr_draining (serve_start p) = pr_draining p"
  "pr_loop (serve_start p)" "pr_clock (serve_start p) = pr_clock p"
  "pr_ready (capture_leave p) = pr_ready p" "pr_server (capture_leave p) = pr_server p"
  "pr_soon (capture_leave p) = pr_soon p" "pr_timers (capture_leave p) = pr_timers p"
  "pr_draining (capture_leave p) = pr_draining p" "pr_loop (capture_leave p) = pr_loop p"
  "pr_clock (capture_leave p) = pr_clock p" "pr_pc (capture_leave p) = pr_pc p"
  by (simp_all add: serve_start_def capture_enter_def capture_leave_def)

text \<open>The awaits of the startup that have returned when the lifespan is at a place.\<close>

fun startup_done :: "lifespan_pc \<Rightarrow> nat option" where
  "startup_done NotStarted = Some 0"
| "startup_done SettingUpMetrics = Some 0"
| "startup_done ConnectingCache = Some 1"
| "startup_done ProbingDatabase = Some 2"
| "startup_done Seeding = Some 3"
| "startup_done Running = Some 4"
| "startup_done _ = None"

lemma run_startup:
  assumes "proc_run U drain (new_process u h) evs p"
  shows "(pr_ready p \<longrightarrow> alive p \<longrightarrow> pr_pc p = Running)
    \<and> (\<forall>n. startup_done (pr_pc p) = Some n \<longrightarrow> lifespan_results evs = replicate n True)"
  using assms
proof (induction rule: proc_run.induct)
  case start
  then show ?case by (simp add: new_process_def)
next
  case (next_step evs q ev q')
  from next_step.hyps(2) next_step.IH show ?case
    by cases (auto simp: lifespan_step_def alive_def eval_nat_numeral replicate_app_Cons_same split: lifespan_pc.splits if_splits)
qed

text \<open>After its start, readiness only goes down.\<close>

definition past_startup :: "'u proc \<Rightarrow> bool" where
  "past_startup p \<longleftrightarrow> startup_done (pr_pc p) \<in> {None, Some 4}"

lemma step_stays_down:
  "proc_step U drain p ev p' \<Longrightarrow> past_startup p \<Longrightarrow> \<not> pr_ready p \<Longrightarrow> past_startup p' \<and> \<not> pr_ready p'"
  by (cases rule: proc_step.cases)
    (auto simp: past_startup_def lifespan_step_def alive_def split: lifespan_pc.splits if_splits)

lemma run_stays_down:
  "proc_run U drain p evs p' \<Longrightarrow> past_startup p \<Longrightarrow> \<not> pr_ready p \<Longrightarrow> past_startup p' \<and> \<not> pr_ready p'"
  by (induction rule: proc_run.induct) (auto dest: step_stays_down)

text \<open>Until the first signal arrives nothing of the shutdown has begun.\<close>

definition undisturbed :: "'u \<Rightarrow> (nat \<Rightarrow> sighandler) \<Rightarrow> 'u proc \<Rightarrow> bool" where
  "undisturbed u h p \<longleftrightarrow>
     pr_server p = u \<and> \<not> pr_draining p \<and> pr_soon p = [] \<and> pr_timers p = []
     \<and> (pr_pc p \<noteq> NotStarted \<and> alive p \<longrightarrow>
          pr_loop p \<and> pr_handlers p = h(SIGINT := GracefulExit, SIGTERM := GracefulExit)
          \<and> pr_original p = [(SIGINT, h SIGINT), (SIGTERM, h SIGTERM)])
     \<and> (pr_pc p = NotStarted \<longrightarrow> pr_handlers p = h)"

lemma run_undisturbed:
  assumes "proc_run U drain (new_process u h) evs p" and "signals evs = []"
  shows "undisturbed u h p"
  using assms
proof (induction rule: proc_run.induct)
  case start
  then show ?case by (simp add: new_process_def undisturbed_def)
next
  case (next_step evs q ev q')
  then have IH: "undisturbed u h q" and "signals [ev] = []" by simp_all
  from next_step.hyps(2) this show ?case
    by cases (auto simp: undisturbed_def lifespan_step_def alive_def serve_start_def capture_enter_def capture_leave_def
        SIGINT_def SIGTERM_def split: lifespan_pc.splits if_splits)
qed

text \<open>
  From the first signal on, without another: it is queued, or a timer is set that is not due before
  the drain is over, or uvicorn has been told after the drain.
\<close>

definition drain_state :: "'u uvicorn \<Rightarrow> rat \<Rightarrow> nat \<Rightarrow> 'u \<Rightarrow> rat \<Rightarrow> 'u proc \<Rightarrow> bool" where
  "drain_state U drain sig u since p \<longleftrightarrow>
     (pr_soon p = [sig] \<and> pr_timers p = [] \<and> pr_server p = u \<and> pr_clock p \<ge> since)
     \<or> (\<exists>t. pr_soon p = [] \<and> pr_timers p = [(t, sig)] \<and> pr_server p = u \<and> pr_clock p \<ge> since
          \<and> t \<ge> since + drain \<and> t \<le> pr_clock p + drain)
     \<or> (pr_soon p = [] \<and> pr_timers p = [] \<and> pr_server p = uv_handle_exit U sig u \<and> pr_clock p \<ge> since + drain)"

lemma lifespan_frame:
  assumes "lifespan_step U ok p = Some p'"
  shows "pr_soon p' = pr_soon p \<and> pr_timers p' = pr_timers p \<and> pr_server p' = pr_server p \<and> pr_clock p' = pr_clock p"
  using assms by (cases "pr_pc p") (auto simp: lifespan_step_def split: if_splits)

lemma drain_state_cong:
  assumes "pr_soon p' = pr_soon p" "pr_timers p' = pr_timers p" "pr_server p' = pr_server p" "pr_clock p' = pr_clock p"
  shows "drain_state U drain sig u since p' = drain_state U drain sig u since p"
  using assms by (simp add: drain_state_def)

lemma step_drain:
  assumes "proc_step U drain p ev p'" and "drain_state U drain sig u since p" and "signals [ev] = []"
  shows "drain_state U drain sig u since p'"
  using assms(1)
proof cases
  case serve
  then show ?thesis using assms(2) drain_state_cong [of "serve_start p" p] by simp
next
  case (turn sg rest)
  with assms(2) have "pr_soon p = [sig]" "pr_timers p = []" "pr_server p = u" "pr_clock p \<ge> since" "sg = sig" "rest = []"
    by (auto simp: drain_state_def)
  then show ?thesis using turn by (simp add: drain_state_def)
next
  case (fire ts t sg ts')
  with assms(2) have "pr_soon p = []" "pr_server p = u" "since + drain \<le> t" "ts = []" "ts' = []" "sg = sig"
    by (auto simp: drain_state_def append_eq_Cons_conv)
  then show ?thesis using fire by (simp add: drain_state_def)
next
  case (elapse d)
  then show ?thesis using assms(2) by (auto simp: drain_state_def)
next
  case (lifespan ok)
  with assms(2) drain_state_cong [of p' p] lifespan_frame [OF lifespan(2)] show ?thesis by simp
qed (use assms(3) in simp_all)

lemma run_drain:
  assumes "proc_run U drain p evs p'" and "drain_state U drain sig u since p" and "signals evs = []"
  shows "drain_state U drain sig u since p'"
  using assms by (induction rule: proc_run.induct) (auto intro: step_drain)

lemma run_clock:
  assumes "proc_run U drain p evs p'"
  shows "pr_clock p' = pr_clock p + elapsed evs"
  using assms
proof (induction rule: proc_run.induct)
  case (next_step evs q ev q')
  from next_step.hyps(2) next_step.IH show ?case
    by cases (auto simp: handle_exit_def Let_def dest: lifespan_frame)
qed simp

lemma first_signal:
  assumes "undisturbed u h p" and "pr_pc p \<noteq> NotStarted" and "sig \<in> {SIGINT, SIGTERM}" and "0 < drain"
    and "proc_step U drain p (Signal sig) p'"
  shows "alive p \<and> p' = p\<lparr>pr_ready := False, pr_draining := True, pr_soon := [sig]\<rparr>"
  using assms(5)
  by (cases rule: proc_step.cases) (use assms(1-4) in \<open>auto simp: undisturbed_def handle_exit_def Let_def SIGINT_def SIGTERM_def split: if_splits\<close>)

text \<open>From the first signal in \<open>Running\<close> to the end of the process, when nothing raises.\<close>

definition drained_process :: "'u uvicorn \<Rightarrow> rat \<Rightarrow> nat \<Rightarrow> 'u proc \<Rightarrow> 'u proc" where
  "drained_process U drain sig p =
     p\<lparr>pr_soon := [], pr_clock := pr_clock p + drain, pr_timers := [],
       pr_server := uv_handle_exit U sig (pr_server p)\<rparr>"

lemma drain_run:
  assumes "alive p" and "pr_soon p = [sig]" and "pr_timers p = []" and "0 < drain"
  shows "proc_run U drain p [LoopTurn, Elapse drain, TimerFired] (drained_process U drain sig p)"
proof -
  let ?p1 = "p\<lparr>pr_soon := [], pr_timers := [(pr_clock p + drain, sig)]\<rparr>"
  let ?p2 = "?p1\<lparr>pr_clock := pr_clock p + drain\<rparr>"
  have 1: "proc_step U drain p LoopTurn ?p1" using turn [OF assms(1,2), of U drain] assms(3) by simp
  have 2: "proc_step U drain ?p1 (Elapse drain) ?p2"
    using elapse [of ?p1 drain U drain] assms(1,4) by (simp add: alive_def)
  have 3: "proc_step U drain ?p2 TimerFired (drained_process U drain sig p)"
    using fire [of ?p2 "[]" "pr_clock p + drain" sig "[]" U drain] assms(1)
    by (simp add: alive_def drained_process_def)
  show ?thesis by (rule proc_run_step [OF 1 proc_run_step [OF 2 proc_run_one [OF 3]]])
qed

lemma shutdown_run:
  assumes "pr_pc p = Running" and "uv_exiting U (pr_server p)"
  shows "proc_run U drain p (replicate 5 (LifespanStep True))
    ((capture_leave p)\<lparr>pr_ready := False, pr_pc := Finished, pr_exit := Some 0\<rparr>)"
proof -
  let ?p = "\<lambda>pc. p\<lparr>pr_ready := False, pr_pc := pc\<rparr>"
  have 1: "proc_step U drain p (LifespanStep True) (?p ShuttingCache)"
    by (rule lifespan) (simp add: lifespan_step_def assms)
  have 2: "proc_step U drain (?p ShuttingCache) (LifespanStep True) (?p DisposingEngine)"
    by (rule lifespan) (simp add: lifespan_step_def)
  have 3: "proc_step U drain (?p DisposingEngine) (LifespanStep True) (?p ShuttingMetrics)"
    by (rule lifespan) (simp add: lifespan_step_def)
  have 4: "proc_step U drain (?p ShuttingMetrics) (LifespanStep True) (?p ShuttingTracing)"
    by (rule lifespan) (simp add: lifespan_step_def)
  have 5: "proc_step U drain (?p ShuttingTracing) (LifespanStep True)
      ((capture_leave p)\<lparr>pr_ready := False, pr_pc := Finished, pr_exit := Some 0\<rparr>)"
    by (rule lifespan) (simp add: lifespan_step_def capture_leave_def)
  from proc_run_step [OF 1 proc_run_step [OF 2 proc_run_step [OF 3 proc_run_step [OF 4 proc_run_one [OF 5]]]]]
  show ?thesis by (simp add: eval_nat_numeral)
qed

lemma startup_run:
  "proc_run U drain (new_process u h) (Serve # replicate 4 (LifespanStep True))
     ((serve_start (new_process u h))\<lparr>pr_pc := Running, pr_ready := True\<rparr>)"
proof -
  let ?p = "\<lambda>pc. (serve_start (new_process u h))\<lparr>pr_pc := pc\<rparr>"
  have 0: "proc_step U drain (new_process u h) Serve (?p SettingUpMetrics)"
    using serve [of "new_process u h" U drain] by (simp add: new_process_def serve_start_def)
  have 1: "proc_step U drain (?p SettingUpMetrics) (LifespanStep True) (?p ConnectingCache)"
    by (rule lifespan) (simp add: lifespan_step_def)
  have 2: "proc_step U drain (?p ConnectingCache) (LifespanStep True) (?p ProbingDatabase)"
    by (rule lifespan) (simp add: lifespan_step_def)
  have 3: "proc_step U drain (?p ProbingDatabase) (LifespanStep True) (?p Seeding)"
    by (rule lifespan) (simp add: lifespan_step_def)
  have 4: "proc_step U drain (?p Seeding) (LifespanStep True) ((?p Running)\<lparr>pr_ready := True\<rparr>)"
    by (rule lifespan) (simp add: lifespan_step_def)
  from proc_run_step [OF 0 proc_run_step [OF 1 proc_run_step [OF 2 proc_run_step [OF 3 proc_run_one [OF 4]]]]]
  show ?thesis by (simp add: eval_nat_numeral)
qed

subsection \<open>Properties\<close>

text \<open>
  C20. Readiness tells the truth: a living process answers 200 only while it runs, after the
  metrics, the cache, the database and the seed have come up, in this order and without a failure;
  and once a signal has reached a running process readiness answers 503 in every state after it.
\<close>

theorem readiness_is_truthful:
  assumes "proc_run U drain (new_process u handlers) evs p" and "alive p"
  shows "(rs_status (readiness p) = 200 \<longrightarrow> pr_pc p = Running \<and> lifespan_results evs = [True, True, True, True])
    \<and> (\<forall>sig p1 evs' p'. pr_pc p = Running \<longrightarrow> pr_handlers p sig = GracefulExit \<longrightarrow>
         proc_step U drain p (Signal sig) p1 \<longrightarrow> proc_run U drain p1 evs' p' \<longrightarrow> rs_status (readiness p') = 503)"
proof (intro conjI impI allI)
  have up: "pr_ready p" if "rs_status (readiness p) = 200"
    using that by (simp add: readiness_def status_response_def json_response_def split: if_splits)
  assume r: "rs_status (readiness p) = 200"
  with run_startup [OF assms(1)] assms(2) up show "pr_pc p = Running" by blast
  with run_startup [OF assms(1)] show "lifespan_results evs = [True, True, True, True]"
    by (simp add: eval_nat_numeral)
next
  fix sig p1 evs' p'
  assume a: "pr_pc p = Running" "pr_handlers p sig = GracefulExit"
    "proc_step U drain p (Signal sig) p1" "proc_run U drain p1 evs' p'"
  from a(3) have "\<not> pr_ready p1 \<and> past_startup p1"
    by (rule signalE) (use a(1,2) in \<open>auto simp: past_startup_def\<close>)
  with run_stays_down [OF a(4)] show "rs_status (readiness p') = 503"
    by (simp add: readiness_def status_response_def json_response_def)
qed

definition sample_uvicorn :: "bool uvicorn" where
  "sample_uvicorn = \<lparr>uv_handle_exit = (\<lambda>_ _. True), uv_exiting = (\<lambda>exiting. exiting)\<rparr>"

definition started_process :: "bool proc" where
  "started_process = (serve_start (new_process False (\<lambda>_. SigDefault)))\<lparr>pr_pc := Running, pr_ready := True\<rparr>"

lemma started_run:
  "proc_run sample_uvicorn 3 (new_process False (\<lambda>_. SigDefault)) (Serve # replicate 4 (LifespanStep True)) started_process"
  unfolding started_process_def by (rule startup_run)

lemma started_sel:
  "alive started_process" "pr_ready started_process" "pr_pc started_process = Running" "\<not> pr_draining started_process"
  "pr_handlers started_process SIGTERM = GracefulExit" "pr_soon started_process = []" "pr_timers started_process = []"
  "pr_loop started_process"
  by (simp_all add: started_process_def alive_def) (simp_all add: serve_start_def capture_enter_def new_process_def)

theorem readiness_is_truthful_witness:
  "rs_status (readiness started_process) = 200
   \<and> rs_status (readiness (handle_exit sample_uvicorn 3 SIGTERM started_process)) = 503"
proof -
  have "proc_step sample_uvicorn 3 started_process (Signal SIGTERM) (handle_exit sample_uvicorn 3 SIGTERM started_process)"
    by (rule signal) (simp_all add: started_sel)
  with readiness_is_truthful [OF started_run started_sel(1)] started_sel proc_run.start
  have "rs_status (readiness (handle_exit sample_uvicorn 3 SIGTERM started_process)) = 503" by blast
  then show ?thesis
    by (simp add: readiness_def started_sel status_response_def json_response_def split: if_splits)
qed

text \<open>
  C22. The drain is kept: after a first SIGINT or SIGTERM and until another one arrives, uvicorn's
  server is not told to exit before \<open>drain_seconds\<close> have passed, so the listener stays open meanwhile;
  and the signal is not lost: it is queued, or its timer is due within the drain, or the server has
  been told once.
\<close>

theorem listener_stays_open_while_draining:
  assumes "proc_run U drain (new_process u handlers) evs p" and "signals evs = []" and "pr_pc p \<noteq> NotStarted"
    and "sig \<in> {SIGINT, SIGTERM}" and "0 < drain"
    and "proc_step U drain p (Signal sig) p1" and "proc_run U drain p1 evs' p'" and "signals evs' = []"
  shows "(elapsed evs' < drain \<longrightarrow> pr_server p' = u)
    \<and> (pr_server p' = u \<and> (sig \<in> set (pr_soon p') \<or> (\<exists>t. (t, sig) \<in> set (pr_timers p') \<and> t \<le> pr_clock p' + drain))
       \<or> pr_server p' = uv_handle_exit U sig u)"
proof -
  from run_undisturbed [OF assms(1,2)] have q: "undisturbed u handlers p" .
  from first_signal [OF q assms(3-6)] have p1: "p1 = p\<lparr>pr_ready := False, pr_draining := True, pr_soon := [sig]\<rparr>" by simp
  have "drain_state U drain sig u (pr_clock p) p1" using q by (simp add: p1 drain_state_def undisturbed_def)
  from run_drain [OF assms(7) this assms(8)] run_clock [OF assms(7)]
  show ?thesis by (auto simp: drain_state_def p1)
qed

lemma term_started:
  "proc_step sample_uvicorn 3 started_process (Signal SIGTERM) (handle_exit sample_uvicorn 3 SIGTERM started_process)"
  by (rule signal) (simp_all add: started_sel)

lemma started_signals: "signals (Serve # replicate 4 (LifespanStep True)) = []"
  by (simp add: eval_nat_numeral)

theorem listener_stays_open_while_draining_witness:
  "\<exists>p'. proc_run sample_uvicorn 3 (handle_exit sample_uvicorn 3 SIGTERM started_process) [Elapse 2] p' \<and> \<not> pr_server p'"
proof -
  let ?p = "handle_exit sample_uvicorn 3 SIGTERM started_process"
  have n: "pr_pc started_process \<noteq> NotStarted" "SIGTERM \<in> {SIGINT, SIGTERM}" "0 < (3 :: rat)"
    by (simp_all add: started_sel)
  have "alive ?p" by (simp add: alive_def started_sel)
  then have r: "proc_run sample_uvicorn 3 ?p [Elapse 2] (?p\<lparr>pr_clock := pr_clock ?p + 2\<rparr>)"
    by (intro proc_run_one elapse) simp_all
  from listener_stays_open_while_draining [OF started_run started_signals n term_started r] r show ?thesis
    by (intro exI [of _ "?p\<lparr>pr_clock := pr_clock ?p + 2\<rparr>"]) simp
qed

text \<open>
  C23. A running process that is told to stop does stop, with exit code 0: after a first SIGINT or
  SIGTERM there is a run in which nothing but \<open>drain_seconds\<close> of time passes, no other signal is
  needed, the resources are released one after the other, and the handlers the process had before
  are in place again.
\<close>

theorem signal_leads_to_clean_exit:
  assumes "proc_run U drain (new_process u handlers) evs p" and "signals evs = []" and "pr_pc p = Running"
    and "sig \<in> {SIGINT, SIGTERM}" and "0 < drain"
    and "proc_step U drain p (Signal sig) p1" and "uv_exiting U (uv_handle_exit U sig u)"
  shows "\<exists>evs' p'. proc_run U drain p1 evs' p' \<and> signals evs' = [] \<and> elapsed evs' = drain
    \<and> pr_pc p' = Finished \<and> pr_exit p' = Some 0 \<and> pr_handlers p' = handlers"
proof -
  from run_undisturbed [OF assms(1,2)] have q: "undisturbed u handlers p" .
  have "pr_pc p \<noteq> NotStarted" using assms(3) by simp
  from first_signal [OF q this assms(4-6)]
  have p1: "alive p" "p1 = p\<lparr>pr_ready := False, pr_draining := True, pr_soon := [sig]\<rparr>" by simp_all
  have h: "pr_handlers p = handlers(SIGINT := GracefulExit, SIGTERM := GracefulExit)"
    "pr_original p = [(SIGINT, handlers SIGINT), (SIGTERM, handlers SIGTERM)]" "pr_timers p = []" "pr_server p = u"
    using q assms(3) by (auto simp: undisturbed_def alive_def)
  let ?q = "drained_process U drain sig p1"
  have 1: "proc_run U drain p1 [LoopTurn, Elapse drain, TimerFired] ?q"
    by (rule drain_run) (use p1 h assms(5) in \<open>simp_all add: alive_def\<close>)
  have 2: "proc_run U drain ?q (replicate 5 (LifespanStep True))
      ((capture_leave ?q)\<lparr>pr_ready := False, pr_pc := Finished, pr_exit := Some 0\<rparr>)" (is "proc_run _ _ _ _ ?r")
    by (rule shutdown_run) (use p1 h assms(3,7) in \<open>simp_all add: drained_process_def\<close>)
  have "pr_handlers ?r = handlers"
    using p1 h by (auto simp: capture_leave_def drained_process_def fun_eq_iff)
  with proc_run_append [OF 1 2] show ?thesis
    by (intro exI conjI) (assumption, simp_all add: eval_nat_numeral)
qed

theorem signal_leads_to_clean_exit_witness:
  "\<exists>evs' p'. proc_run sample_uvicorn 3 (handle_exit sample_uvicorn 3 SIGTERM started_process) evs' p'
     \<and> signals evs' = [] \<and> elapsed evs' = 3 \<and> pr_pc p' = Finished \<and> pr_exit p' = Some 0"
proof -
  have n: "SIGTERM \<in> {SIGINT, SIGTERM}" "0 < (3 :: rat)" by simp_all
  have u: "uv_exiting sample_uvicorn (uv_handle_exit sample_uvicorn SIGTERM False)" by (simp add: sample_uvicorn_def)
  from signal_leads_to_clean_exit [OF started_run started_signals started_sel(3) n term_started u] show ?thesis by blast
qed

text \<open>
  C37. A SIGTERM that arrives while the service is still starting is forgotten by the probe: the
  startup that goes on sets \<open>state.ready\<close> afterwards, and readiness answers 200 although the server is
  draining, until uvicorn exits.
\<close>

theorem signal_during_startup_is_forgotten:
  assumes "0 < drain"
  shows "\<exists>evs p. proc_run U drain (new_process u handlers) (Serve # Signal SIGTERM # evs) p
    \<and> signals evs = [] \<and> alive p \<and> pr_draining p \<and> rs_status (readiness p) = 200"
proof -
  let ?s = "serve_start (new_process u handlers)"
  let ?p = "\<lambda>pc. ?s\<lparr>pr_ready := False, pr_draining := True, pr_soon := [SIGTERM], pr_pc := pc\<rparr>"
  have 0: "proc_step U drain (new_process u handlers) Serve ?s"
    by (rule serve) (simp add: new_process_def)
  have g: "proc_step U drain ?s (Signal SIGTERM) (handle_exit U drain SIGTERM ?s)"
    by (rule signal) (simp_all add: alive_def serve_start_def capture_enter_def)
  have e: "handle_exit U drain SIGTERM ?s = ?p SettingUpMetrics"
    using assms by (simp add: handle_exit_def Let_def new_process_def serve_start_def capture_enter_def)
  have 1: "proc_step U drain (?p SettingUpMetrics) (LifespanStep True) (?p ConnectingCache)"
    by (rule lifespan) (simp add: lifespan_step_def)
  have 2: "proc_step U drain (?p ConnectingCache) (LifespanStep True) (?p ProbingDatabase)"
    by (rule lifespan) (simp add: lifespan_step_def)
  have 3: "proc_step U drain (?p ProbingDatabase) (LifespanStep True) (?p Seeding)"
    by (rule lifespan) (simp add: lifespan_step_def)
  have 4: "proc_step U drain (?p Seeding) (LifespanStep True) ((?p Running)\<lparr>pr_ready := True\<rparr>)"
    by (rule lifespan) (simp add: lifespan_step_def)
  have "proc_run U drain (new_process u handlers)
      (Serve # Signal SIGTERM # [LifespanStep True, LifespanStep True, LifespanStep True, LifespanStep True])
      ((?p Running)\<lparr>pr_ready := True\<rparr>)"
    by (intro proc_run_step [OF 0] proc_run_step [OF g [unfolded e]] proc_run_step [OF 1] proc_run_step [OF 2]
        proc_run_step [OF 3] proc_run_one [OF 4])
  then show ?thesis
    by (intro exI conjI) (assumption, simp_all add: alive_def readiness_def status_response_def json_response_def)
qed

theorem signal_during_startup_is_forgotten_witness:
  "\<exists>evs p. proc_run sample_uvicorn 3 (new_process False (\<lambda>_. SigDefault)) (Serve # Signal SIGTERM # evs) p
     \<and> pr_draining p \<and> rs_status (readiness p) = 200"
proof -
  have "0 < (3 :: rat)" by simp
  from signal_during_startup_is_forgotten [OF this, of sample_uvicorn False "\<lambda>_. SigDefault"] show ?thesis by blast
qed

text \<open>
  The API docs are served for the exact text \<open>true\<close> only: unset or \<open>false\<close> leaves the three URLs
  out of the application, and with any other value (\<open>True\<close>, \<open>1\<close>, \<open>yes\<close>) no settings are made and the
  service does not start.
\<close>

theorem api_docs_need_the_exact_flag:
  "(case make_settings P environ of
      Inr s \<Rightarrow>
        (let a = create_app s telemetry; exact = (environ ''api_docs_enabled'' = Some (lit ''true''))
         in (ap_docs_url a \<noteq> None \<longleftrightarrow> exact) \<and> (ap_redoc_url a \<noteq> None \<longleftrightarrow> exact)
            \<and> (ap_openapi_url a \<noteq> None \<longleftrightarrow> exact)
            \<and> environ ''api_docs_enabled'' \<in> {None, Some (lit ''true''), Some (lit ''false'')})
    | Inl errors \<Rightarrow> errors \<noteq> [])"
proof (cases "make_settings P environ")
  case (Inl errors)
  then show ?thesis by (auto simp: make_settings_def Let_def split: prod.splits if_splits)
next
  case (Inr s)
  have "(ap_docs_url (create_app s telemetry) \<noteq> None \<longleftrightarrow> api_docs_enabled s)
      \<and> (ap_redoc_url (create_app s telemetry) \<noteq> None \<longleftrightarrow> api_docs_enabled s)
      \<and> (ap_openapi_url (create_app s telemetry) \<noteq> None \<longleftrightarrow> api_docs_enabled s)"
    by (simp add: create_app_def add_middleware_def Let_def)
  with settings_flag [OF Inr] Inr show ?thesis
    by (cases "environ ''api_docs_enabled''") (auto simp: parse_flag_cases Let_def split: if_splits)
qed

end
