(* ===== verification/Observability.thy ===== *)
theory Observability
  imports Telemetry Lifecycle Cache
begin

section \<open>The resources of a process: \<open>app/telemetry.py\<close>, \<open>app/tracing.py\<close>, \<open>app/db.py\<close>, \<open>app/cache.py\<close>\<close>

text \<open>
  What a process sets up when it starts and releases when it stops: the provider of metrics with its
  gauges and the task that samples the lag of the event loop, the provider of traces with its
  instrumentors, the client of the cache and the engine. OpenTelemetry and SQLAlchemy are configured,
  not modelled: a provider, an instrument and an instrumentation are the values the code passes. The
  lemmas follow them through every run of the process, interleaved with the events of \<open>Telemetry\<close>.
\<close>

subsection \<open>The engine\<close>

record engine_config =
  ec_url :: db_url
  ec_pool_size :: int
  ec_max_overflow :: int
  ec_pool_pre_ping :: bool

definition engine_of :: "Settings \<Rightarrow> engine_config" where
  "engine_of s =
     \<lparr>ec_url = database_url s, ec_pool_size = db_pool_size s, ec_max_overflow = db_max_overflow s,
      ec_pool_pre_ping = True\<rparr>"

subsection \<open>Metrics\<close>

definition SERVICE_NAME :: pystr where
  "SERVICE_NAME = lit ''message-service''"

definition EXPORT_TIMEOUT_S :: nat where
  "EXPORT_TIMEOUT_S = 5"

text \<open>An instrument is created without a unit; the module creates three, on the global meter.\<close>

datatype instrument_kind = Counter | Histogram | ObservableGauge

record instrument =
  in_kind :: instrument_kind
  in_name :: string
  in_description :: string
  in_unit :: string

definition create_instrument :: "instrument_kind \<Rightarrow> string \<Rightarrow> string \<Rightarrow> instrument" where
  "create_instrument kind name description =
     \<lparr>in_kind = kind, in_name = name, in_description = description, in_unit = []\<rparr>"

definition request_instruments :: "instrument list" where
  "request_instruments =
     [create_instrument Counter ''http_requests_total'' ''HTTP requests handled, by method, route template and status'',
      create_instrument Counter ''http_errors_total'' ''HTTP error responses, by method, route template and code'',
      create_instrument Histogram ''http_request_duration_ms'' ''HTTP request duration in milliseconds'']"

text \<open>The attributes of a resource, and a provider with its one periodic reader.\<close>

definition service_resource :: "Settings \<Rightarrow> (pystr \<times> pystr) list" where
  "service_resource s = [(lit ''service.name'', SERVICE_NAME), (lit ''k8s.pod.name'', pod_name s)]"

record meter_provider =
  mp_resource :: "(pystr \<times> pystr) list"
  mp_endpoint :: pystr
  mp_timeout_s :: nat
  mp_interval_millis :: nat

text \<open>
  The tasks of the event loop that run \<open>_LoopLagMonitor._run\<close>, which loops until it is cancelled, and
  the state of the module: \<open>_provider\<close>, \<open>_lag._task\<close>, what \<open>setup_metrics\<close> has registered, and the state
  the callbacks read (the samples of \<open>_lag\<close> are in it).
\<close>

record event_loop =
  ev_next :: nat
  ev_lag_tasks :: "nat list"

record telemetry =
  tm_provider :: "meter_provider option"
  tm_lag_task :: "nat option"
  tm_gauges :: "instrument list"
  tm_listeners :: "string list"
  tm_state :: metrics_state

definition lag_start :: "telemetry \<times> event_loop \<Rightarrow> telemetry \<times> event_loop" where
  "lag_start = (\<lambda>(t, l).
     (t\<lparr>tm_lag_task := Some (ev_next l)\<rparr>,
      l\<lparr>ev_next := ev_next l + 1, ev_lag_tasks := ev_lag_tasks l @ [ev_next l]\<rparr>))"

text \<open>The gather returns when the cancelled task has ended.\<close>

definition lag_stop :: "telemetry \<times> event_loop \<Rightarrow> telemetry \<times> event_loop" where
  "lag_stop = (\<lambda>(t, l).
     case tm_lag_task t of
       None \<Rightarrow> (t, l)
     | Some task \<Rightarrow> (t, l\<lparr>ev_lag_tasks := removeAll task (ev_lag_tasks l)\<rparr>))"

definition gauge :: "string \<Rightarrow> string \<Rightarrow> telemetry \<Rightarrow> telemetry" where
  "gauge name description t = t\<lparr>tm_gauges := tm_gauges t @ [create_instrument ObservableGauge name description]\<rparr>"

definition listens_for :: "string \<Rightarrow> telemetry \<Rightarrow> telemetry" where
  "listens_for event t = t\<lparr>tm_listeners := tm_listeners t @ [event]\<rparr>"

text \<open>\<open>cpu\<close> and \<open>wall\<close> are the readings \<open>last\<close> starts with.\<close>

definition setup_metrics :: "Settings \<Rightarrow> rat \<Rightarrow> rat \<Rightarrow> telemetry \<times> event_loop \<Rightarrow> telemetry \<times> event_loop" where
  "setup_metrics settings cpu wall = (\<lambda>(t, l).
     let provider = \<lparr>mp_resource = service_resource settings, mp_endpoint = otel_metrics_url settings,
                     mp_timeout_s = EXPORT_TIMEOUT_S, mp_interval_millis = 15000\<rparr>;
         t = t\<lparr>tm_provider := Some provider\<rparr>;
         t = gauge ''python_process_memory_rss_bytes'' ''Resident set size'' t;
         t = t\<lparr>tm_state := (tm_state t)\<lparr>mt_last := \<lparr>cl_cpu = cpu, cl_wall = wall\<rparr>\<rparr>\<rparr>;
         t = gauge ''python_process_cpu_usage_ratio''
               ''Process CPU usage as a fraction of one core since the last sample'' t;
         (t, l) = lag_start (t, l);
         t = gauge ''python_eventloop_lag_p99_ms''
               ''asyncio event loop scheduling delay, 99th percentile over ~60s, milliseconds'' t;
         t = gauge ''db_pool_connections_open'' ''Connections currently open (busy + idle)'' t;
         t = gauge ''db_pool_connections_busy'' ''Connections checked out'' t;
         t = gauge ''db_pool_connections_idle'' ''Connections idle in the pool'' t;
         t = t\<lparr>tm_state := (tm_state t)\<lparr>mt_stats := query_stats_init\<rparr>\<rparr>;
         t = listens_for ''before_cursor_execute'' t;
         t = listens_for ''after_cursor_execute'' t;
         t = gauge ''db_client_queries_duration_avg_ms''
               ''Average SQL statement duration since the previous collection, milliseconds'' t
     in (t, l))"

text \<open>The calls that release something, in their order, with the timeout in milliseconds.\<close>

datatype release = CacheShutdown | EngineDisposed | MetricsShutdown nat | TracesShutdown

definition shutdown_metrics :: "telemetry \<times> event_loop \<Rightarrow> (telemetry \<times> event_loop) \<times> release list" where
  "shutdown_metrics x =
     (let (t, l) = lag_stop x
      in ((t, l), case tm_provider t of None \<Rightarrow> [] | Some _ \<Rightarrow> [MetricsShutdown (EXPORT_TIMEOUT_S * 1000)]))"

subsection \<open>Traces\<close>

definition EXCLUDED_URLS :: pystr where
  "EXCLUDED_URLS = lit ''/health/liveness,/health/readiness''"

record tracer_provider =
  tp_resource :: "(pystr \<times> pystr) list"
  tp_endpoint :: pystr
  tp_timeout_s :: nat

text \<open>What the instrumentors are given; the flag is the \<open>NoOpMeterProvider\<close>.\<close>

datatype instrumentation =
    InstrumentApp tracer_provider pystr "pystr list" bool
  | InstrumentEngine engine_config tracer_provider bool

record tracing =
  tr_provider :: "tracer_provider option"
  tr_instrumented :: "instrumentation list"

definition setup_tracing :: "Settings \<Rightarrow> engine_config \<Rightarrow> tracing \<Rightarrow> tracing" where
  "setup_tracing settings engine t =
     (let provider = \<lparr>tp_resource = service_resource settings, tp_endpoint = otel_traces_url settings,
                      tp_timeout_s = EXPORT_TIMEOUT_S\<rparr>
      in t\<lparr>tr_provider := Some provider,
           tr_instrumented := tr_instrumented t
             @ [InstrumentApp provider EXCLUDED_URLS [lit ''receive'', lit ''send''] True,
                InstrumentEngine engine provider True]\<rparr>)"

definition shutdown_tracing :: "tracing \<Rightarrow> release list" where
  "shutdown_tracing t = (case tr_provider t of None \<Rightarrow> [] | Some _ \<Rightarrow> [TracesShutdown])"

subsection \<open>The resources through the lifespan\<close>

record 'h resources =
  rc_cache :: "'h hz_cache"
  rc_loop :: event_loop
  rc_telemetry :: telemetry
  rc_tracing :: tracing
  rc_released :: "release list"

definition new_telemetry :: telemetry where
  "new_telemetry =
     \<lparr>tm_provider = None, tm_lag_task = None, tm_gauges = [], tm_listeners = [], tm_state = metrics_init 0 0\<rparr>"

text \<open>The modules as imported, and the call of \<open>setup_tracing\<close> at the end of \<open>create_app\<close>.\<close>

definition imported :: "'h \<Rightarrow> 'h resources" where
  "imported h =
     \<lparr>rc_cache = hz_init h, rc_loop = \<lparr>ev_next = 0, ev_lag_tasks = []\<rparr>, rc_telemetry = new_telemetry,
      rc_tracing = \<lparr>tr_provider = None, tr_instrumented = []\<rparr>, rc_released = []\<rparr>"

definition app_created :: "Settings \<Rightarrow> 'h \<Rightarrow> 'h resources" where
  "app_created settings h =
     (let rc = imported h in rc\<lparr>rc_tracing := setup_tracing settings (engine_of settings) (rc_tracing rc)\<rparr>)"

text \<open>
  The call the lifespan makes at each of its places: what it raises and what it leaves. \<open>SELECT 1\<close>, the
  seed and \<open>engine.dispose\<close> change nothing here but the list of what has been released.
\<close>

definition lifespan_call ::
  "'h hazelcast \<Rightarrow> Settings \<Rightarrow> rat \<times> rat \<Rightarrow> lifespan_pc \<Rightarrow> 'h resources \<Rightarrow> (string + unit) \<times> 'h resources" where
  "lifespan_call H settings now pc rc =
     (case pc of
        SettingUpMetrics \<Rightarrow>
          (let (t, l) = setup_metrics settings (fst now) (snd now) (rc_telemetry rc, rc_loop rc)
           in (Inr (), rc\<lparr>rc_telemetry := t, rc_loop := l\<rparr>))
      | ConnectingCache \<Rightarrow>
          (let (r, c) = hz_cache_connect H (hazelcast_host settings) (hazelcast_port settings) (rc_cache rc)
           in (r, rc\<lparr>rc_cache := c\<rparr>))
      | ShuttingCache \<Rightarrow>
          (let (r, c) = hz_cache_shutdown H (rc_cache rc)
           in (r, rc\<lparr>rc_cache := c, rc_released := rc_released rc @ [CacheShutdown]\<rparr>))
      | DisposingEngine \<Rightarrow> (Inr (), rc\<lparr>rc_released := rc_released rc @ [EngineDisposed]\<rparr>)
      | ShuttingMetrics \<Rightarrow>
          (let ((t, l), calls) = shutdown_metrics (rc_telemetry rc, rc_loop rc)
           in (Inr (), rc\<lparr>rc_telemetry := t, rc_loop := l, rc_released := rc_released rc @ calls\<rparr>))
      | ShuttingTracing \<Rightarrow> (Inr (), rc\<lparr>rc_released := rc_released rc @ shutdown_tracing (rc_tracing rc)\<rparr>)
      | _ \<Rightarrow> (Inr (), rc))"

text \<open>An event of the metrics needs the task, the listener or the provider it comes from.\<close>

fun can_happen :: "metrics_event \<Rightarrow> 'h resources \<Rightarrow> bool" where
  "can_happen (SleepEnded _ _) rc \<longleftrightarrow> ev_lag_tasks (rc_loop rc) \<noteq> []"
| "can_happen (QueryStarted _ _) rc \<longleftrightarrow> ''before_cursor_execute'' \<in> set (tm_listeners (rc_telemetry rc))"
| "can_happen (QueryEnded _ _) rc \<longleftrightarrow> ''after_cursor_execute'' \<in> set (tm_listeners (rc_telemetry rc))"
| "can_happen (Collected _) rc \<longleftrightarrow> tm_provider (rc_telemetry rc) \<noteq> None"

definition measure_event :: "metrics_event \<Rightarrow> 'h resources \<Rightarrow> 'h resources" where
  "measure_event ev rc =
     rc\<lparr>rc_telemetry := (rc_telemetry rc)\<lparr>tm_state := metrics_step (tm_state (rc_telemetry rc)) ev\<rparr>\<rparr>"

text \<open>The calls of the requests on the client of the cache.\<close>

definition request_calls :: "'h hazelcast \<Rightarrow> 'h hz_cache \<Rightarrow> 'h hz_cache set" where
  "request_calls H c =
     {c'. (\<exists>k. c' = snd (hz_cache_get H k c)) \<or> (\<exists>k v. c' = snd (hz_cache_set H k v c))
        \<or> (\<exists>k. c' = snd (hz_cache_evict H k c))}"

text \<open>
  The process together with its resources. A call of the lifespan that raises in the model is not
  \<open>ok\<close>; it may also raise for a reason outside of it (the database, an exporter).
\<close>

inductive process_run ::
  "'u uvicorn \<Rightarrow> 'h hazelcast \<Rightarrow> Settings \<Rightarrow> (nat \<Rightarrow> sighandler) \<Rightarrow> 'u \<Rightarrow> 'h
     \<Rightarrow> proc_event list \<Rightarrow> 'u proc \<Rightarrow> 'h resources \<Rightarrow> bool"
  for U H settings handlers u h where
  launch: "process_run U H settings handlers u h [] (new_process u handlers) (app_created settings h)"
| other: "process_run U H settings handlers u h evs p rc \<Longrightarrow>
     proc_step U (shutdown_drain_seconds settings) p ev p' \<Longrightarrow> (\<nexists>ok. ev = LifespanStep ok) \<Longrightarrow>
     process_run U H settings handlers u h (evs @ [ev]) p' rc"
| lifespan: "process_run U H settings handlers u h evs p rc \<Longrightarrow>
     lifespan_step U ok p = Some p' \<Longrightarrow> lifespan_call H settings now (pr_pc p) rc = (r, rc') \<Longrightarrow>
     (ok \<Longrightarrow> r = Inr ()) \<Longrightarrow>
     process_run U H settings handlers u h (evs @ [LifespanStep ok]) p' rc'"
| measured: "process_run U H settings handlers u h evs p rc \<Longrightarrow> can_happen ev rc \<Longrightarrow>
     process_run U H settings handlers u h evs p (measure_event ev rc)"
| request: "process_run U H settings handlers u h evs p rc \<Longrightarrow> pr_pc p = Running \<Longrightarrow>
     c \<in> request_calls H (rc_cache rc) \<Longrightarrow>
     process_run U H settings handlers u h evs p (rc\<lparr>rc_cache := c\<rparr>)"

lemma process_run_projects:
  "process_run U H settings handlers u h evs p rc \<Longrightarrow>
     proc_run U (shutdown_drain_seconds settings) (new_process u handlers) evs p"
  by (induction rule: process_run.induct)
    (auto intro: proc_run.intros proc_step.intros)

lemma request_calls_client: "c' \<in> request_calls H c \<Longrightarrow> hc_client c' = hc_client c \<and> hc_map c' = hc_map c"
  by (auto simp: request_calls_def hz_cache_get_def hz_cache_set_def hz_cache_evict_def traced_def on_map_def
      split: prod.splits if_splits)

subsection \<open>What is up at each place of the lifespan\<close>

text \<open>The gauges with the names a collection reports.\<close>

definition gauge_names :: "string list" where
  "gauge_names =
     [''python_process_memory_rss_bytes'', ''python_process_cpu_usage_ratio'', ''python_eventloop_lag_p99_ms'',
      ''db_pool_connections_open'', ''db_pool_connections_busy'', ''db_pool_connections_idle'',
      ''db_client_queries_duration_avg_ms'']"

definition measuring :: "Settings \<Rightarrow> telemetry \<Rightarrow> bool" where
  "measuring settings t \<longleftrightarrow>
     tm_provider t = Some \<lparr>mp_resource = service_resource settings, mp_endpoint = otel_metrics_url settings,
                           mp_timeout_s = EXPORT_TIMEOUT_S, mp_interval_millis = 15000\<rparr>
     \<and> map in_name (tm_gauges t) = gauge_names \<and> (\<forall>g \<in> set (tm_gauges t). in_unit g = [])
     \<and> tm_listeners t = [''before_cursor_execute'', ''after_cursor_execute'']"

definition idle_cache :: "'h hz_cache \<Rightarrow> bool" where
  "idle_cache c \<longleftrightarrow> \<not> hc_client c \<and> \<not> hc_map c"

definition sampling :: "telemetry \<Rightarrow> event_loop \<Rightarrow> bool" where
  "sampling t l \<longleftrightarrow> (\<exists>task. tm_lag_task t = Some task \<and> ev_lag_tasks l = [task])"

definition untouched :: "telemetry \<Rightarrow> event_loop \<Rightarrow> bool" where
  "untouched t l \<longleftrightarrow>
     tm_provider t = None \<and> tm_lag_task t = None \<and> tm_gauges t = [] \<and> tm_listeners t = [] \<and> ev_lag_tasks l = []"

text \<open>The releases of a complete shutdown.\<close>

definition all_released :: "release list" where
  "all_released = [CacheShutdown, EngineDisposed, MetricsShutdown 5000, TracesShutdown]"

definition resources_at :: "Settings \<Rightarrow> lifespan_pc \<Rightarrow> 'h resources \<Rightarrow> bool" where
  "resources_at settings pc rc \<longleftrightarrow>
     tr_provider (rc_tracing rc) \<noteq> None \<and>
     (let t = rc_telemetry rc; l = rc_loop rc; c = rc_cache rc; released = rc_released rc in
      case pc of
        NotStarted \<Rightarrow> untouched t l \<and> idle_cache c \<and> released = []
      | SettingUpMetrics \<Rightarrow> untouched t l \<and> idle_cache c \<and> released = []
      | ConnectingCache \<Rightarrow> measuring settings t \<and> sampling t l \<and> idle_cache c \<and> released = []
      | ShuttingCache \<Rightarrow> measuring settings t \<and> sampling t l \<and> hc_client c \<and> hc_map c \<and> released = []
      | DisposingEngine \<Rightarrow> measuring settings t \<and> sampling t l \<and> idle_cache c \<and> released = [CacheShutdown]
      | ShuttingMetrics \<Rightarrow> measuring settings t \<and> sampling t l \<and> idle_cache c \<and> released = [CacheShutdown, EngineDisposed]
      | ShuttingTracing \<Rightarrow> ev_lag_tasks l = [] \<and> idle_cache c \<and> released = [CacheShutdown, EngineDisposed, MetricsShutdown 5000]
      | Finished \<Rightarrow> ev_lag_tasks l = [] \<and> idle_cache c \<and> released = all_released
      | Died \<Rightarrow> True
      | _ \<Rightarrow> measuring settings t \<and> sampling t l \<and> hc_client c \<and> hc_map c \<and> released = [])"

lemma setup_measures:
  assumes "untouched t l" and "setup_metrics settings cpu wall (t, l) = (t', l')"
  shows "measuring settings t' \<and> sampling t' l'"
  using assms(2)
  by (auto simp: setup_metrics_def Let_def lag_start_def gauge_def listens_for_def create_instrument_def
      measuring_def sampling_def gauge_names_def assms(1) [unfolded untouched_def])

lemma shutdown_stops:
  assumes "measuring settings t" and "sampling t l" and "shutdown_metrics (t, l) = ((t', l'), calls)"
  shows "ev_lag_tasks l' = [] \<and> calls = [MetricsShutdown 5000]"
  using assms by (auto simp: shutdown_metrics_def lag_stop_def measuring_def sampling_def EXPORT_TIMEOUT_S_def)

lemma connected_cache:
  "hz_cache_connect H host p c = (Inr (), c') \<Longrightarrow> hc_client c' \<and> hc_map c'"
  by (auto simp: hz_cache_connect_def Let_def split: prod.splits sum.splits)

lemma shut_cache:
  "hz_cache_shutdown H c = (Inr (), c') \<Longrightarrow> hc_client c \<Longrightarrow> idle_cache c'"
  by (auto simp: hz_cache_shutdown_def idle_cache_def Let_def split: prod.splits sum.splits)

text \<open>A call of the lifespan that returns takes the resources to the next place.\<close>

lemma resources_at_tracing: "resources_at settings pc rc \<Longrightarrow> tr_provider (rc_tracing rc) \<noteq> None"
  by (simp add: resources_at_def)

lemma resources_at_Died: "resources_at settings Died rc \<longleftrightarrow> tr_provider (rc_tracing rc) \<noteq> None"
  by (simp add: resources_at_def Let_def)

lemma call_keeps_tracing: "lifespan_call H settings now pc rc = (r, rc') \<Longrightarrow> rc_tracing rc' = rc_tracing rc"
  by (cases pc) (auto simp: lifespan_call_def Let_def split: prod.splits)

lemma next_place:
  assumes "lifespan_step U ok p = Some p'" and "pr_pc p' \<noteq> Died"
  shows "(pr_pc p, pr_pc p') \<in> {(SettingUpMetrics, ConnectingCache), (ConnectingCache, ProbingDatabase),
      (ProbingDatabase, Seeding), (Seeding, Running), (Running, ShuttingCache), (ShuttingCache, DisposingEngine),
      (DisposingEngine, ShuttingMetrics), (ShuttingMetrics, ShuttingTracing), (ShuttingTracing, Finished)}
    \<and> (ok \<or> pr_pc p = Running)"
  using assms by (cases "pr_pc p") (auto simp: lifespan_step_def split: if_splits)

lemma call_resources:
  assumes "resources_at settings pc rc" and "lifespan_call H settings now pc rc = (Inr (), rc')"
  shows "pc = SettingUpMetrics \<Longrightarrow> resources_at settings ConnectingCache rc'"
    and "pc = ConnectingCache \<Longrightarrow> resources_at settings ProbingDatabase rc'"
    and "pc = ShuttingCache \<Longrightarrow> resources_at settings DisposingEngine rc'"
    and "pc = DisposingEngine \<Longrightarrow> resources_at settings ShuttingMetrics rc'"
    and "pc = ShuttingMetrics \<Longrightarrow> resources_at settings ShuttingTracing rc'"
    and "pc = ShuttingTracing \<Longrightarrow> resources_at settings Finished rc'"
proof -
  show "resources_at settings ConnectingCache rc'" if pc: "pc = SettingUpMetrics"
  proof -
    obtain t l where t: "setup_metrics settings (fst now) (snd now) (rc_telemetry rc, rc_loop rc) = (t, l)"
      by (cases "setup_metrics settings (fst now) (snd now) (rc_telemetry rc, rc_loop rc)")
    have rc: "rc' = rc\<lparr>rc_telemetry := t, rc_loop := l\<rparr>" using assms(2) pc t by (simp add: lifespan_call_def)
    with assms(1) pc setup_measures [OF _ t] show ?thesis by (simp add: resources_at_def Let_def)
  qed
  show "resources_at settings ProbingDatabase rc'" if pc: "pc = ConnectingCache"
  proof -
    obtain c where c: "hz_cache_connect H (hazelcast_host settings) (hazelcast_port settings) (rc_cache rc) = (Inr (), c)"
      and rc: "rc' = rc\<lparr>rc_cache := c\<rparr>"
      using assms(2) pc by (auto simp: lifespan_call_def split: prod.splits)
    with assms(1) pc connected_cache [OF c] show ?thesis by (simp add: resources_at_def Let_def)
  qed
  show "resources_at settings DisposingEngine rc'" if pc: "pc = ShuttingCache"
  proof -
    obtain c where c: "hz_cache_shutdown H (rc_cache rc) = (Inr (), c)"
      and rc: "rc' = rc\<lparr>rc_cache := c, rc_released := rc_released rc @ [CacheShutdown]\<rparr>"
      using assms(2) pc by (auto simp: lifespan_call_def split: prod.splits)
    with assms(1) pc shut_cache [OF c] show ?thesis by (simp add: resources_at_def Let_def)
  qed
  show "resources_at settings ShuttingMetrics rc'" if pc: "pc = DisposingEngine"
    using assms pc by (auto simp: lifespan_call_def resources_at_def Let_def)
  show "resources_at settings ShuttingTracing rc'" if pc: "pc = ShuttingMetrics"
  proof -
    obtain t l calls where t: "shutdown_metrics (rc_telemetry rc, rc_loop rc) = ((t, l), calls)"
      by (cases "shutdown_metrics (rc_telemetry rc, rc_loop rc)") auto
    have rc: "rc' = rc\<lparr>rc_telemetry := t, rc_loop := l, rc_released := rc_released rc @ calls\<rparr>"
      using assms(2) pc t by (simp add: lifespan_call_def)
    with assms(1) pc shutdown_stops [where settings = settings, OF _ _ t] show ?thesis
      by (simp add: resources_at_def Let_def)
  qed
  show "resources_at settings Finished rc'" if pc: "pc = ShuttingTracing"
    using assms pc
    by (auto simp: lifespan_call_def resources_at_def Let_def all_released_def shutdown_tracing_def)
qed

lemma call_nothing:
  "lifespan_call H settings now pc rc = (r, rc') \<Longrightarrow> pc \<in> {ProbingDatabase, Seeding, Running} \<Longrightarrow> rc' = rc"
  by (auto simp: lifespan_call_def)

lemma resources_at_same:
  "resources_at settings ProbingDatabase = resources_at settings ShuttingCache"
  "resources_at settings Seeding = resources_at settings ShuttingCache"
  "resources_at settings Running = resources_at settings ShuttingCache"
  by (rule ext, simp add: resources_at_def Let_def)+

lemma lifespan_resources:
  assumes "resources_at settings (pr_pc p) rc" and "lifespan_step U ok p = Some p'"
    and "lifespan_call H settings now (pr_pc p) rc = (r, rc')" and "ok \<Longrightarrow> r = Inr ()"
  shows "resources_at settings (pr_pc p') rc'"
proof (cases "pr_pc p' = Died")
  case True
  with call_keeps_tracing [OF assms(3)] resources_at_tracing [OF assms(1)] show ?thesis
    by (simp add: resources_at_Died)
next
  case False
  note place = next_place [OF assms(2) False]
  show ?thesis
  proof (cases "pr_pc p \<in> {ProbingDatabase, Seeding, Running}")
    case True
    with call_nothing [OF assms(3)] place assms(1) show ?thesis by (auto simp: resources_at_same)
  next
    case False
    with place assms(4) have "r = Inr ()" by auto
    from call_resources [OF assms(1) assms(3) [unfolded this]] place False show ?thesis by auto
  qed
qed

lemma other_step_resources:
  assumes "resources_at settings (pr_pc p) rc" and "proc_step U drain p ev p'" and "\<nexists>ok. ev = LifespanStep ok"
  shows "resources_at settings (pr_pc p') rc"
  using assms(2)
proof cases
  case serve
  with assms(1) show ?thesis by (simp add: resources_at_def Let_def)
qed (use assms(1,3) in \<open>auto simp: resources_at_def Let_def\<close>)

lemma measured_resources: "resources_at settings pc rc \<Longrightarrow> resources_at settings pc (measure_event ev rc)"
  by (cases pc) (auto simp: resources_at_def measure_event_def Let_def measuring_def sampling_def untouched_def)

lemma run_resources:
  "process_run U H settings handlers u h evs p rc \<Longrightarrow> resources_at settings (pr_pc p) rc"
proof (induction rule: process_run.induct)
  case launch
  show ?case
    by (simp add: resources_at_def new_process_def app_created_def imported_def new_telemetry_def untouched_def
        idle_cache_def hz_init_def setup_tracing_def Let_def)
next
  case (other evs p rc ev p')
  then show ?case using other_step_resources by blast
next
  case (lifespan evs p rc ok p' now r rc')
  then show ?case using lifespan_resources by blast
next
  case (measured evs p rc ev)
  then show ?case by (simp add: measured_resources)
next
  case (request evs p rc c)
  from request_calls_client [OF request.hyps(3)] request.IH request.hyps(2) show ?case
    by (simp add: resources_at_def Let_def)
qed

subsection \<open>A run from start to end\<close>

definition empty_member :: fake_cache where
  "empty_member = \<lparr>fc_data = [], fc_calls = []\<rparr>"

text \<open>
  On a member in the process no call of the lifespan fails, so the lifespan of a process whose server
  is told to exit goes through all its places.
\<close>

lemma local_call: "fst (lifespan_call local_member settings now pc rc) = Inr ()"
  by (auto simp: lifespan_call_def hz_cache_connect_def hz_cache_shutdown_def local_member_def Let_def
      split: lifespan_pc.split prod.split)

abbreviation local_run :: "proc_event list \<Rightarrow> bool proc \<Rightarrow> fake_cache resources \<Rightarrow> bool" where
  "local_run \<equiv> process_run sample_uvicorn local_member default_settings (\<lambda>_. SigDefault) True empty_member"

lemma local_step:
  assumes "\<exists>evs p rc. local_run evs p rc \<and> p = q" and "lifespan_step sample_uvicorn True q = Some q'"
  shows "\<exists>evs p rc. local_run evs p rc \<and> p = q'"
proof -
  from assms(1) obtain evs rc where r: "local_run evs q rc" by blast
  obtain x rc' where c: "lifespan_call local_member default_settings (0, 0) (pr_pc q) rc = (x, rc')"
    by (cases "lifespan_call local_member default_settings (0, 0) (pr_pc q) rc")
  with local_call [of default_settings "(0, 0)" "pr_pc q" rc] have "x = Inr ()" by simp
  with process_run.lifespan [OF r assms(2) c] show ?thesis by blast
qed

definition served :: "lifespan_pc \<Rightarrow> bool proc" where
  "served pc = (serve_start (new_process True (\<lambda>_. SigDefault)))\<lparr>pr_pc := pc\<rparr>"

lemma local_startup: "\<exists>evs p rc. local_run evs p rc \<and> p = (served Running)\<lparr>pr_ready := True\<rparr>"
proof -
  have "local_run ([] @ [Serve]) (serve_start (new_process True (\<lambda>_. SigDefault))) (app_created default_settings empty_member)"
    by (rule process_run.other [OF process_run.launch]) (auto intro: proc_step.serve simp: new_process_def)
  then have r: "\<exists>evs p rc. local_run evs p rc \<and> p = served SettingUpMetrics"
    by (auto simp: served_def serve_start_def)
  have r: "\<exists>evs p rc. local_run evs p rc \<and> p = served ConnectingCache"
    by (rule local_step [OF r]) (simp add: lifespan_step_def served_def)
  have r: "\<exists>evs p rc. local_run evs p rc \<and> p = served ProbingDatabase"
    by (rule local_step [OF r]) (simp add: lifespan_step_def served_def)
  have r: "\<exists>evs p rc. local_run evs p rc \<and> p = served Seeding"
    by (rule local_step [OF r]) (simp add: lifespan_step_def served_def)
  show ?thesis
    by (rule local_step [OF r]) (simp add: lifespan_step_def served_def)
qed

lemma local_shutdown: "\<exists>evs p rc. local_run evs p rc \<and> pr_pc p = Finished \<and> pr_exit p = Some 0"
proof -
  note r = local_startup
  have r: "\<exists>evs p rc. local_run evs p rc \<and> p = (served ShuttingCache)\<lparr>pr_ready := False\<rparr>"
    by (rule local_step [OF r])
      (simp add: lifespan_step_def served_def, simp add: sample_uvicorn_def serve_start_def capture_enter_def new_process_def)
  have r: "\<exists>evs p rc. local_run evs p rc \<and> p = (served DisposingEngine)\<lparr>pr_ready := False\<rparr>"
    by (rule local_step [OF r]) (simp add: lifespan_step_def served_def)
  have r: "\<exists>evs p rc. local_run evs p rc \<and> p = (served ShuttingMetrics)\<lparr>pr_ready := False\<rparr>"
    by (rule local_step [OF r]) (simp add: lifespan_step_def served_def)
  have r: "\<exists>evs p rc. local_run evs p rc \<and> p = (served ShuttingTracing)\<lparr>pr_ready := False\<rparr>"
    by (rule local_step [OF r]) (simp add: lifespan_step_def served_def)
  have "\<exists>evs p rc. local_run evs p rc \<and> p = (capture_leave ((served ShuttingTracing)\<lparr>pr_ready := False\<rparr>))
      \<lparr>pr_pc := Finished, pr_exit := Some 0\<rparr>"
    by (rule local_step [OF r]) (simp add: lifespan_step_def served_def)
  then obtain evs p rc where "local_run evs p rc"
    "p = (capture_leave ((served ShuttingTracing)\<lparr>pr_ready := False\<rparr>))\<lparr>pr_pc := Finished, pr_exit := Some 0\<rparr>" by blast
  then show ?thesis by (intro exI [of _ evs] exI [of _ p] exI [of _ rc]) simp
qed

subsection \<open>Properties\<close>

text \<open>
  C21. Readiness and the resources. While a process answers readiness with 200 the cache client is
  connected and has its map, the metrics provider has all its gauges and one task samples the event
  loop; and a process that has finished has shut down the cache, the engine, the metrics and the
  traces once each and in this order, left no task and no cache client behind, and exports with a bounded
  timeout.
\<close>

theorem ready_processes_have_their_resources:
  assumes "process_run U H settings handlers u h evs p rc"
  shows "(alive p \<and> rs_status (readiness p) = 200 \<longrightarrow>
       hc_client (rc_cache rc) \<and> hc_map (rc_cache rc) \<and> hz_connected H (rc_cache rc) = hz_is_running H (hc_member (rc_cache rc))
       \<and> measuring settings (rc_telemetry rc) \<and> (\<exists>task. ev_lag_tasks (rc_loop rc) = [task]) \<and> rc_released rc = [])
   \<and> (pr_pc p = Finished \<longrightarrow>
       rc_released rc = [CacheShutdown, EngineDisposed, MetricsShutdown 5000, TracesShutdown]
       \<and> \<not> hz_connected H (rc_cache rc) \<and> (\<forall>before after. \<not> can_happen (SleepEnded before after) rc))"
proof -
  have inv: "resources_at settings (pr_pc p) rc" by (rule run_resources [OF assms])
  have "pr_pc p = Running" if "alive p" "rs_status (readiness p) = 200"
    using run_startup [OF process_run_projects [OF assms]] that
    by (auto simp: readiness_def status_response_def json_response_def split: if_splits)
  with inv show ?thesis
    by (auto simp: resources_at_def Let_def sampling_def hz_connected_def idle_cache_def all_released_def)
qed

theorem ready_processes_have_their_resources_witness:
  "\<exists>evs p rc evs' p' rc'. local_run evs p rc \<and> rs_status (readiness p) = 200 \<and> hz_connected local_member (rc_cache rc)
     \<and> local_run evs' p' rc' \<and> pr_pc p' = Finished
     \<and> rc_released rc' = [CacheShutdown, EngineDisposed, MetricsShutdown 5000, TracesShutdown]"
proof -
  obtain evs p rc where 1: "local_run evs p rc" "p = (served Running)\<lparr>pr_ready := True\<rparr>" using local_startup by blast
  then have 2: "alive p" "rs_status (readiness p) = 200"
    by (simp_all add: served_def alive_def readiness_def status_response_def json_response_def)
  obtain evs' p' rc' where 3: "local_run evs' p' rc'" "pr_pc p' = Finished" using local_shutdown by blast
  have "hz_connected local_member (rc_cache rc)"
    using ready_processes_have_their_resources [OF 1(1)] 2 by (simp add: local_member_def)
  moreover have "rc_released rc' = [CacheShutdown, EngineDisposed, MetricsShutdown 5000, TracesShutdown]"
    using ready_processes_have_their_resources [OF 3(1)] 3(2) by blast
  ultimately show ?thesis using 1(1) 2(2) 3 by blast
qed

text \<open>
  What is exported: a collection reports exactly the gauges \<open>setup_metrics\<close> has registered, in their
  order; no two instruments of the service have the same name, and none has a unit, which the collector
  would append to its name. The instrumentors of the libraries get a meter provider that records
  nothing, so that these are all the series.
\<close>

theorem collection_reports_the_registered_gauges:
  "(let t = fst (setup_metrics settings cpu wall (new_telemetry, l));
        tr = setup_tracing settings (engine_of settings) \<lparr>tr_provider = None, tr_instrumented = []\<rparr>
    in map fst (fst (collect rd s)) = map in_name (tm_gauges t)
       \<and> distinct (map in_name (request_instruments @ tm_gauges t))
       \<and> list_all (\<lambda>i. in_unit i = []) (request_instruments @ tm_gauges t)
       \<and> list_all (\<lambda>i. case i of InstrumentApp _ _ _ noop \<Rightarrow> noop | InstrumentEngine _ _ noop \<Rightarrow> noop) (tr_instrumented tr))"
  by (simp add: setup_metrics_def lag_start_def gauge_def listens_for_def create_instrument_def new_telemetry_def
      collect_def case_prod_unfold request_instruments_def setup_tracing_def Let_def)

end
