(* ===== verification/OpenApi.thy ===== *)
theory OpenApi
  imports Api
begin

section \<open>The OpenAPI document: the last part of \<open>app/errors.py\<close>\<close>

text \<open>
  FastAPI generates the document, which is an argument here; \<open>problemize\<close> edits it in place so that
  it describes the errors the service answers. The document is a JSON value; an edit that fails
  half-way leaves what it has edited, so every function returns the exception and the value.
\<close>

subsection \<open>Documented responses\<close>

definition RESPONSE_DESCRIPTIONS :: "(nat \<times> pystr) list" where
  "RESPONSE_DESCRIPTIONS =
     [(400, lit ''Validation failed or the request was malformed (BAD_USER_INPUT).''),
      (404, lit ''The resource does not exist (NOT_FOUND).''),
      (409, lit ''The request conflicts with the current state (CONFLICT).''),
      (413, lit ''The request body is too large (BAD_USER_INPUT).''),
      (500, lit ''Unexpected error (INTERNAL_SERVER_ERROR).'')]"

text \<open>A status without a description is a KeyError; every entry names the model \<open>Problem\<close>.\<close>

definition problem_responses :: "nat list \<Rightarrow> exn + (nat \<times> pystr) list" where
  "problem_responses statuses =
     seq_results (map (\<lambda>s. case map_of RESPONSE_DESCRIPTIONS s of
                          None \<Rightarrow> Inl (KeyError (nat_str s)) | Some d \<Rightarrow> Inr (s, d)) statuses)"

subsection \<open>Edits of a JSON value\<close>

definition attribute_error :: exn where
  "attribute_error = OtherError ''AttributeError''"

definition type_error :: exn where
  "type_error = OtherError ''TypeError''"

text \<open>\<open>for k, v in j.items(): ...\<close> with the values edited in place.\<close>

fun edit_members :: "(pystr \<Rightarrow> json \<Rightarrow> exn option \<times> json) \<Rightarrow> (pystr \<times> json) list \<Rightarrow> exn option \<times> (pystr \<times> json) list" where
  "edit_members f [] = (None, [])"
| "edit_members f ((k, v) # kvs) =
     (case f k v of
        (Some e, v') \<Rightarrow> (Some e, (k, v') # kvs)
      | (None, v') \<Rightarrow> (case edit_members f kvs of (e, kvs') \<Rightarrow> (e, (k, v') # kvs')))"

definition edit_items :: "(pystr \<Rightarrow> json \<Rightarrow> exn option \<times> json) \<Rightarrow> json \<Rightarrow> exn option \<times> json" where
  "edit_items f j =
     (case j of JObj kvs \<Rightarrow> (case edit_members f kvs of (e, kvs') \<Rightarrow> (e, JObj kvs')) | _ \<Rightarrow> (Some attribute_error, j))"

text \<open>\<open>j.get(k, {})\<close>, edited in place; the default is a fresh dictionary that is dropped.\<close>

definition edit_at :: "string \<Rightarrow> (json \<Rightarrow> exn option \<times> json) \<Rightarrow> json \<Rightarrow> exn option \<times> json" where
  "edit_at k f j =
     (case j of
        JObj kvs \<Rightarrow>
          (case map_of kvs (lit k) of
             None \<Rightarrow> (fst (f (JObj [])), j)
           | Some v \<Rightarrow> (case f v of (e, v') \<Rightarrow> (e, JObj (dict_set (lit k) v' kvs))))
      | _ \<Rightarrow> (Some attribute_error, j))"

definition pop_keys :: "pystr list \<Rightarrow> json \<Rightarrow> exn option \<times> json" where
  "pop_keys ks j =
     (case j of JObj kvs \<Rightarrow> (None, JObj (fold dict_pop ks kvs)) | _ \<Rightarrow> (Some attribute_error, j))"

text \<open>One edit after the other.\<close>

definition and_then :: "(json \<Rightarrow> exn option \<times> json) \<Rightarrow> (json \<Rightarrow> exn option \<times> json) \<Rightarrow> json \<Rightarrow> exn option \<times> json" where
  "and_then f g j = (case f j of (Some e, j') \<Rightarrow> (Some e, j') | (None, j') \<Rightarrow> g j')"

subsection \<open>\<open>_problemize\<close>\<close>

definition APPLICATION_JSON :: pystr where
  "APPLICATION_JSON = lit ''application/json''"

text \<open>
  \<open>"application/json" in content\<close> and the \<open>pop\<close> that follows: on a dictionary the entry is moved; a
  list or a string may contain the text but has no entry to pop; the other values have no \<open>in\<close>.
\<close>

definition move_to_problem :: "json \<Rightarrow> exn option \<times> json" where
  "move_to_problem content =
     (case content of
        JObj kvs \<Rightarrow>
          (case map_of kvs APPLICATION_JSON of
             None \<Rightarrow> (None, content)
           | Some v \<Rightarrow> (None, JObj (dict_set PROBLEM_JSON v (dict_pop APPLICATION_JSON kvs))))
      | JList xs \<Rightarrow> (if JStr APPLICATION_JSON \<in> set xs then Some type_error else None, content)
      | JStr s \<Rightarrow> (if sublist APPLICATION_JSON s then Some attribute_error else None, content)
      | _ \<Rightarrow> (Some type_error, content))"

text \<open>\<open>int(status)\<close> of a key that is not a number (\<open>default\<close>) is a ValueError.\<close>

definition problemize_response :: "pystr \<Rightarrow> json \<Rightarrow> exn option \<times> json" where
  "problemize_response status =
     edit_at ''content''
       (\<lambda>content. case py_int status of
           None \<Rightarrow> (Some (ValueError (lit ''invalid literal for int()'')), content)
         | Some n \<Rightarrow> if n \<ge> 400 then move_to_problem content else (None, content))"

definition problemize_operation :: "json \<Rightarrow> exn option \<times> json" where
  "problemize_operation = edit_at ''responses'' (and_then (pop_keys [lit ''422'']) (edit_items problemize_response))"

definition problemize :: "json \<Rightarrow> exn option \<times> json" where
  "problemize =
     and_then (edit_at ''paths'' (edit_items (\<lambda>_. edit_items (\<lambda>_. problemize_operation))))
       (edit_at ''components''
         (edit_at ''schemas'' (pop_keys [lit ''HTTPValidationError'', lit ''ValidationError''])))"

text \<open>
  \<open>openapi\<close>: \<open>generate()\<close> caches the document it returns, which is then edited in place; later calls
  return the cached one.
\<close>

definition openapi :: "json \<Rightarrow> json option \<Rightarrow> (exn + json) \<times> json option" where
  "openapi generated cached =
     (case cached of
        Some schema \<Rightarrow> (Inr schema, cached)
      | None \<Rightarrow>
          (case problemize generated of
             (Some e, schema) \<Rightarrow> (Inl e, Some schema)
           | (None, schema) \<Rightarrow> (Inr schema, Some schema)))"

subsection \<open>What an edit does to a lookup\<close>

lemma edit_members_ok:
  assumes "edit_members f kvs = (None, kvs')"
  shows "map_of kvs' k = map_option (\<lambda>v. snd (f k v)) (map_of kvs k)
    \<and> (\<forall>v. map_of kvs k = Some v \<longrightarrow> fst (f k v) = None)"
  using assms
  by (induction f kvs arbitrary: kvs' rule: edit_members.induct) (auto split: prod.splits option.splits)

lemma edit_items_ok:
  assumes "edit_items f j = (None, j')"
  shows "json_get k j' = map_option (\<lambda>v. snd (f k v)) (json_get k j)"
    and "json_get k j = Some v \<Longrightarrow> f k v = (None, snd (f k v))"
  using assms edit_members_ok
  by (cases j; fastforce simp: edit_items_def prod_eq_iff split: prod.splits)+

lemma edit_at_ok:
  assumes "edit_at k f j = (None, j')"
  shows "json_get k' j' = (if k' = lit k then map_option (\<lambda>v. snd (f v)) (json_get k' j) else json_get k' j)"
    and "json_get (lit k) j = Some v \<Longrightarrow> f v = (None, snd (f v))"
  using assms by (cases j; auto simp: edit_at_def prod_eq_iff split: prod.splits option.splits)+

lemma pop_keys_ok:
  assumes "pop_keys ks j = (None, j')"
  shows "json_get k j' = (if k \<in> set ks then None else json_get k j)"
proof -
  have "map_of (fold dict_pop ks kvs) = (\<lambda>k. if k \<in> set ks then None else map_of kvs k)" for kvs :: "(pystr \<times> json) list"
    by (induction ks arbitrary: kvs) (auto simp: fun_eq_iff)
  with assms show ?thesis by (cases j) (auto simp: pop_keys_def)
qed

lemma and_then_ok:
  assumes "and_then f g j = (None, j')"
  obtains j1 where "f j = (None, j1)" "g j1 = (None, j')"
  using assms by (auto simp: and_then_def split: prod.splits option.splits)

subsection \<open>Looking into the document\<close>

definition lookup :: "pystr list \<Rightarrow> json \<Rightarrow> json option" where
  "lookup ks j = fold (\<lambda>k r. Option.bind r (json_get k)) ks (Some j)"

lemma fold_bind_None [simp]: "fold (\<lambda>k r. Option.bind r (json_get k)) ks None = None"
  by (induction ks) simp_all

lemma lookup_simps [simp]:
  "lookup [] j = Some j" "lookup (k # ks) j = Option.bind (json_get k j) (lookup ks)"
  by (simp_all add: lookup_def) (cases "json_get k j"; simp add: lookup_def)

lemma bind_lookup_Nil [simp]: "Option.bind r (lookup []) = r"
  by (cases r) simp_all

lemma lookup_append: "lookup (ks @ ks') j = Option.bind (lookup ks j) (lookup ks')"
proof (induction ks arbitrary: j)
  case (Cons k ks)
  then show ?case by (cases "json_get k j") simp_all
qed simp

definition operation_response :: "json \<Rightarrow> pystr \<Rightarrow> pystr \<Rightarrow> pystr \<Rightarrow> json option" where
  "operation_response doc path verb status = lookup [lit ''paths'', path, verb, lit ''responses'', status] doc"

definition media_schema :: "json \<Rightarrow> pystr \<Rightarrow> json option" where
  "media_schema response media = lookup [lit ''content'', media] response"

text \<open>The schema a response should have for a media type, from the generated one.\<close>

definition documented_media :: "nat \<Rightarrow> json \<Rightarrow> pystr \<Rightarrow> json option" where
  "documented_media n r t =
     (if n \<ge> 400 then
        (if t = APPLICATION_JSON then None
         else if t = PROBLEM_JSON then
           (case media_schema r APPLICATION_JSON of Some v \<Rightarrow> Some v | None \<Rightarrow> media_schema r PROBLEM_JSON)
         else media_schema r t)
      else media_schema r t)"

lemma operation_ok:
  assumes "problemize_operation opr = (None, opr')"
  shows "lookup [lit ''responses'', status] opr' =
      (if status = lit ''422'' then None
       else map_option (\<lambda>r. snd (problemize_response status r)) (lookup [lit ''responses'', status] opr))"
    and "lookup [lit ''responses'', status] opr = Some r \<Longrightarrow> status \<noteq> lit ''422'' \<Longrightarrow>
      problemize_response status r = (None, snd (problemize_response status r))"
proof -
  note e = edit_at_ok [OF assms [unfolded problemize_operation_def]]
  have rs: "\<exists>x'. edit_items problemize_response x' = (None, snd (and_then (pop_keys [lit ''422'']) (edit_items problemize_response) x))
      \<and> (\<forall>k. json_get k x' = (if k = lit ''422'' then None else json_get k x))"
    if "json_get (lit ''responses'') opr = Some x" for x
  proof -
    from and_then_ok [OF e(2) [OF that]] obtain x' where
      "pop_keys [lit ''422''] x = (None, x')"
      "edit_items problemize_response x' = (None, snd (and_then (pop_keys [lit ''422'']) (edit_items problemize_response) x))" .
    with pop_keys_ok show ?thesis by fastforce
  qed
  show "lookup [lit ''responses'', status] opr' =
      (if status = lit ''422'' then None
       else map_option (\<lambda>r. snd (problemize_response status r)) (lookup [lit ''responses'', status] opr))"
  proof (cases "json_get (lit ''responses'') opr")
    case None
    then show ?thesis by (simp add: e(1))
  next
    case (Some x)
    with rs obtain x' where x': "edit_items problemize_response x'
        = (None, snd (and_then (pop_keys [lit ''422'']) (edit_items problemize_response) x))"
      "\<forall>k. json_get k x' = (if k = lit ''422'' then None else json_get k x)" by blast
    from edit_items_ok(1) [OF x'(1)] x'(2) Some show ?thesis by (simp add: e(1))
  qed
  show "problemize_response status r = (None, snd (problemize_response status r))"
    if "lookup [lit ''responses'', status] opr = Some r" "status \<noteq> lit ''422''"
  proof -
    from that(1) obtain x where x: "json_get (lit ''responses'') opr = Some x" "json_get status x = Some r"
      by (auto simp: bind_eq_Some_conv)
    with rs obtain x' where "edit_items problemize_response x'
        = (None, snd (and_then (pop_keys [lit ''422'']) (edit_items problemize_response) x))"
      "\<forall>k. json_get k x' = (if k = lit ''422'' then None else json_get k x)" by blast
    with edit_items_ok(2) x(2) that(2) show ?thesis by simp
  qed
qed

lemma paths_ok:
  assumes "edit_at ''paths'' (edit_items (\<lambda>_. edit_items (\<lambda>_. f))) doc = (None, doc')"
  shows "lookup [lit ''paths'', path, verb] doc' = map_option (\<lambda>opr. snd (f opr)) (lookup [lit ''paths'', path, verb] doc)"
    and "lookup [lit ''paths'', path, verb] doc = Some opr \<Longrightarrow> f opr = (None, snd (f opr))"
proof -
  note e = edit_at_ok [OF assms]
  show "lookup [lit ''paths'', path, verb] doc' = map_option (\<lambda>opr. snd (f opr)) (lookup [lit ''paths'', path, verb] doc)"
  proof (cases "json_get (lit ''paths'') doc")
    case None
    then show ?thesis by (simp add: e(1))
  next
    case (Some ps)
    note items = edit_items_ok [OF e(2) [OF Some]]
    show ?thesis
    proof (cases "json_get path ps")
      case None
      with Some show ?thesis by (simp add: e(1) items(1))
    next
      case (Some item)
      from edit_items_ok(1) [OF items(2) [OF Some]] Some \<open>json_get (lit ''paths'') doc = Some ps\<close>
      show ?thesis by (simp add: e(1) items(1))
    qed
  qed
  show "f opr = (None, snd (f opr))" if "lookup [lit ''paths'', path, verb] doc = Some opr"
  proof -
    from that obtain ps item where x: "json_get (lit ''paths'') doc = Some ps" "json_get path ps = Some item"
      "json_get verb item = Some opr" by (auto simp: bind_eq_Some_conv)
    from edit_items_ok(2) [OF edit_items_ok(2) [OF e(2) [OF x(1)] x(2)] x(3)] show ?thesis .
  qed
qed

lemma schemas_ok:
  assumes "edit_at ''components'' (edit_at ''schemas'' (pop_keys ks)) doc = (None, doc')"
  shows "lookup [lit ''components'', lit ''schemas'', name] doc' =
      (if name \<in> set ks then None else lookup [lit ''components'', lit ''schemas'', name] doc)"
    and "lookup [lit ''paths'', path, verb] doc' = lookup [lit ''paths'', path, verb] doc"
proof -
  note e = edit_at_ok [OF assms]
  show "lookup [lit ''paths'', path, verb] doc' = lookup [lit ''paths'', path, verb] doc" by (simp add: e(1))
  show "lookup [lit ''components'', lit ''schemas'', name] doc' =
      (if name \<in> set ks then None else lookup [lit ''components'', lit ''schemas'', name] doc)"
  proof (cases "json_get (lit ''components'') doc")
    case None
    then show ?thesis by (simp add: e(1))
  next
    case (Some c)
    note s = edit_at_ok [OF e(2) [OF Some]]
    show ?thesis
    proof (cases "json_get (lit ''schemas'') c")
      case None
      with Some show ?thesis by (simp add: e(1) s(1))
    next
      case (Some names)
      from pop_keys_ok [OF s(2) [OF Some], of name] Some \<open>json_get (lit ''components'') doc = Some c\<close>
      show ?thesis by (simp add: e(1) s(1))
    qed
  qed
qed

lemma operation_response_split:
  "operation_response d path verb status
     = Option.bind (lookup [lit ''paths'', path, verb] d) (lookup [lit ''responses'', status])"
  using lookup_append [of "[lit ''paths'', path, verb]" "[lit ''responses'', status]" d]
  by (simp only: operation_response_def append_Cons append_Nil)

lemma problemize_ok:
  assumes "problemize doc = (None, doc')"
  shows "operation_response doc' path verb status =
      (if status = lit ''422'' then None
       else map_option (\<lambda>r. snd (problemize_response status r)) (operation_response doc path verb status))"
    and "operation_response doc path verb status = Some r \<Longrightarrow> status \<noteq> lit ''422'' \<Longrightarrow>
      problemize_response status r = (None, snd (problemize_response status r))"
    and "lookup [lit ''components'', lit ''schemas'', name] doc' =
      (if name \<in> {lit ''HTTPValidationError'', lit ''ValidationError''} then None
       else lookup [lit ''components'', lit ''schemas'', name] doc)"
proof -
  obtain doc1 where 1: "edit_at ''paths'' (edit_items (\<lambda>_. edit_items (\<lambda>_. problemize_operation))) doc = (None, doc1)"
    and 2: "edit_at ''components'' (edit_at ''schemas'' (pop_keys [lit ''HTTPValidationError'', lit ''ValidationError''])) doc1
      = (None, doc')"
    using assms unfolding problemize_def by (rule and_then_ok)
  note p = paths_ok [OF 1, of path verb]
  show "operation_response doc' path verb status =
      (if status = lit ''422'' then None
       else map_option (\<lambda>r. snd (problemize_response status r)) (operation_response doc path verb status))"
  proof (cases "lookup [lit ''paths'', path, verb] doc")
    case None
    with p(1) schemas_ok(2) [OF 2] show ?thesis by (simp only: operation_response_split) simp
  next
    case (Some opr)
    with p(1) schemas_ok(2) [OF 2] operation_ok(1) [OF p(2) [OF Some], of status] show ?thesis
      by (simp only: operation_response_split option.map bind.simps)
  qed
  show "problemize_response status r = (None, snd (problemize_response status r))"
    if r: "operation_response doc path verb status = Some r" "status \<noteq> lit ''422''"
  proof -
    from r(1) obtain opr where "lookup [lit ''paths'', path, verb] doc = Some opr" "lookup [lit ''responses'', status] opr = Some r"
      unfolding operation_response_split bind_eq_Some_conv by blast
    with operation_ok(2) [OF p(2)] r(2) show ?thesis by blast
  qed
  have "json_get (lit ''components'') doc1 = json_get (lit ''components'') doc" using edit_at_ok(1) [OF 1] by simp
  then show "lookup [lit ''components'', lit ''schemas'', name] doc' =
      (if name \<in> {lit ''HTTPValidationError'', lit ''ValidationError''} then None
       else lookup [lit ''components'', lit ''schemas'', name] doc)"
    using schemas_ok(1) [OF 2, of name] by simp
qed

lemma move_to_problem_ok:
  assumes "fst (move_to_problem content) = None"
  shows "json_get t (snd (move_to_problem content)) =
    (if t = APPLICATION_JSON then None
     else if t = PROBLEM_JSON then
       (case json_get APPLICATION_JSON content of Some v \<Rightarrow> Some v | None \<Rightarrow> json_get PROBLEM_JSON content)
     else json_get t content)"
proof -
  have d: "PROBLEM_JSON \<noteq> APPLICATION_JSON" by (simp add: PROBLEM_JSON_def APPLICATION_JSON_def)
  show ?thesis using assms d by (cases content) (auto simp: move_to_problem_def split: option.splits)
qed

lemma problemize_response_ok:
  assumes "problemize_response status r = (None, r')"
  obtains n where "py_int status = Some n"
    "media_schema r' t =
      documented_media n r t"
proof -
  let ?f = "\<lambda>content. case py_int status of
        None \<Rightarrow> (Some (ValueError (lit ''invalid literal for int()'')), content)
      | Some n \<Rightarrow> if n \<ge> 400 then move_to_problem content else (None, content)"
  note e = edit_at_ok [OF assms [unfolded problemize_response_def]]
  show ?thesis
  proof (cases "json_get (lit ''content'') r")
    case None
    from assms None have "fst (?f (JObj [])) = None"
      by (cases r) (auto simp: problemize_response_def edit_at_def)
    then obtain n where "py_int status = Some n" by (auto split: option.splits)
    with that show ?thesis by (simp add: documented_media_def media_schema_def e(1) None)
  next
    case (Some content)
    from e(2) [OF Some] obtain n where n: "py_int status = Some n" by (auto split: option.splits)
    have ms: "media_schema r k = json_get k content" for k by (simp add: media_schema_def Some)
    have ms': "media_schema r' t = json_get t (snd (?f content))" by (simp add: media_schema_def e(1) Some)
    show ?thesis
    proof (rule that [OF n], cases "n \<ge> 400")
      case True
      with e(2) [OF Some] n have "fst (move_to_problem content) = None" by (simp add: prod_eq_iff)
      from move_to_problem_ok [OF this, of t] True n show "media_schema r' t =
        documented_media n r t" by (simp add: ms ms' documented_media_def split: option.split)
    next
      case False
      with n show "media_schema r' t =
        documented_media n r t" by (simp add: ms ms' documented_media_def split: option.split)
    qed
  qed
qed

text \<open>Every error status a route declares has a description, so building the routers raises no KeyError.\<close>

lemma declared_errors_are_described:
  "problem_responses (filter (\<lambda>s. s \<ge> 400) (declared req))
     = Inr (map (\<lambda>s. (s, the (map_of RESPONSE_DESCRIPTIONS s))) (filter (\<lambda>s. s \<ge> 400) (declared req)))"
  by (cases req) (simp_all add: declared_def problem_responses_def RESPONSE_DESCRIPTIONS_def)

subsection \<open>Properties\<close>

text \<open>
  C38. The served document describes the errors as they are answered: no operation documents FastAPI's
  422, the error responses (400 and up) have application/problem+json with the schema that was under
  application/json, the other responses are as generated, the models of the 422 are gone, and the
  document is made once and then served from the cache.
\<close>

theorem openapi_describes_the_errors:
  assumes "openapi generated None = (Inr doc, cached)"
    and "operation_response generated path verb status = Some r" and "status \<noteq> lit ''422''"
  shows "operation_response doc path verb (lit ''422'') = None
    \<and> (\<exists>r' n. operation_response doc path verb status = Some r' \<and> py_int status = Some n
        \<and> media_schema r' t =
            documented_media n r t)
    \<and> lookup [lit ''components'', lit ''schemas'', lit ''HTTPValidationError''] doc = None
    \<and> lookup [lit ''components'', lit ''schemas'', lit ''ValidationError''] doc = None
    \<and> openapi generated cached = (Inr doc, cached)"
proof -
  have p: "problemize generated = (None, doc)" and c: "cached = Some doc"
    using assms(1) by (auto simp: openapi_def split: prod.splits option.splits)
  note ok = problemize_ok [OF p]
  from problemize_response_ok [OF ok(2) [OF assms(2,3)], of t] obtain n where "py_int status = Some n"
    "media_schema (snd (problemize_response status r)) t =
      documented_media n r t" .
  with ok(1) [of path verb] ok(3) assms(2,3) c show ?thesis by (simp add: openapi_def)
qed

definition sample_operation :: json where
  "sample_operation =
     JObj [(lit ''responses'', JObj
       [(lit ''200'', JObj [(lit ''content'', JObj [(APPLICATION_JSON, JStr (lit ''Message''))])]),
        (lit ''404'', JObj [(lit ''content'', JObj [(APPLICATION_JSON, JStr (lit ''Problem''))])]),
        (lit ''422'', JObj [])])]"

definition sample_document :: json where
  "sample_document =
     JObj [(lit ''paths'', JObj [(lit ''/messages'', JObj [(lit ''get'', sample_operation)])]),
           (lit ''components'', JObj [(lit ''schemas'', JObj [(lit ''ValidationError'', JNull)])])]"

theorem openapi_describes_the_errors_witness:
  "\<exists>doc r'. openapi sample_document None = (Inr doc, Some doc)
     \<and> operation_response doc (lit ''/messages'') (lit ''get'') (lit ''404'') = Some r'
     \<and> media_schema r' PROBLEM_JSON = Some (JStr (lit ''Problem''))"
proof -
  have n: "py_int (lit ''200'') = Some 200" "py_int (lit ''404'') = Some 404"
    by (simp_all add: py_int_def py_isdigit_def is_ascii_digit_def digits_val_def lit_def)
  have "\<exists>doc. openapi sample_document None = (Inr doc, Some doc)"
    by (simp add: openapi_def problemize_def and_then_def edit_at_def edit_items_def sample_document_def
        sample_operation_def problemize_operation_def pop_keys_def dict_pop_def problemize_response_def n
        move_to_problem_def APPLICATION_JSON_def PROBLEM_JSON_def)
  then obtain doc where doc: "openapi sample_document None = (Inr doc, Some doc)" ..
  let ?r = "JObj [(lit ''content'', JObj [(APPLICATION_JSON, JStr (lit ''Problem''))])]"
  have r: "operation_response sample_document (lit ''/messages'') (lit ''get'') (lit ''404'') = Some ?r"
    by (simp add: operation_response_def sample_document_def sample_operation_def)
  have s: "lit ''404'' \<noteq> lit ''422''" by simp
  have d: "PROBLEM_JSON \<noteq> APPLICATION_JSON" by (simp add: PROBLEM_JSON_def APPLICATION_JSON_def)
  have m: "media_schema ?r APPLICATION_JSON = Some (JStr (lit ''Problem''))" by (simp add: media_schema_def)
  from openapi_describes_the_errors [OF doc r s, of PROBLEM_JSON] n(2) d m doc show ?thesis by (auto simp: documented_media_def)
qed

end
