(* ===== verification/Progress.thy ===== *)
theory Progress
  imports Concurrency
begin

section \<open>Requests end, and a conflict is healed\<close>

text \<open>
  Two promises to a client. A request makes a bounded number of awaits however it is interleaved
  with others, and only a lock of another session can hold it up. And a client whose PATCH was
  refused because it had read a stale message from the cache reads the current one the next time.
\<close>

subsection \<open>The number of awaits\<close>

text \<open>\<open>within n\<close>: the program ends after at most \<open>n\<close> awaits, whatever they return.\<close>

primrec within :: "'a prog \<Rightarrow> nat \<Rightarrow> bool" where
  "within (Return x) = (\<lambda>n. True)"
| "within (Raise e) = (\<lambda>n. True)"
| "within (Exec st k h) = (\<lambda>n. case n of 0 \<Rightarrow> False | Suc m \<Rightarrow> (\<forall>r. within (k r) m) \<and> (\<forall>e. within (h e) m))"
| "within (Commit k h) = (\<lambda>n. case n of 0 \<Rightarrow> False | Suc m \<Rightarrow> within k m \<and> (\<forall>e. within (h e) m))"
| "within (Rollback k) = (\<lambda>n. case n of 0 \<Rightarrow> False | Suc m \<Rightarrow> within k m)"
| "within (CacheGet key k) = (\<lambda>n. case n of 0 \<Rightarrow> False | Suc m \<Rightarrow> \<forall>v. within (k v) m)"
| "within (CacheSet key v k) = (\<lambda>n. case n of 0 \<Rightarrow> False | Suc m \<Rightarrow> within k m)"
| "within (CacheEvict key k) = (\<lambda>n. case n of 0 \<Rightarrow> False | Suc m \<Rightarrow> within k m)"

lemma within_bind: "within p n \<Longrightarrow> (\<And>x. within (f x) 0) \<Longrightarrow> within (bind_prog p f) n"
proof (induction p arbitrary: n)
  case (Return x)
  have "within q 0 \<Longrightarrow> within q n" for q :: "'b prog" by (cases q) simp_all
  with Return show ?case by simp
next
  case (Exec st k h)
  have "within (k r) m \<Longrightarrow> within (bind_prog (k r) f) m" "within (h e) m \<Longrightarrow> within (bind_prog (h e) f) m" for r e m
    using Exec by simp_all
  with Exec.prems show ?case by (auto split: nat.splits)
qed (auto split: nat.splits)

lemma within_advance:
  assumes "within t n" and "advance E C i t w = Some (t', s', c')"
  shows "0 < n \<and> within t' (n - 1)"
  using assms
  by (cases t; cases w; cases n)
    (auto split: option.splits prod.splits reply.splits commit_reply.splits sum.splits)

lemma within_reraise [simp]: "within (reraise e) n"
  by (simp add: reraise_def)

lemma within_scalar:
  "(\<And>x. within (k x) n) \<Longrightarrow> within (scalar_one_or_none rs k) n"
  "(\<And>x. within (k' x) n) \<Longrightarrow> within (scalar_one rs k') n"
  by (auto simp: scalar_one_or_none_def scalar_one_def split: list.split)

lemma within_load: "(\<And>x. within (k x) n) \<Longrightarrow> within (load_message i k) (Suc n)"
  by (auto simp: load_message_def intro!: within_scalar split: option.split)

lemma handlers_within:
  "within (list_messages limit offset) 2" "within (get_message J k) 3" "within (create_message p) 3"
  "within (update_message k q) 4" "within (delete_message k) 3"
  "within (list_authors limit offset) 2" "within (get_author k inc) 1" "within (create_author ap) 2"
  "within (update_author k aq) 2" "within (delete_author k) 3"
  by (auto simp: eval_nat_numeral svc_defs intro!: within_scalar within_load split: option.split)

lemma within_Suc: "within p n \<Longrightarrow> within p (Suc n)"
proof (induction p arbitrary: n)
  case (Exec st k h)
  have k: "within (k r) m \<Longrightarrow> within (k r) (Suc m)" and h: "within (h e) m \<Longrightarrow> within (h e) (Suc m)" for r e m
    using Exec.IH by simp_all
  from Exec.prems k h show ?case by (cases n) simp_all
next
  case (CacheGet key k)
  have k: "within (k r) m \<Longrightarrow> within (k r) (Suc m)" for r m using CacheGet.IH by simp
  from CacheGet.prems k show ?case by (cases n) simp_all
qed (auto split: nat.splits)

lemma within_mono: "within p m \<Longrightarrow> m \<le> n \<Longrightarrow> within p n"
  by (induction n) (auto simp: le_Suc_eq intro: within_Suc)

lemma route_within:
  assumes "route N req = Inr p"
  shows "within p 4"
proof -
  have b: "within q n \<Longrightarrow> n \<le> 4 \<Longrightarrow> within (bind_prog q (\<lambda>x. Return (g x))) 4" for q :: "'b prog" and n and g :: "'b \<Rightarrow> response"
    by (rule within_mono [OF within_bind]) simp_all
  note each = handlers_within [THEN b]
  from assms show ?thesis
    by (cases req) (auto simp: route_defs
        intro: each split: sum.splits)
qed

lemma tasks_within: "within (tasks N reqs i) 4"
  by (auto simp: tasks_def dest: route_within split: option.split sum.split)

lemma reach_within:
  assumes "reach E B C T w sched cf" and "\<And>i. within (T i) n"
  shows "count_list sched i \<le> n \<and> within (cf_task cf i) (n - count_list sched i)"
  using assms(1)
proof (induction rule: reach.induct)
  case start
  then show ?case using assms(2) by simp
next
  case (await sched cf j r)
  obtain t s' c' where r: "r = (t, s', c')" by (cases r)
  show ?case
  proof (cases "j = i")
    case True
    with await.IH within_advance [OF _ await.hyps(2) [unfolded r], of "n - count_list sched i"] r show ?thesis by auto
  next
    case False
    with await.IH r show ?thesis by simp
  qed
qed simp

text \<open>What holds a program up: nothing but a statement that waits for a lock.\<close>

lemma advance_None:
  "advance E C i t (s, c) = None \<Longrightarrow> \<not> has_ended t \<Longrightarrow> \<exists>st k h. t = Exec st k h \<and> e_exec E i st s = None"
  by (cases t) (auto split: option.splits prod.splits reply.splits commit_reply.splits sum.splits)

subsection \<open>After a conflict\<close>

lemma alone_get_message_uncached:
  assumes "schema_ok d" and "m (uuid_str k) = None"
  shows "\<exists>m'. alone (get_message J k) u d (Tx d) m = Some (answer (spec_get_message k (abs_store d)), d, m')"
  using assms by (cases "shown_message (abs_store d) k") (simp_all add: alone_get_message spec_get_message_def)

lemma spec_update_cases:
  obtains (missing) "shown_message st k = None" "fst (spec_update_message k p st) = Inl (message_not_found k)"
      "snd (spec_update_message k p st) = st"
  | (stale) m where "st_messages st k = Some m" "m_version m \<noteq> mu_version p"
      "fst (spec_update_message k p st) = Inl (stale_version k (mu_version p))" "snd (spec_update_message k p st) = st"
  | (updated) out where "fst (spec_update_message k p st) = Inr out"
      "shown_message (snd (spec_update_message k p st)) k = Some out"
proof (cases "st_messages st k")
  case None
  then show ?thesis by (intro missing) (simp_all add: spec_update_message_def shown_message_def)
next
  case (Some m)
  let ?st = "st\<lparr>st_messages := (st_messages st)(k \<mapsto> changed_message p m)\<rparr>"
  show ?thesis
  proof (cases "m_version m = mu_version p")
    case False
    with Some show ?thesis by (intro stale) (simp_all add: spec_update_message_def)
  next
    case True
    show ?thesis
    proof (cases "shown_message ?st k")
      case None
      with Some True have "shown_message st k = None"
        by (auto simp: shown_message_def MessageOut_of_def changed_message_def split: option.splits)
      with None Some True show ?thesis by (intro missing) (simp_all add: spec_update_message_def Let_def)
    next
      case (Some out)
      with \<open>st_messages st k = Some m\<close> True show ?thesis
        by (intro updated [of out]) (simp_all add: spec_update_message_def Let_def)
    qed
  qed
qed

subsection \<open>Properties\<close>

text \<open>
  C10. Every request ends: in any interleaving with any other requests a session makes at most four
  awaits, so no handler loops; one that has not ended can go on unless its statement waits for a lock
  another session holds, and it never waits when no other session is at work.
\<close>

theorem every_request_ends:
  assumes "sql_engine E B" and "reach E B C (tasks N reqs) w sched cf"
  shows "count_list sched i \<le> 4
    \<and> (\<not> has_ended (cf_task cf i) \<longrightarrow>
         count_list sched i < 4
         \<and> (advance E C i (cf_task cf i) (cf_db cf, cf_cache cf) \<noteq> None
            \<or> (\<exists>st k h j. cf_task cf i = Exec st k h \<and> e_exec E i st (cf_db cf) = None
                 \<and> j \<noteq> i \<and> ob_active B j (cf_db cf))))"
proof -
  from reach_within [OF assms(2) tasks_within]
  have n: "count_list sched i \<le> 4" "within (cf_task cf i) (4 - count_list sched i)" by simp_all
  have "count_list sched i < 4" if "\<not> has_ended (cf_task cf i)"
  proof (rule ccontr)
    assume "\<not> count_list sched i < 4"
    with n have "within (cf_task cf i) 0" by simp
    with that show False by (cases "cf_task cf i") simp_all
  qed
  moreover have "\<exists>st k h j. cf_task cf i = Exec st k h \<and> e_exec E i st (cf_db cf) = None
      \<and> j \<noteq> i \<and> ob_active B j (cf_db cf)"
    if e: "\<not> has_ended (cf_task cf i)" and a: "advance E C i (cf_task cf i) (cf_db cf, cf_cache cf) = None"
  proof -
    from advance_None [OF a e] obtain st k h where t: "cf_task cf i = Exec st k h" "e_exec E i st (cf_db cf) = None"
      by blast
    with sql_engine.exec_progress [OF assms(1), of i "cf_db cf" st] obtain j where "j \<noteq> i" "ob_active B j (cf_db cf)"
      by fastforce
    with t show ?thesis by blast
  qed
  ultimately show ?thesis using n(1) by blast
qed

theorem every_request_ends_witness:
  "\<exists>cf sched. reach ref_engine ref_obs FakeCache (tasks sample_env sample_requests) (sample_state, empty_cache) sched cf
     \<and> has_ended (cf_task cf 0) \<and> count_list sched 0 \<le> 4"
proof -
  from sample_reach obtain cf sched where
    r: "reach ref_engine ref_obs FakeCache (tasks sample_env sample_requests) (sample_state, empty_cache) sched cf"
    "cf_task cf 0 = Return (json_response 200 [] (message_json sample_env patched_out))" by blast
  from every_request_ends [OF ref.sql_engine_axioms r(1), of 0] r show ?thesis by fastforce
qed

text \<open>
  C9. A conflict does not repeat itself: whatever the cache held, stale or not, after a PATCH the next
  GET of the message answers from the tables: after a 409 with the current message, whose version is
  not the one the client sent, after a 404 with 404, and after a 200 with what the PATCH answered.
\<close>

theorem refetch_after_conflict_is_current:
  assumes "service_setting E B C contents up" and "quiet B s d" and "up c"
    and "utf8_encode (sc_path sc) = Some bs" and "utf8_encode (sc_path sc') = Some bs'"
    and "path_id N v = Inr k" and "validate_MessageUpdate (en_pydantic N) body = Inr p"
    and "message_update_encodable p" and "mu_version p < MAX_INT4"
  shows "\<exists>r s1 c1 r2 s2 c2. serve N E C i sc (PatchMessage v body) (s, c) = (Some (Inr r), s1, c1)
    \<and> serve N E C i sc' (GetMessage v) (s1, c1) = (Some (Inr r2), s2, c2)
    \<and> (rs_status r = 200 \<and> r2 = r
       \<or> rs_status r = 404 \<and> rs_status r2 = 404
       \<or> rs_status r = 409
         \<and> (\<exists>out. shown_message (abs_store d) k = Some out \<and> ms_version out \<noteq> mu_version p
              \<and> r2 = json_response 200 [] (message_json N out)))"
proof -
  have ok: "schema_ok d" by (rule service_setting.quiet_ok [OF assms(1,2)])
  let ?spec = "spec_update_message k p (abs_store d)" and ?g = "\<lambda>x. json_response 200 [] (message_json N x)"
  have "MessageUpdate_ok p" using assms(7) accepted_ok(2) by blast
  from alone_update_message [OF ok this assms(8,9)] obtain d1 where
    a: "alone (update_message k p) (Some (ob_uuid B i s, ob_now B i s)) d (Tx d) (contents c)
      = Some (answer (fst ?spec), d1, (contents c)(uuid_str k := None))" "abs_store d1 = snd ?spec" by blast
  have rt: "route N (PatchMessage v body) = Inr (bind_prog (update_message k p) (\<lambda>x. Return (?g x)))"
    by (simp add: update_message_route_def both_def assms(6,7) ok_json_def)
  from serve_alone [where sc = sc, OF assms(1-3) rt a(1)] obtain s1 c1 where
    1: "serve N E C i sc (PatchMessage v body) (s, c) = (Some (response_of sc ?g (answer (fst ?spec))), s1, c1)"
      "quiet B s1 d1" "contents c1 = (contents c)(uuid_str k := None)" "up c1" by blast
  have "contents c1 (uuid_str k) = None" by (simp add: 1(3))
  from alone_get_message_uncached [where m = "contents c1" and k = k and J = "en_codec N",
      OF service_setting.quiet_ok [OF assms(1) 1(2)] this]
  obtain m2 where a2: "alone (get_message (en_codec N) k) (Some (ob_uuid B i s1, ob_now B i s1)) d1 (Tx d1) (contents c1)
      = Some (answer (spec_get_message k (abs_store d1)), d1, m2)" by blast
  from serve_message_get [where sc = sc', OF assms(1) 1(2,4) assms(6) a2] obtain s2 c2 where
    2: "serve N E C i sc' (GetMessage v) (s1, c1)
      = (Some (response_of sc' ?g (answer (spec_get_message k (abs_store d1)))), s2, c2)" by blast
  show ?thesis
  proof (cases rule: spec_update_cases [of "abs_store d" k p])
    case missing
    from handled_service [OF service_errors(7) assms(4)] handled_service [OF service_errors(7) assms(5)]
    obtain r r2 where "handled sc (ApiExn (message_not_found k)) = Inr r" "rs_status r = 404"
      "handled sc' (ApiExn (message_not_found k)) = Inr r2" "rs_status r2 = 404"
      unfolding service_errors by blast
    with 1 2 missing a(2) show ?thesis by (simp add: spec_get_message_def)
  next
    case (stale m)
    from handled_service [OF service_errors(9) assms(4)] obtain r where
      r: "handled sc (ApiExn (stale_version k (mu_version p))) = Inr r" "rs_status r = 409" by auto
    from stale(1) ok obtain out where out: "shown_message (abs_store d) k = Some out"
      by (auto elim: shown_message_Some)
    with stale(1,2) have "ms_version out \<noteq> mu_version p"
      by (auto simp: shown_message_def MessageOut_of_def split: option.splits)
    with r out 1 2 stale a(2) show ?thesis by (simp add: spec_get_message_def)
  next
    case (updated out)
    with 1 2 a(2) show ?thesis by (simp add: spec_get_message_def)
  qed
qed

definition stale_cache :: fake_cache where
  "stale_cache = \<lparr>fc_data = [(uuid_str 7, lit ''an old copy'')], fc_calls = []\<rparr>"

theorem refetch_after_conflict_is_current_witness:
  "\<exists>r s1 c1 r2 s2 c2.
     serve sample_env ref_engine FakeCache 0 sample_scope (PatchMessage (uuid_str 7) sample_patch) (sample_state, stale_cache)
       = (Some (Inr r), s1, c1)
     \<and> serve sample_env ref_engine FakeCache 0 sample_scope (GetMessage (uuid_str 7)) (s1, c1) = (Some (Inr r2), s2, c2)
     \<and> rs_status r \<in> {200, 404, 409} \<and> (rs_status r = 200 \<longrightarrow> r2 = r)"
proof -
  have q: "utf8_encode (sc_path sample_scope) = Some (lit ''/messages'')"
    by (simp add: sample_scope_def http_scope_def lit_def utf8_char_def)
  have v: "validate_MessageUpdate (en_pydantic sample_env) sample_patch = Inr sample_change"
    by (simp add: sample_env_def validate_sample_patch)
  from refetch_after_conflict_is_current [OF ref_service.service_setting_axioms sample_quiet TrueI q q path_id_sample v
      sample_payloads_ok(4,5), where c = stale_cache and i = 0 and k = 7]
  show ?thesis by fastforce
qed

end
