(* ===== verification/Schema.thy ===== *)
theory Schema
  imports Models
begin

section \<open>The schema: the migration scripts and the metadata of the models\<close>

text \<open>
  \<open>migrations/versions/0001_initial_schema.py\<close> as the list of its DDL statements over a catalog,
  the tables \<open>app/models.py\<close> declares, and what the declarations mean for the rows: the predicate
  \<open>schema_ok\<close> the other theories assume of the tables is the meaning of the migrated catalog.
\<close>

subsection \<open>Tables and the catalog\<close>

datatype sql_type = UuidType | StringType nat | TimestampTz | IntegerType

record column =
  c_name :: string
  c_type :: sql_type
  c_server_default :: "string option"
  c_nullable :: bool

text \<open>A constraint without a name gets one from the database.\<close>

datatype table_constraint =
    PrimaryKeyConstraint "string list" "string option"
  | UniqueConstraint "string list" "string option"
  | ForeignKeyConstraint "string list" string "string list" "string option" string

record table =
  t_name :: string
  t_columns :: "column list"
  t_constraints :: "table_constraint list"

record index =
  ix_name :: string
  ix_table :: string
  ix_columns :: "string list"

record catalog =
  ct_extensions :: "string list"
  ct_tables :: "table list"
  ct_indexes :: "index list"

definition empty_catalog :: catalog where
  "empty_catalog = \<lparr>ct_extensions = [], ct_tables = [], ct_indexes = []\<rparr>"

text \<open>The names PostgreSQL gives: \<open>authors_pkey\<close>, \<open>authors_email_key\<close>, \<open>messages_author_id_fkey\<close>.\<close>

definition joined :: "string \<Rightarrow> string list \<Rightarrow> string \<Rightarrow> string" where
  "joined t cols ending = t @ concat (map (\<lambda>c. ''_'' @ c) cols) @ ending"

fun with_name :: "string \<Rightarrow> table_constraint \<Rightarrow> table_constraint" where
  "with_name t (PrimaryKeyConstraint cs None) = PrimaryKeyConstraint cs (Some (joined t [] ''_pkey''))"
| "with_name t (UniqueConstraint cs None) = UniqueConstraint cs (Some (joined t cs ''_key''))"
| "with_name t (ForeignKeyConstraint cs r rcs None del) =
     ForeignKeyConstraint cs r rcs (Some (joined t cs ''_fkey'')) del"
| "with_name t c = c"

definition created :: "table \<Rightarrow> table" where
  "created t = t\<lparr>t_constraints := map (with_name (t_name t)) (t_constraints t)\<rparr>"

fun refers_to :: "table_constraint \<Rightarrow> string option" where
  "refers_to (ForeignKeyConstraint cs r rcs n del) = Some r"
| "refers_to _ = None"

text \<open>The names of the relations: tables, indexes, and the index of each key constraint.\<close>

fun key_name :: "table_constraint \<Rightarrow> string option" where
  "key_name (PrimaryKeyConstraint cs n) = n"
| "key_name (UniqueConstraint cs n) = n"
| "key_name _ = None"

definition relations :: "catalog \<Rightarrow> string list" where
  "relations c =
     concat (map (\<lambda>t. t_name t # List.map_filter key_name (t_constraints t)) (ct_tables c))
     @ map ix_name (ct_indexes c)"

subsection \<open>DDL\<close>

datatype ddl =
    CreateExtensionIfNotExists string
  | CreateTable table
  | CreateIndex string string "string list"
  | DropIndex string
  | DropTable string

definition table_named :: "string \<Rightarrow> catalog \<Rightarrow> table option" where
  "table_named n c = find (\<lambda>t. t_name t = n) (ct_tables c)"

text \<open>One statement: the new catalog, or the SQLSTATE PostgreSQL refuses it with.\<close>

fun run_ddl :: "ddl \<Rightarrow> catalog \<Rightarrow> string + catalog" where
  "run_ddl (CreateExtensionIfNotExists e) c =
     Inr (if e \<in> set (ct_extensions c) then c else c\<lparr>ct_extensions := ct_extensions c @ [e]\<rparr>)"
| "run_ddl (CreateTable t) c =
     (let t' = created t
      in if list_ex (\<lambda>n. n \<in> set (relations c)) (t_name t' # List.map_filter key_name (t_constraints t')) then Inl ''42P07''
         else if list_ex (\<lambda>r. r \<noteq> t_name t' \<and> table_named r c = None) (List.map_filter refers_to (t_constraints t')) then Inl ''42P01''
         else Inr (c\<lparr>ct_tables := ct_tables c @ [t']\<rparr>))"
| "run_ddl (CreateIndex n t cs) c =
     (if n \<in> set (relations c) then Inl ''42P07''
      else (case table_named t c of
              None \<Rightarrow> Inl ''42P01''
            | Some tab \<Rightarrow>
                if list_all (\<lambda>x. x \<in> set (map c_name (t_columns tab))) cs
                then Inr (c\<lparr>ct_indexes := ct_indexes c @ [\<lparr>ix_name = n, ix_table = t, ix_columns = cs\<rparr>]\<rparr>)
                else Inl ''42703''))"
| "run_ddl (DropIndex n) c =
     (if n \<in> set (map ix_name (ct_indexes c))
      then Inr (c\<lparr>ct_indexes := [i \<leftarrow> ct_indexes c. ix_name i \<noteq> n]\<rparr>) else Inl ''42704'')"
| "run_ddl (DropTable n) c =
     (if table_named n c = None then Inl ''42P01''
      else if list_ex (\<lambda>t. t_name t \<noteq> n \<and> n \<in> set (List.map_filter refers_to (t_constraints t))) (ct_tables c) then Inl ''2BP01''
      else Inr (c\<lparr>ct_tables := [t \<leftarrow> ct_tables c. t_name t \<noteq> n], ct_indexes := [i \<leftarrow> ct_indexes c. ix_table i \<noteq> n]\<rparr>))"

text \<open>A script stops at the first statement that fails.\<close>

fun run_script :: "ddl list \<Rightarrow> catalog \<Rightarrow> string + catalog" where
  "run_script [] c = Inr c"
| "run_script (s # ss) c = (case run_ddl s c of Inl e \<Rightarrow> Inl e | Inr c' \<Rightarrow> run_script ss c')"

subsection \<open>\<open>0001_initial_schema.py\<close>\<close>

definition revision :: string where
  "revision = ''0001''"

definition down_revision :: "string option" where
  "down_revision = None"

definition authors_table :: table where
  "authors_table = \<lparr>t_name = ''authors'',
     t_columns =
       [\<lparr>c_name = ''id'', c_type = UuidType, c_server_default = Some ''gen_random_uuid()'', c_nullable = False\<rparr>,
        \<lparr>c_name = ''name'', c_type = StringType 50, c_server_default = None, c_nullable = False\<rparr>,
        \<lparr>c_name = ''email'', c_type = StringType 100, c_server_default = None, c_nullable = False\<rparr>,
        \<lparr>c_name = ''created_at'', c_type = TimestampTz, c_server_default = Some ''now()'', c_nullable = False\<rparr>],
     t_constraints =
       [PrimaryKeyConstraint [''id''] (Some ''authors_pkey''),
        UniqueConstraint [''email''] (Some ''authors_email_key'')]\<rparr>"

definition messages_table :: table where
  "messages_table = \<lparr>t_name = ''messages'',
     t_columns =
       [\<lparr>c_name = ''id'', c_type = UuidType, c_server_default = Some ''gen_random_uuid()'', c_nullable = False\<rparr>,
        \<lparr>c_name = ''title'', c_type = StringType 100, c_server_default = None, c_nullable = False\<rparr>,
        \<lparr>c_name = ''content'', c_type = StringType 1000, c_server_default = None, c_nullable = False\<rparr>,
        \<lparr>c_name = ''author_id'', c_type = UuidType, c_server_default = None, c_nullable = False\<rparr>,
        \<lparr>c_name = ''created_at'', c_type = TimestampTz, c_server_default = Some ''now()'', c_nullable = False\<rparr>,
        \<lparr>c_name = ''version'', c_type = IntegerType, c_server_default = Some ''0'', c_nullable = False\<rparr>],
     t_constraints =
       [ForeignKeyConstraint [''author_id''] ''authors'' [''id''] (Some ''messages_author_id_fkey'') ''RESTRICT'',
        PrimaryKeyConstraint [''id''] (Some ''messages_pkey'')]\<rparr>"

definition upgrade :: "ddl list" where
  "upgrade =
     [CreateExtensionIfNotExists ''pg_stat_statements'', CreateTable authors_table, CreateTable messages_table,
      CreateIndex ''ix_messages_created_at_id'' ''messages'' [''created_at'', ''id'']]"

definition downgrade :: "ddl list" where
  "downgrade = [DropIndex ''ix_messages_created_at_id'', DropTable ''messages'', DropTable ''authors'']"

subsection \<open>The metadata of \<open>app/models.py\<close>\<close>

text \<open>
  What \<open>mapped_column\<close> declares. A column whose annotation is not optional is NOT NULL, and a
  foreign key column has the type of the column it refers to.
\<close>

definition Author_table :: table where
  "Author_table = \<lparr>t_name = ''authors'',
     t_columns =
       [\<lparr>c_name = ''id'', c_type = UuidType, c_server_default = Some ''gen_random_uuid()'', c_nullable = False\<rparr>,
        \<lparr>c_name = ''name'', c_type = StringType 50, c_server_default = None, c_nullable = False\<rparr>,
        \<lparr>c_name = ''email'', c_type = StringType 100, c_server_default = None, c_nullable = False\<rparr>,
        \<lparr>c_name = ''created_at'', c_type = TimestampTz, c_server_default = Some ''now()'', c_nullable = False\<rparr>],
     t_constraints = [PrimaryKeyConstraint [''id''] None, UniqueConstraint [''email''] None]\<rparr>"

definition Message_table :: table where
  "Message_table = \<lparr>t_name = ''messages'',
     t_columns =
       [\<lparr>c_name = ''id'', c_type = UuidType, c_server_default = Some ''gen_random_uuid()'', c_nullable = False\<rparr>,
        \<lparr>c_name = ''title'', c_type = StringType 100, c_server_default = None, c_nullable = False\<rparr>,
        \<lparr>c_name = ''content'', c_type = StringType 1000, c_server_default = None, c_nullable = False\<rparr>,
        \<lparr>c_name = ''author_id'', c_type = UuidType, c_server_default = None, c_nullable = False\<rparr>,
        \<lparr>c_name = ''created_at'', c_type = TimestampTz, c_server_default = Some ''now()'', c_nullable = False\<rparr>,
        \<lparr>c_name = ''version'', c_type = IntegerType, c_server_default = Some ''0'', c_nullable = False\<rparr>],
     t_constraints =
       [PrimaryKeyConstraint [''id''] None,
        ForeignKeyConstraint [''author_id''] ''authors'' [''id''] None ''RESTRICT'']\<rparr>"

text \<open>\<open>Base.metadata\<close>: the two tables and the index of \<open>__table_args__\<close>.\<close>

definition metadata :: "table list \<times> index list" where
  "metadata =
     ([Author_table, Message_table],
      [\<lparr>ix_name = ''ix_messages_created_at_id'', ix_table = ''messages'', ix_columns = [''created_at'', ''id'']\<rparr>])"

text \<open>
  What Alembic compares the catalog with: the columns of each table in their order, the constraints
  as a set, and the indexes.
\<close>

definition same_table :: "table \<Rightarrow> table \<Rightarrow> bool" where
  "same_table s t \<longleftrightarrow>
     t_name s = t_name t \<and> t_columns s = t_columns t \<and> set (t_constraints s) = set (t_constraints t)"

definition agrees :: "table list \<times> index list \<Rightarrow> catalog \<Rightarrow> bool" where
  "agrees md c \<longleftrightarrow> list_all2 same_table (map created (fst md)) (ct_tables c) \<and> snd md = ct_indexes c"

subsection \<open>What a catalog says of the rows\<close>

datatype sql_value = UuidValue uuid | TextValue pystr | TimeValue int | IntValue int

fun value_fits :: "sql_type \<Rightarrow> sql_value \<Rightarrow> bool" where
  "value_fits UuidType (UuidValue _) = True"
| "value_fits (StringType n) (TextValue s) = text_fits n s"
| "value_fits TimestampTz (TimeValue _) = True"
| "value_fits IntegerType (IntValue i) = int4_fits i"
| "value_fits _ _ = False"

type_synonym sql_row = "string \<Rightarrow> sql_value option"

definition row_fits :: "table \<Rightarrow> sql_row \<Rightarrow> bool" where
  "row_fits t r \<longleftrightarrow>
     list_all (\<lambda>c. case r (c_name c) of None \<Rightarrow> c_nullable c | Some v \<Rightarrow> value_fits (c_type c) v) (t_columns t)"

fun constraint_holds :: "(string \<Rightarrow> sql_row list) \<Rightarrow> sql_row list \<Rightarrow> table_constraint \<Rightarrow> bool" where
  "constraint_holds content rows (PrimaryKeyConstraint cs n) = distinct (map (\<lambda>r. map r cs) rows)"
| "constraint_holds content rows (UniqueConstraint cs n) = distinct (map (\<lambda>r. map r cs) rows)"
| "constraint_holds content rows (ForeignKeyConstraint cs ref rcs n del) =
     list_all (\<lambda>r. map r cs \<in> set (map (\<lambda>r'. map r' rcs) (content ref))) rows"

definition satisfies :: "catalog \<Rightarrow> (string \<Rightarrow> sql_row list) \<Rightarrow> bool" where
  "satisfies c content \<longleftrightarrow>
     list_all (\<lambda>t. list_all (row_fits t) (content (t_name t))
       \<and> list_all (constraint_holds content (content (t_name t))) (t_constraints t)) (ct_tables c)"

text \<open>The rows of the model as rows of columns.\<close>

definition author_columns :: "author_row \<Rightarrow> sql_row" where
  "author_columns a = map_of
     [(''id'', UuidValue (a_id a)), (''name'', TextValue (a_name a)), (''email'', TextValue (a_email a)),
      (''created_at'', TimeValue (a_created_at a))]"

definition message_columns :: "message_row \<Rightarrow> sql_row" where
  "message_columns m = map_of
     [(''id'', UuidValue (m_id m)), (''title'', TextValue (m_title m)), (''content'', TextValue (m_content m)),
      (''author_id'', UuidValue (m_author_id m)), (''created_at'', TimeValue (m_created_at m)),
      (''version'', IntValue (m_version m))]"

definition contents_of :: "db \<Rightarrow> string \<Rightarrow> sql_row list" where
  "contents_of d = (\<lambda>_. [])(''authors'' := map author_columns (db_authors d), ''messages'' := map message_columns (db_messages d))"

subsection \<open>The migrated catalog\<close>

definition migrated :: "string list \<Rightarrow> catalog" where
  "migrated es = \<lparr>ct_extensions = es, ct_tables = [authors_table, messages_table],
     ct_indexes = [\<lparr>ix_name = ''ix_messages_created_at_id'', ix_table = ''messages'', ix_columns = [''created_at'', ''id'']\<rparr>]\<rparr>"

definition with_extension :: "string list \<Rightarrow> string list" where
  "with_extension es = (if ''pg_stat_statements'' \<in> set es then es else es @ [''pg_stat_statements''])"

lemmas table_defs = authors_table_def messages_table_def Author_table_def Message_table_def

lemma created_named [simp]: "created authors_table = authors_table" "created messages_table = messages_table"
  by (simp_all add: created_def table_defs)

lemma table_parts [simp]:
  "t_name authors_table = ''authors''" "t_name messages_table = ''messages''"
  "List.map_filter key_name (t_constraints authors_table) = [''authors_pkey'', ''authors_email_key'']"
  "List.map_filter key_name (t_constraints messages_table) = [''messages_pkey'']"
  "List.map_filter refers_to (t_constraints authors_table) = []"
  "List.map_filter refers_to (t_constraints messages_table) = [''authors'']"
  "map c_name (t_columns messages_table) = [''id'', ''title'', ''content'', ''author_id'', ''created_at'', ''version'']"
  by (simp_all add: table_defs map_filter_simps)

lemma create_authors:
  "run_ddl (CreateTable authors_table) \<lparr>ct_extensions = es, ct_tables = [], ct_indexes = []\<rparr>
     = Inr \<lparr>ct_extensions = es, ct_tables = [authors_table], ct_indexes = []\<rparr>"
  by (simp add: relations_def)

lemma create_messages:
  "run_ddl (CreateTable messages_table) \<lparr>ct_extensions = es, ct_tables = [authors_table], ct_indexes = []\<rparr>
     = Inr \<lparr>ct_extensions = es, ct_tables = [authors_table, messages_table], ct_indexes = []\<rparr>"
  by (simp add: relations_def table_named_def)

lemma create_index:
  "run_ddl (CreateIndex ''ix_messages_created_at_id'' ''messages'' [''created_at'', ''id''])
       \<lparr>ct_extensions = es, ct_tables = [authors_table, messages_table], ct_indexes = []\<rparr>
     = Inr (migrated es)"
  by (simp add: relations_def table_named_def migrated_def)

text \<open>The catalog before the first migration has no tables; extensions it may have.\<close>

definition unmigrated :: "string list \<Rightarrow> catalog" where
  "unmigrated es = \<lparr>ct_extensions = es, ct_tables = [], ct_indexes = []\<rparr>"

lemma create_extension:
  "run_ddl (CreateExtensionIfNotExists ''pg_stat_statements'') (unmigrated es)
     = Inr \<lparr>ct_extensions = with_extension es, ct_tables = [], ct_indexes = []\<rparr>"
  by (simp add: unmigrated_def with_extension_def)

lemma run_upgrade: "run_script upgrade (unmigrated es) = Inr (migrated (with_extension es))"
  by (simp only: upgrade_def run_script.simps create_extension create_authors create_messages create_index sum.case)

lemma upgrade_refused: "run_script upgrade (migrated es) = Inl ''42P07''"
proof -
  have "run_ddl (CreateTable authors_table) (migrated fs) = Inl ''42P07''" for fs
    by (simp add: relations_def migrated_def)
  then show ?thesis by (simp add: upgrade_def migrated_def del: run_ddl.simps(2))
qed

lemma drop_index:
  "run_ddl (DropIndex ''ix_messages_created_at_id'') (migrated es)
     = Inr \<lparr>ct_extensions = es, ct_tables = [authors_table, messages_table], ct_indexes = []\<rparr>"
  by (simp add: migrated_def)

lemma drop_messages:
  "run_ddl (DropTable ''messages'') \<lparr>ct_extensions = es, ct_tables = [authors_table, messages_table], ct_indexes = []\<rparr>
     = Inr \<lparr>ct_extensions = es, ct_tables = [authors_table], ct_indexes = []\<rparr>"
  by (simp add: table_named_def)

lemma drop_authors:
  "run_ddl (DropTable ''authors'') \<lparr>ct_extensions = es, ct_tables = [authors_table], ct_indexes = []\<rparr>
     = Inr (unmigrated es)"
  by (simp add: table_named_def unmigrated_def)

lemma run_downgrade: "run_script downgrade (migrated es) = Inr (unmigrated es)"
  by (simp only: downgrade_def run_script.simps drop_index drop_messages drop_authors sum.case)

text \<open>
  The first migration applied to a database without tables, taken back and applied again gives
  the same catalog; the extension it adds stays when it is taken back; and it cannot be applied
  twice in a row.
\<close>

theorem migration_roundtrip:
  "\<exists>c. run_script upgrade (unmigrated es) = Inr c
     \<and> run_script downgrade c = Inr (unmigrated (with_extension es))
     \<and> run_script upgrade (unmigrated (with_extension es)) = Inr c
     \<and> run_script upgrade c = Inl ''42P07''"
  by (simp add: run_upgrade run_downgrade upgrade_refused with_extension_def)

subsection \<open>The migrated catalog and the models\<close>

lemma created_metadata:
  "created Author_table = authors_table"
  "created Message_table = messages_table\<lparr>t_constraints := rev (t_constraints messages_table)\<rparr>"
  by (simp_all add: created_def table_defs joined_def)

lemma metadata_agrees: "agrees metadata (migrated es)"
  by (auto simp: agrees_def metadata_def migrated_def same_table_def created_metadata)

lemma author_columns_sel [simp]:
  "author_columns a ''id'' = Some (UuidValue (a_id a))" "author_columns a ''name'' = Some (TextValue (a_name a))"
  "author_columns a ''email'' = Some (TextValue (a_email a))"
  "author_columns a ''created_at'' = Some (TimeValue (a_created_at a))"
  by (simp_all add: author_columns_def)

lemma message_columns_sel [simp]:
  "message_columns m ''id'' = Some (UuidValue (m_id m))" "message_columns m ''title'' = Some (TextValue (m_title m))"
  "message_columns m ''content'' = Some (TextValue (m_content m))"
  "message_columns m ''author_id'' = Some (UuidValue (m_author_id m))"
  "message_columns m ''created_at'' = Some (TimeValue (m_created_at m))"
  "message_columns m ''version'' = Some (IntValue (m_version m))"
  by (simp_all add: message_columns_def)

lemma contents_sel [simp]:
  "contents_of d ''authors'' = map author_columns (db_authors d)"
  "contents_of d ''messages'' = map message_columns (db_messages d)"
  by (simp_all add: contents_of_def)

lemma row_fits_author [simp]: "row_fits authors_table (author_columns a) \<longleftrightarrow> author_row_fits a"
  by (simp add: row_fits_def authors_table_def author_row_fits_def)

lemma row_fits_message [simp]: "row_fits messages_table (message_columns m) \<longleftrightarrow> message_row_fits m"
  by (simp add: row_fits_def messages_table_def message_row_fits_def)

lemma distinct_key:
  assumes "\<And>x. h x = [Some (C (key x))]" and "inj C"
  shows "distinct (map h xs) \<longleftrightarrow> distinct (map key xs)"
proof -
  have "map h xs = map (\<lambda>k. [Some (C k)]) (map key xs)" by (simp add: assms(1))
  moreover have "inj_on (\<lambda>k. [Some (C k)]) A" for A using assms(2) by (auto simp: inj_on_def)
  ultimately show ?thesis by (simp only: distinct_map simp_thms)
qed

lemma constraints_authors:
  "list_all (constraint_holds (contents_of d) (map author_columns xs)) (t_constraints authors_table)
     \<longleftrightarrow> distinct (map a_id xs) \<and> distinct (map a_email xs)"
proof -
  have "distinct (map (\<lambda>r. map r [''id'']) (map author_columns xs)) \<longleftrightarrow> distinct (map a_id xs)"
    unfolding list.map_comp by (rule distinct_key [where C = UuidValue]) (simp_all add: inj_on_def)
  moreover have "distinct (map (\<lambda>r. map r [''email'']) (map author_columns xs)) \<longleftrightarrow> distinct (map a_email xs)"
    unfolding list.map_comp by (rule distinct_key [where C = TextValue]) (simp_all add: inj_on_def)
  ultimately show ?thesis
    by (simp only: authors_table_def table.simps constraint_holds.simps list.pred_inject simp_thms)
qed

lemma constraints_messages:
  "list_all (constraint_holds (contents_of d) (map message_columns ys)) (t_constraints messages_table)
     \<longleftrightarrow> distinct (map m_id ys) \<and> (\<forall>m \<in> set ys. m_author_id m \<in> a_id ` set (db_authors d))"
proof -
  have key: "distinct (map (\<lambda>r. map r [''id'']) (map message_columns ys)) \<longleftrightarrow> distinct (map m_id ys)"
    unfolding list.map_comp by (rule distinct_key [where C = UuidValue]) (simp_all add: inj_on_def)
  have ref: "map (message_columns m) [''author_id''] \<in> set (map (\<lambda>r. map r [''id'']) (contents_of d ''authors''))
      \<longleftrightarrow> m_author_id m \<in> a_id ` set (db_authors d)" for m
    by (auto simp: image_iff)
  have "constraint_holds (contents_of d) (map message_columns ys)
        (ForeignKeyConstraint [''author_id''] ''authors'' [''id''] n del)
      \<longleftrightarrow> (\<forall>m \<in> set ys. m_author_id m \<in> a_id ` set (db_authors d))" for n del
    by (simp only: constraint_holds.simps list_all_iff list.set_map [where f = message_columns] ball_simps ref)
  with key show ?thesis
    by (simp only: messages_table_def table.simps constraint_holds.simps(1) list.pred_inject simp_thms conj_commute)
qed

lemma satisfies_migrated: "satisfies (migrated es) (contents_of d) \<longleftrightarrow> schema_ok d"
proof -
  have "list_all (row_fits authors_table) (map author_columns xs) \<longleftrightarrow> list_all author_row_fits xs"
    "list_all (row_fits messages_table) (map message_columns ys) \<longleftrightarrow> list_all message_row_fits ys" for xs ys
    by (simp_all add: list_all_iff)
  then show ?thesis
    by (auto simp: satisfies_def migrated_def constraints_authors constraints_messages schema_ok_def)
qed

text \<open>
  C19. The migrated catalog is the one the ORM models declare: Alembic finds nothing to change, the
  database can hold exactly the contents that the rest of this development calls \<open>schema_ok\<close>.
\<close>

theorem migrated_schema_is_the_models:
  "\<exists>c. run_script upgrade (unmigrated es) = Inr c \<and> agrees metadata c
     \<and> (\<forall>d. satisfies c (contents_of d) = schema_ok d)"
  by (simp add: run_upgrade metadata_agrees satisfies_migrated)

end
