(* ===== verification/Seed.thy ===== *)
theory Seed
  imports Concurrency
begin

section \<open>The welcome message: \<open>app/seed.py\<close>\<close>

text \<open>
  Every replica runs \<open>seed_initial_message\<close> when it starts. The block is one transaction
  (\<open>session.begin()\<close>): it commits when it is left, also by the early \<open>return\<close>, and is rolled back by
  an exception. The invariant follows all replicas at once: who is between the advisory lock and
  the commit is alone there, so the check and the insert are not torn apart.
\<close>

subsection \<open>The program\<close>

definition SYSTEM_EMAIL :: pystr where
  "SYSTEM_EMAIL = lit ''system@message-service.local''"

definition SEED_LOCK_KEY :: int where
  "SEED_LOCK_KEY = 7265490001"

definition WELCOME_TITLE :: pystr where
  "WELCOME_TITLE = lit ''Welcome to the Kubernetes REST API''"

definition WELCOME_CONTENT :: pystr where
  "WELCOME_CONTENT = lit ''A sample message backed by FastAPI and PostgreSQL on a kind cluster.''"

text \<open>The end of the block, and its end by an IntegrityError.\<close>

definition seed_commit :: "unit prog" where
  "seed_commit = Commit (Return ()) reraise"

definition seed_failed :: "string option \<Rightarrow> unit prog" where
  "seed_failed sqlstate = Rollback (reraise sqlstate)"

text \<open>The row of \<open>session.add\<close> is inserted when the block ends.\<close>

definition seed_message :: "uuid \<Rightarrow> unit prog" where
  "seed_message author_id =
     Exec (InsertMessage WELCOME_TITLE WELCOME_CONTENT author_id) (\<lambda>_. seed_commit) seed_failed"

definition seed_author_id :: "unit prog" where
  "seed_author_id =
     Exec (SelectAuthorIds [AuthorEmailIs SYSTEM_EMAIL]) (\<lambda>rows. scalar_one (id_rows rows) seed_message) seed_failed"

definition seed_author :: "unit prog" where
  "seed_author = Exec (InsertAuthorOrNothing (lit ''system'') SYSTEM_EMAIL) (\<lambda>_. seed_author_id) seed_failed"

definition seed_check :: "unit prog" where
  "seed_check = Exec CountMessages (\<lambda>rows. if count_row rows > 0 then seed_commit else seed_author) seed_failed"

definition seed_initial_message :: "unit prog" where
  "seed_initial_message = Exec (AdvisoryXactLock SEED_LOCK_KEY) (\<lambda>_. seed_check) seed_failed"

lemmas seed_defs = seed_commit_def seed_failed_def seed_message_def seed_author_id_def seed_author_def
  seed_check_def seed_initial_message_def reraise_def

subsection \<open>Where a replica can be\<close>

text \<open>The one message of a seeded database: the welcome, by the system author.\<close>

definition welcomed :: "db \<Rightarrow> bool" where
  "welcomed d \<longleftrightarrow>
     (\<exists>m a. db_messages d = [m] \<and> m_title m = WELCOME_TITLE \<and> m_content m = WELCOME_CONTENT \<and> m_version m = 0
        \<and> author_map d (m_author_id m) = Some a \<and> a_email a = SYSTEM_EMAIL)"

text \<open>\<open>critical\<close>: between the lock and the commit of a change.\<close>

definition critical :: "unit prog \<Rightarrow> change list \<Rightarrow> bool" where
  "critical t pending \<longleftrightarrow>
     t = seed_check \<or> t = seed_author \<or> t = seed_author_id \<or> (\<exists>k. t = seed_message k)
     \<or> t = seed_commit \<and> pending \<noteq> []"

definition seed_point :: "'s db_obs \<Rightarrow> nat \<Rightarrow> 's \<Rightarrow> unit prog \<Rightarrow> bool" where
  "seed_point B i s t \<longleftrightarrow>
     (let c = ob_committed B s; v = ob_view B i s; pending = ob_pending B i s;
          inside = (SEED_LOCK_KEY \<in> ob_locks B i s \<and> \<not> ob_aborted B i s)
      in t = seed_initial_message \<and> pending = []
         \<or> t = seed_check \<and> inside \<and> pending = []
         \<or> (t = seed_author \<or> t = seed_author_id) \<and> inside \<and> db_messages c = [] \<and> db_messages v = []
         \<or> (\<exists>k a. t = seed_message k \<and> inside \<and> db_messages c = [] \<and> db_messages v = []
              \<and> author_map v k = Some a \<and> a_email a = SYSTEM_EMAIL)
         \<or> t = seed_commit \<and> inside \<and> pending \<noteq> [] \<and> db_messages c = [] \<and> welcomed v
         \<or> t = seed_commit \<and> pending = [] \<and> db_messages c \<noteq> []
         \<or> t = Return () \<and> pending = [] \<and> db_messages c \<noteq> []
         \<or> (\<exists>e. t = seed_failed e) \<or> (\<exists>e. t = Raise e))"

definition seed_inv :: "'s db_obs \<Rightarrow> db \<Rightarrow> (nat \<Rightarrow> unit prog) \<Rightarrow> 's \<Rightarrow> bool" where
  "seed_inv B d T s \<longleftrightarrow>
     ob_ok B s \<and> (\<forall>i. seed_point B i s (T i))
     \<and> (\<forall>i j. i \<noteq> j \<longrightarrow> critical (T i) (ob_pending B i s) \<longrightarrow> \<not> critical (T j) (ob_pending B j s))
     \<and> (ob_committed B s = d \<or> db_messages d = [] \<and> welcomed (ob_committed B s))"

subsection \<open>Steps\<close>

lemma seed_distinct [simp]:
  "seed_check \<noteq> seed_author" "seed_check \<noteq> seed_author_id" "seed_check \<noteq> seed_message k" "seed_check \<noteq> seed_commit"
  "seed_author \<noteq> seed_author_id" "seed_author \<noteq> seed_message k" "seed_author \<noteq> seed_commit"
  "seed_author_id \<noteq> seed_message k" "seed_author_id \<noteq> seed_commit" "seed_message k \<noteq> seed_commit"
  "seed_initial_message \<noteq> seed_check" "seed_initial_message \<noteq> seed_author" "seed_initial_message \<noteq> seed_author_id"
  "seed_initial_message \<noteq> seed_message k" "seed_initial_message \<noteq> seed_commit"
  "seed_failed e \<noteq> seed_check" "seed_failed e \<noteq> seed_author" "seed_failed e \<noteq> seed_author_id"
  "seed_failed e \<noteq> seed_message k" "seed_failed e \<noteq> seed_commit" "seed_failed e \<noteq> seed_initial_message"
  "Return u \<noteq> seed_check" "Return u \<noteq> seed_author" "Return u \<noteq> seed_author_id" "Return u \<noteq> seed_message k"
  "Return u \<noteq> seed_commit" "Return u \<noteq> seed_initial_message" "Return u \<noteq> seed_failed e"
  "Raise x \<noteq> seed_check" "Raise x \<noteq> seed_author" "Raise x \<noteq> seed_author_id" "Raise x \<noteq> seed_message k"
  "Raise x \<noteq> seed_commit" "Raise x \<noteq> seed_initial_message" "Raise x \<noteq> seed_failed e"
  by (simp_all add: seed_defs)

lemmas seed_distinct_sym [simp] = seed_distinct [symmetric]

text \<open>Which points await a statement.\<close>

lemma seed_not_exec [simp]:
  "seed_commit \<noteq> Exec st k h" "seed_failed e \<noteq> Exec st k h" "Exec st k h \<noteq> seed_commit" "Exec st k h \<noteq> seed_failed e"
  "seed_message a = seed_message b \<longleftrightarrow> a = b"
  by (simp_all add: seed_defs)

lemma critical_ended [simp]:
  "\<not> critical seed_initial_message P" "\<not> critical (seed_failed e) P" "\<not> critical (Raise x) P" "\<not> critical (Return ()) P"
  "\<not> critical seed_commit []"
  by (auto simp: critical_def)

lemma seed_point_ended [simp]: "seed_point B i s (seed_failed e)" "seed_point B i s (Raise x)"
  by (auto simp: seed_point_def Let_def)

lemma seed_point_other:
  assumes "seed_point B j s t" and "others_same B i s s'" and "j \<noteq> i" and "ob_committed B s' = ob_committed B s"
  shows "seed_point B j s' t"
  using assms by (simp add: seed_point_def others_same_def ob_view_def Let_def)

text \<open>A step of replica \<open>i\<close> that commits nothing.\<close>

lemma seed_inv_local:
  assumes "seed_inv B d T s" and "others_same B i s s'" and "ob_committed B s' = ob_committed B s" and "ob_ok B s'"
    and "seed_point B i s' t"
    and "critical t (ob_pending B i s') \<Longrightarrow>
      critical (T i) (ob_pending B i s) \<or> (\<forall>j. j \<noteq> i \<longrightarrow> \<not> critical (T j) (ob_pending B j s))"
  shows "seed_inv B d (T(i := t)) s'"
proof -
  have same: "j \<noteq> i \<Longrightarrow> ob_pending B j s' = ob_pending B j s" for j using assms(2) by (simp add: others_same_def)
  have p: "seed_point B j s' ((T(i := t)) j)" for j
    using assms(1,2,3,5) seed_point_other [of B j s "T j" i s'] by (cases "j = i") (simp_all add: seed_inv_def)
  have alone: "\<not> critical (T j) (ob_pending B j s)" if "j \<noteq> i" "critical t (ob_pending B i s')" for j
    using assms(1) assms(6) [OF that(2)] that(1) unfolding seed_inv_def by metis
  have "\<not> critical ((T(i := t)) b) (ob_pending B b s')" if "a \<noteq> b" "critical ((T(i := t)) a) (ob_pending B a s')" for a b
  proof (cases "a = i")
    case True
    with that alone same show ?thesis by auto
  next
    case False
    note a = this
    show ?thesis
    proof (cases "b = i")
      case True
      with a that alone [of a] same [of a] show ?thesis by auto
    next
      case False
      with a that assms(1) same show ?thesis unfolding seed_inv_def by auto
    qed
  qed
  with p assms(1,3,4) show ?thesis by (auto simp: seed_inv_def)
qed

lemma critical_locked:
  "seed_point B i s t \<Longrightarrow> critical t (ob_pending B i s) \<Longrightarrow> SEED_LOCK_KEY \<in> ob_locks B i s"
  by (auto simp: seed_point_def critical_def Let_def)

lemma seed_points:
  assumes "seed_point B i s t"
  shows "t = seed_initial_message \<Longrightarrow> ob_pending B i s = []"
    and "t = seed_check \<Longrightarrow> SEED_LOCK_KEY \<in> ob_locks B i s \<and> ob_pending B i s = []"
    and "t = seed_author \<or> t = seed_author_id \<Longrightarrow> SEED_LOCK_KEY \<in> ob_locks B i s
      \<and> db_messages (ob_committed B s) = [] \<and> db_messages (ob_view B i s) = []"
    and "t = seed_message k \<Longrightarrow> SEED_LOCK_KEY \<in> ob_locks B i s \<and> db_messages (ob_committed B s) = []
      \<and> db_messages (ob_view B i s) = [] \<and> (\<exists>a. author_map (ob_view B i s) k = Some a \<and> a_email a = SYSTEM_EMAIL)"
    and "t = seed_commit \<Longrightarrow> ob_pending B i s = [] \<and> db_messages (ob_committed B s) \<noteq> []
      \<or> ob_pending B i s \<noteq> [] \<and> db_messages (ob_committed B s) = [] \<and> welcomed (ob_view B i s)
        \<and> \<not> ob_aborted B i s"
    and "t = Return () \<Longrightarrow> ob_pending B i s = [] \<and> db_messages (ob_committed B s) \<noteq> []"
  using assms by (auto simp: seed_point_def Let_def)

text \<open>The tables after the two inserts.\<close>

lemma insert_author_messages:
  "sql_sem u n (InsertAuthorOrNothing name email) d = Inr (r, chs) \<Longrightarrow> db_messages (apply_changes chs d) = db_messages d"
  by (auto simp: insert_author_sem_def Let_def apply_change.simps split: if_splits)

lemma author_id_found:
  assumes "schema_ok d" and "map a_id (authors_where [AuthorEmailIs email] d) = [k]"
  shows "\<exists>a. author_map d k = Some a \<and> a_email a = email"
proof -
  from assms(2) obtain a where a: "authors_where [AuthorEmailIs email] d = [a]" "a_id a = k" by auto
  then have "a \<in> set [a \<leftarrow> db_authors d. a_email a = email]" by (simp add: authors_where_def)
  with a(2) assms(1) show ?thesis by (auto simp: author_map_Some_iff)
qed

lemma welcome_inserted:
  assumes "sql_sem u n (InsertMessage WELCOME_TITLE WELCOME_CONTENT k) d = Inr (r, chs)"
    and "db_messages d = []" and "author_map d k = Some a" and "a_email a = SYSTEM_EMAIL"
  shows "chs \<noteq> [] \<and> welcomed (apply_changes chs d)"
  using assms
  by (auto simp: insert_message_sem_def Let_def welcomed_def split: if_splits) (simp_all add: apply_change.simps)

context sql_engine
begin

text \<open>A statement of replica \<open>i\<close>: what it keeps, and what a reply says.\<close>

lemma seed_inv_move:
  assumes "seed_inv B d T s" and "e_exec E i st s = Some (rep, s')" and "seed_point B i s' t"
    and "critical t (ob_pending B i s') \<Longrightarrow>
      critical (T i) (ob_pending B i s) \<or> (\<forall>j. j \<noteq> i \<longrightarrow> \<not> critical (T j) (ob_pending B j s))"
  shows "seed_inv B d (T(i := t)) s'"
proof -
  have "others_same B i s s'" "ob_committed B s' = ob_committed B s" using exec_frame [OF assms(2)] by simp_all
  moreover have "ob_ok B s'" using exec_ok [OF assms(2)] assms(1) by (simp add: seed_inv_def)
  ultimately show ?thesis by (rule seed_inv_local [OF assms(1)]) (use assms(3,4) in blast)+
qed

lemma seed_reply:
  assumes "e_exec E i st s = Some (Reply r, s')"
  obtains chs where "sql_sem (ob_uuid B i s) (ob_now B i s) st (ob_view B i s) = Inr (r, chs)"
    "ob_pending B i s' = ob_pending B i s @ chs" "\<not> ob_aborted B i s'"
    "ob_view B i s' = apply_changes chs (ob_view B i s)" "ob_committed B s' = ob_committed B s"
    "ob_locks B i s \<subseteq> ob_locks B i s'"
  using assms exec_frame [OF assms] exec_locks [OF assms] that by (cases rule: exec_reply_cases) blast+

text \<open>The statements of a replica in their order, and where each of them leads.\<close>

lemma seed_step_lock:
  assumes "seed_inv B d T s" and "T i = seed_initial_message"
    and "e_exec E i (AdvisoryXactLock SEED_LOCK_KEY) s = Some (Reply r, s')"
  shows "seed_inv B d (T(i := seed_check)) s'"
proof (rule seed_inv_move [OF assms(1,3)])
  have pt: "seed_point B j s (T j)" for j using assms(1) by (simp add: seed_inv_def)
  have l: "SEED_LOCK_KEY \<in> ob_locks B i s'" "\<forall>j. j \<noteq> i \<longrightarrow> SEED_LOCK_KEY \<notin> ob_locks B j s"
    using exec_advisory [OF assms(3)] by simp_all
  obtain chs where chs: "sql_sem (ob_uuid B i s) (ob_now B i s) (AdvisoryXactLock SEED_LOCK_KEY) (ob_view B i s) = Inr (r, chs)"
    "ob_pending B i s' = ob_pending B i s @ chs" "\<not> ob_aborted B i s'" by (rule seed_reply [OF assms(3)])
  with seed_points(1) [OF pt assms(2)] l(1) show "seed_point B i s' seed_check"
    by (simp add: seed_point_def Let_def)
  have "\<not> critical (T j) (ob_pending B j s)" if "j \<noteq> i" for j
    using critical_locked [OF pt] l(2) that by blast
  then show "critical (T i) (ob_pending B i s) \<or> (\<forall>j. j \<noteq> i \<longrightarrow> \<not> critical (T j) (ob_pending B j s))" by blast
qed

lemma seed_step_check:
  assumes "seed_inv B d T s" and "T i = seed_check" and "e_exec E i CountMessages s = Some (Reply r, s')"
  shows "seed_inv B d (T(i := (if count_row r > 0 then seed_commit else seed_author))) s'"
proof (rule seed_inv_move [OF assms(1,3)])
  have "seed_point B i s (T i)" using assms(1) by (simp add: seed_inv_def)
  from seed_points(2) [OF this assms(2)] have p: "SEED_LOCK_KEY \<in> ob_locks B i s" "ob_pending B i s = []" by simp_all
  obtain chs where chs: "sql_sem (ob_uuid B i s) (ob_now B i s) CountMessages (ob_view B i s) = Inr (r, chs)"
    "ob_pending B i s' = ob_pending B i s @ chs" "\<not> ob_aborted B i s'" "ob_view B i s' = apply_changes chs (ob_view B i s)"
    "ob_committed B s' = ob_committed B s" "ob_locks B i s \<subseteq> ob_locks B i s'" by (rule seed_reply [OF assms(3)])
  with p have "ob_view B i s = ob_committed B s" "ob_pending B i s' = []" "ob_view B i s' = ob_committed B s"
    "r = CountRow (length (db_messages (ob_committed B s)))" by (auto simp: ob_view_def)
  with p(1) chs(3,5,6) show "seed_point B i s' (if count_row r > 0 then seed_commit else seed_author)"
    by (auto simp: seed_point_def Let_def)
qed (simp add: assms(2) critical_def)

lemma seed_step_author:
  assumes "seed_inv B d T s" and "T i = seed_author"
    and "e_exec E i (InsertAuthorOrNothing (lit ''system'') SYSTEM_EMAIL) s = Some (Reply r, s')"
  shows "seed_inv B d (T(i := seed_author_id)) s'"
proof (rule seed_inv_move [OF assms(1,3)])
  have "seed_point B i s (T i)" using assms(1) by (simp add: seed_inv_def)
  from seed_points(3) [OF this] assms(2) have p: "SEED_LOCK_KEY \<in> ob_locks B i s"
    "db_messages (ob_committed B s) = []" "db_messages (ob_view B i s) = []" by simp_all
  obtain chs where chs: "sql_sem (ob_uuid B i s) (ob_now B i s) (InsertAuthorOrNothing (lit ''system'') SYSTEM_EMAIL)
      (ob_view B i s) = Inr (r, chs)" "\<not> ob_aborted B i s'" "ob_view B i s' = apply_changes chs (ob_view B i s)"
    "ob_committed B s' = ob_committed B s" "ob_locks B i s \<subseteq> ob_locks B i s'" by (rule seed_reply [OF assms(3)])
  from insert_author_messages [OF chs(1)] p chs(2-5) show "seed_point B i s' seed_author_id"
    by (auto simp: seed_point_def Let_def)
qed (simp add: assms(2) critical_def)

lemma seed_step_author_id:
  assumes "seed_inv B d T s" and "T i = seed_author_id"
    and "e_exec E i (SelectAuthorIds [AuthorEmailIs SYSTEM_EMAIL]) s = Some (Reply r, s')"
  shows "seed_inv B d (T(i := scalar_one (id_rows r) seed_message)) s'"
proof (rule seed_inv_move [OF assms(1,3)])
  have "seed_point B i s (T i)" using assms(1) by (simp add: seed_inv_def)
  from seed_points(3) [OF this] assms(2) have p: "SEED_LOCK_KEY \<in> ob_locks B i s"
    "db_messages (ob_committed B s) = []" "db_messages (ob_view B i s) = []" by simp_all
  have v: "schema_ok (ob_view B i s)" using assms(1) ok_schema by (simp add: seed_inv_def)
  obtain chs where chs: "sql_sem (ob_uuid B i s) (ob_now B i s) (SelectAuthorIds [AuthorEmailIs SYSTEM_EMAIL])
      (ob_view B i s) = Inr (r, chs)" "\<not> ob_aborted B i s'" "ob_view B i s' = apply_changes chs (ob_view B i s)"
    "ob_committed B s' = ob_committed B s" "ob_locks B i s \<subseteq> ob_locks B i s'" by (rule seed_reply [OF assms(3)])
  from chs have r: "id_rows r = map a_id (authors_where [AuthorEmailIs SYSTEM_EMAIL] (ob_view B i s))"
    "ob_view B i s' = ob_view B i s" by auto
  show "seed_point B i s' (scalar_one (id_rows r) seed_message)"
  proof (cases "\<exists>key. id_rows r = [key]")
    case True
    then obtain key where key: "id_rows r = [key]" by blast
    from author_id_found [OF v, of SYSTEM_EMAIL key] r(1) key
    obtain a where "author_map (ob_view B i s) key = Some a" "a_email a = SYSTEM_EMAIL" by auto
    with p chs(2,4,5) r(2) key show ?thesis by (auto simp: seed_point_def Let_def)
  next
    case False
    then obtain x where "scalar_one (id_rows r) seed_message = Raise x"
      by (cases "id_rows r"; cases "tl (id_rows r)") (auto simp: scalar_one_def)
    then show ?thesis by simp
  qed
qed (simp add: assms(2) critical_def)

lemma seed_step_message:
  assumes "seed_inv B d T s" and "T i = seed_message key"
    and "e_exec E i (InsertMessage WELCOME_TITLE WELCOME_CONTENT key) s = Some (Reply r, s')"
  shows "seed_inv B d (T(i := seed_commit)) s'"
proof (rule seed_inv_move [OF assms(1,3)])
  have "seed_point B i s (T i)" using assms(1) by (simp add: seed_inv_def)
  from seed_points(4) [OF this assms(2)] obtain a where p: "SEED_LOCK_KEY \<in> ob_locks B i s"
    "db_messages (ob_committed B s) = []" "db_messages (ob_view B i s) = []"
    "author_map (ob_view B i s) key = Some a" "a_email a = SYSTEM_EMAIL" by blast
  obtain chs where chs: "sql_sem (ob_uuid B i s) (ob_now B i s) (InsertMessage WELCOME_TITLE WELCOME_CONTENT key)
      (ob_view B i s) = Inr (r, chs)" "ob_pending B i s' = ob_pending B i s @ chs" "\<not> ob_aborted B i s'"
    "ob_view B i s' = apply_changes chs (ob_view B i s)" "ob_committed B s' = ob_committed B s"
    "ob_locks B i s \<subseteq> ob_locks B i s'" by (rule seed_reply [OF assms(3)])
  from welcome_inserted [OF chs(1) p(3-5)] have "chs \<noteq> []" "welcomed (ob_view B i s')" using chs(4) by simp_all
  with p chs(2,3,5,6) show "seed_point B i s' seed_commit" by (auto simp: seed_point_def Let_def)
qed (simp add: assms(2) critical_def)

lemma seed_inv_exec:
  assumes "seed_inv B d T s" and "T i = Exec st k h" and "e_exec E i st s = Some (rep, s')"
    and "t = (case rep of Reply r \<Rightarrow> k r | Violation e \<Rightarrow> h e | DbFail e \<Rightarrow> Raise (DatabaseError e))"
  shows "seed_inv B d (T(i := t)) s'"
proof -
  have "seed_point B i s (T i)" using assms(1) by (simp add: seed_inv_def)
  then consider (start) "T i = seed_initial_message" | (check) "T i = seed_check" | (author) "T i = seed_author"
    | (author_id) "T i = seed_author_id" | (message) key where "T i = seed_message key"
    using assms(2) by (auto simp: seed_point_def Let_def)
  note points = this
  then have h: "h = seed_failed"
    using assms(2) by cases (simp_all add: seed_initial_message_def seed_check_def seed_author_def seed_author_id_def seed_message_def)
  show ?thesis
  proof (cases rep)
    case (Reply r)
    with assms(3,4) have e: "e_exec E i st s = Some (Reply r, s')" and t: "t = k r" by simp_all
    from points show ?thesis
    proof cases
      case start
      with assms(2) t seed_step_lock [OF assms(1) start] e show ?thesis by (auto simp: seed_initial_message_def)
    next
      case check
      with assms(2) t seed_step_check [OF assms(1) check] e show ?thesis by (auto simp: seed_check_def)
    next
      case author
      with assms(2) t seed_step_author [OF assms(1) author] e show ?thesis by (auto simp: seed_author_def)
    next
      case author_id
      with assms(2) t seed_step_author_id [OF assms(1) author_id] e show ?thesis by (auto simp: seed_author_id_def)
    next
      case (message key)
      with assms(2) t seed_step_message [OF assms(1) message] e show ?thesis by (auto simp: seed_message_def)
    qed
  qed (use seed_inv_move [OF assms(1,3), of t] h assms(4) in simp_all)
qed

text \<open>The commit: the transaction of a replica that is alone behind the lock, or an empty one.\<close>

lemma seed_inv_commit:
  assumes "seed_inv B d T s" and "T i = seed_commit" and "e_commit E i s = (cr, s')"
    and "t = (case cr of CommitOk \<Rightarrow> Return () | CommitViolation e \<Rightarrow> reraise e | CommitFail e \<Rightarrow> Raise (DatabaseError e))"
  shows "seed_inv B d (T(i := t)) s'"
proof -
  have pt: "seed_point B i s (T i)" using assms(1) by (simp add: seed_inv_def)
  have frame: "\<not> ob_active B i s'" "others_same B i s s'" "ob_committed B s' \<in> {ob_committed B s, ob_view B i s}"
    using commit_end [OF assms(3)] by simp_all
  have ok: "ob_ok B s'" using commit_keeps_ok [OF assms(3)] assms(1) by (simp add: seed_inv_def)
  have mine: "ob_pending B i s' = []" using inactive [OF frame(1)] by simp
  have raised: "cr \<noteq> CommitOk \<Longrightarrow> \<exists>x. t = Raise x"
    using assms(4) by (cases cr) (auto simp: reraise_def)
  have nc: "\<not> critical t P" for P
    using assms(4) by (cases cr) (simp_all add: reraise_def)
  from seed_points(5) [OF pt assms(2)] show ?thesis
  proof
    assume p: "ob_pending B i s = [] \<and> db_messages (ob_committed B s) \<noteq> []"
    then have c: "ob_committed B s' = ob_committed B s" using frame(3) by (auto simp: ob_view_def)
    have "seed_point B i s' t"
      using p c mine raised assms(4) by (cases cr) (auto simp: seed_point_def Let_def)
    with seed_inv_local [OF assms(1) frame(2) c ok] nc show ?thesis by blast
  next
    assume p: "ob_pending B i s \<noteq> [] \<and> db_messages (ob_committed B s) = [] \<and> welcomed (ob_view B i s)
        \<and> \<not> ob_aborted B i s"
    then have crit: "critical (T i) (ob_pending B i s)" using assms(2) by (simp add: critical_def)
    have others: "\<not> critical (T j) (ob_pending B j s)" if "j \<noteq> i" for j
      using assms(1) crit that unfolding seed_inv_def by metis
    have same: "ob_pending B j s' = ob_pending B j s" if "j \<noteq> i" for j
      using frame(2) that by (simp add: others_same_def)
    have d: "db_messages d = []" using assms(1) p by (auto simp: seed_inv_def welcomed_def)
    have w: "ob_committed B s' = ob_committed B s \<or> welcomed (ob_committed B s')" using frame(3) p by auto
    have okw: "cr = CommitOk \<Longrightarrow> welcomed (ob_committed B s')" using commit_ok [of i s s'] assms(3) p by simp
    have m: "welcomed c \<Longrightarrow> db_messages c \<noteq> []" for c by (auto simp: welcomed_def)
    have "seed_point B i s' t"
      using okw m mine raised assms(4) by (cases cr) (auto simp: seed_point_def Let_def)
    moreover have "seed_point B j s' (T j)" if "j \<noteq> i" for j
    proof -
      have "seed_point B j s (T j)" using assms(1) by (simp add: seed_inv_def)
      with others [OF that] p same [OF that] show ?thesis
        by (auto simp: seed_point_def critical_def Let_def)
    qed
    ultimately have "seed_point B j s' ((T(i := t)) j)" for j by (cases "j = i") simp_all
    moreover have "\<not> critical ((T(i := t)) j) (ob_pending B j s')" for j
      using nc others same by (cases "j = i") simp_all
    moreover have "ob_committed B s' = d \<or> db_messages d = [] \<and> welcomed (ob_committed B s')"
      using w d assms(1) p m by (auto simp: seed_inv_def)
    ultimately show ?thesis using ok unfolding seed_inv_def by blast
  qed
qed

lemma seed_inv_rollback:
  assumes "seed_inv B d T s" and "seed_point B i (e_rollback E i s) t" and "\<not> critical t (ob_pending B i (e_rollback E i s))"
  shows "seed_inv B d (T(i := t)) (e_rollback E i s)"
  by (rule seed_inv_local [OF assms(1)])
    (use rollback_end [of i s] rollback_ok [of s i] assms in \<open>auto simp: seed_inv_def\<close>)

lemma seed_inv_advance:
  assumes "seed_inv B d T s" and "advance E C i (T i) (s, c) = Some (t, s', c')"
  shows "seed_inv B d (T(i := t)) s'"
proof -
  have pt: "seed_point B i s (T i)" using assms(1) by (simp add: seed_inv_def)
  show ?thesis
  proof (cases "T i")
    case (Exec st k h)
    with assms(2) obtain rep where "e_exec E i st s = Some (rep, s')"
      "t = (case rep of Reply r \<Rightarrow> k r | Violation e \<Rightarrow> h e | DbFail e \<Rightarrow> Raise (DatabaseError e))"
      by (auto split: option.splits prod.splits reply.splits)
    with seed_inv_exec [OF assms(1) Exec] show ?thesis by blast
  next
    case (Commit k h)
    with pt have sc: "T i = seed_commit" by (auto simp: seed_point_def Let_def) (auto simp: seed_defs)
    from assms(2) sc obtain cr where "e_commit E i s = (cr, s')"
      "t = (case cr of CommitOk \<Rightarrow> Return () | CommitViolation e \<Rightarrow> reraise e | CommitFail e \<Rightarrow> Raise (DatabaseError e))"
      by (auto simp: seed_commit_def split: prod.splits commit_reply.splits)
    with seed_inv_commit [OF assms(1) sc] show ?thesis by blast
  next
    case (Rollback k)
    with pt obtain e where "T i = seed_failed e" by (auto simp: seed_point_def Let_def) (auto simp: seed_defs)
    with assms(2) have "t = Raise (IntegrityError e)" "s' = e_rollback E i s" by (simp_all add: seed_defs)
    with seed_inv_rollback [OF assms(1), of i t] show ?thesis by simp
  next
    case (CacheGet key k)
    with pt show ?thesis by (auto simp: seed_point_def Let_def) (auto simp: seed_defs)
  next
    case (CacheSet key v k)
    with pt show ?thesis by (auto simp: seed_point_def Let_def) (auto simp: seed_defs)
  next
    case (CacheEvict key k)
    with pt show ?thesis by (auto simp: seed_point_def Let_def) (auto simp: seed_defs)
  qed (use assms(2) in simp_all)
qed

lemma seed_reach:
  assumes "reach E B C (\<lambda>_. seed_initial_message) w sched cf" and "idle B (fst w)"
  shows "seed_inv B (ob_committed B (fst w)) (cf_task cf) (cf_db cf)"
  using assms(1)
proof (induction rule: reach.induct)
  case start
  then show ?case using assms(2) inactive by (auto simp: seed_inv_def idle_def seed_point_def Let_def)
next
  case (await sched cf i r)
  obtain t s' c' where "r = (t, s', c')" by (cases r)
  with seed_inv_advance [OF await.IH] await.hyps(2) show ?case by (simp del: fun_upd_apply)
next
  case (close sched cf i)
  have pt: "seed_point B i (cf_db cf) (cf_task cf i)" using close.IH by (simp add: seed_inv_def)
  have e: "\<not> ob_active B i (e_rollback E i (cf_db cf))" "ob_committed B (e_rollback E i (cf_db cf)) = ob_committed B (cf_db cf)"
    using rollback_end [of i "cf_db cf"] by simp_all
  have "(\<exists>x. cf_task cf i = Raise x) \<or> cf_task cf i = Return ()"
    using close.hyps(2) by (cases "cf_task cf i") simp_all
  with pt inactive [OF e(1)] e(2) have "seed_point B i (e_rollback E i (cf_db cf)) (cf_task cf i)"
    "\<not> critical (cf_task cf i) (ob_pending B i (e_rollback E i (cf_db cf)))"
    using seed_points(6) [OF pt] by (auto simp: seed_point_def Let_def)
  with seed_inv_rollback [OF close.IH] have "seed_inv B (ob_committed B (fst w))
      ((cf_task cf)(i := cf_task cf i)) (e_rollback E i (cf_db cf))" by blast
  then show ?case by simp
qed

end

subsection \<open>Properties\<close>

text \<open>
  C7. However many replicas seed the database at once and however their steps interleave, there is
  never more than one welcome message: a database that had messages is left as it was, an empty one
  stays as it was or has exactly the welcome message, by the system author; and once a replica has
  returned, there is a message.
\<close>

theorem exactly_one_welcome_message:
  assumes "sql_engine E B" and "idle B (fst w)" and "reach E B C (\<lambda>_. seed_initial_message) w sched cf"
  shows "(ob_committed B (cf_db cf) = ob_committed B (fst w)
      \<or> db_messages (ob_committed B (fst w)) = [] \<and> welcomed (ob_committed B (cf_db cf)))
    \<and> (cf_task cf i = Return () \<longrightarrow> db_messages (ob_committed B (cf_db cf)) \<noteq> [])"
proof -
  from sql_engine.seed_reach [OF assms(1,3,2)] have inv:
    "seed_inv B (ob_committed B (fst w)) (cf_task cf) (cf_db cf)" .
  then have "seed_point B i (cf_db cf) (cf_task cf i)" by (simp add: seed_inv_def)
  from seed_points(6) [OF this] inv show ?thesis by (auto simp: seed_inv_def)
qed

text \<open>One replica running on its own, for a concrete run.\<close>

fun advance_n :: "'s engine \<Rightarrow> 'c cache_api \<Rightarrow> nat \<Rightarrow> nat \<Rightarrow> 'a prog \<Rightarrow> 's \<times> 'c \<Rightarrow> ('a prog \<times> 's \<times> 'c) option" where
  "advance_n E C i 0 t w = Some (t, w)"
| "advance_n E C i (Suc n) t w =
     (case advance E C i t w of None \<Rightarrow> None | Some (t', w') \<Rightarrow> advance_n E C i n t' w')"

lemma reach_advance_n:
  assumes "reach E B C T w sched cf" and "advance_n E C i n (cf_task cf i) (cf_db cf, cf_cache cf) = Some (t, s, c)"
  shows "\<exists>sched' cf'. reach E B C T w sched' cf' \<and> cf_task cf' i = t \<and> cf_db cf' = s"
  using assms
proof (induction n arbitrary: sched cf)
  case 0
  then show ?case by auto
next
  case (Suc n)
  then obtain t1 s1 c1 where a: "advance E C i (cf_task cf i) (cf_db cf, cf_cache cf) = Some (t1, s1, c1)"
    "advance_n E C i n t1 (s1, c1) = Some (t, s, c)" by (auto split: option.splits)
  from reach.await [OF Suc.prems(1) a(1)] have "reach E B C T w (sched @ [i]) (move B i (t1, s1, c1) cf)" .
  from Suc.IH [OF this] a(2) show ?case by simp
qed

definition empty_state :: ref_db where
  "empty_state = ref_state \<lparr>db_authors = [], db_messages = []\<rparr> 40"

definition seeded_author :: author_row where
  "seeded_author = \<lparr>a_id = 40, a_name = lit ''system'', a_email = SYSTEM_EMAIL, a_created_at = 0\<rparr>"

definition seeded_message :: message_row where
  "seeded_message = \<lparr>m_id = 41, m_title = WELCOME_TITLE, m_content = WELCOME_CONTENT, m_author_id = 40,
     m_created_at = 0, m_version = 0\<rparr>"

lemma seeded_fits: "author_row_fits seeded_author" "message_row_fits seeded_message"
  by (simp_all add: seeded_author_def seeded_message_def author_row_fits_def message_row_fits_def text_fits_def
    SYSTEM_EMAIL_def WELCOME_TITLE_def WELCOME_CONTENT_def lit_def sql_char_def int4_fits_def)

lemma seeding_alone:
  "\<exists>s c. advance_n ref_engine FakeCache 0 6 seed_initial_message (empty_state, empty_cache) = Some (Return (), s, c)"
  using seeded_fits
  by (simp add: eval_nat_numeral seed_defs ref_exec_def ref_commit_def ref_end_def empty_state_def ref_state_def
    ref_view_def ref_pending_def ref_uuid_def insert_author_sem_def insert_message_sem_def Let_def
    seeded_author_def seeded_message_def apply_change.simps authors_where_def)
lemma empty_idle: "idle ref_obs (fst (empty_state, empty_cache))"
  by (simp add: idle_def empty_state_def ref_state_def schema_ok_def)

theorem exactly_one_welcome_message_witness:
  "\<exists>sched cf. reach ref_engine ref_obs FakeCache (\<lambda>_. seed_initial_message) (empty_state, empty_cache) sched cf
     \<and> cf_task cf 0 = Return () \<and> welcomed (ob_committed ref_obs (cf_db cf))"
proof -
  obtain s c where "advance_n ref_engine FakeCache 0 6 seed_initial_message (empty_state, empty_cache) = Some (Return (), s, c)"
    using seeding_alone by blast
  with reach_advance_n [OF reach.start [of ref_engine ref_obs FakeCache "\<lambda>_. seed_initial_message" "(empty_state, empty_cache)"],
      of 0 6 "Return ()" s c]
  obtain sched cf where r: "reach ref_engine ref_obs FakeCache (\<lambda>_. seed_initial_message) (empty_state, empty_cache) sched cf"
    "cf_task cf 0 = Return ()" by auto
  have e: "db_messages (ob_committed ref_obs (fst (empty_state, empty_cache))) = []"
    by (simp add: empty_state_def ref_state_def)
  from exactly_one_welcome_message [OF ref.sql_engine_axioms empty_idle r(1), of 0] r e
  have "welcomed (ob_committed ref_obs (cf_db cf))" by auto
  with r show ?thesis by blast
qed

end
