(* ===== verification/Migrations.thy ===== *)
theory Migrations
  imports Schema Seed
begin

section \<open>Migrations of several replicas at once: \<open>migrations/env.py\<close>\<close>

text \<open>
  Every replica runs \<open>alembic upgrade head\<close> when its container starts, before the server, and all
  of them at once. \<open>run_migrations_online\<close> holds a session-level advisory lock around the run. Here
  any number of replicas take its steps in any order, each of them may be killed at any point, and
  other sessions of the database take and release other locks.
\<close>

subsection \<open>The migration tool\<close>

text \<open>
  Alembic is an argument: \<open>mg_plan\<close> reads the version table and selects the scripts to run, and
  \<open>mg_apply\<close> runs them in one transaction, so that a script that fails leaves the database as it was.
  \<open>head\<close> says that a database is at the newest revision. The laws are Alembic's documented
  behaviour: the plan made for a database, run on that database, brings it to the newest revision,
  and for one that is there the plan changes nothing.
\<close>

record ('v, 'd) migrator =
  mg_plan :: "'d \<Rightarrow> 'v"
  mg_apply :: "'v \<Rightarrow> 'd \<Rightarrow> string + 'd"

locale migration_tool =
  fixes M :: "('v, 'd) migrator" and known :: "'d \<Rightarrow> bool" and head :: "'d \<Rightarrow> bool"
  assumes upgrade_current: "known d \<Longrightarrow> \<exists>d'. mg_apply M (mg_plan M d) d = Inr d' \<and> known d' \<and> head d'"
    and head_stays: "known d \<Longrightarrow> head d \<Longrightarrow> mg_apply M (mg_plan M d) d = Inr d"

subsection \<open>The steps of \<open>run_migrations_online\<close>\<close>

definition MIGRATION_LOCK_KEY :: int where
  "MIGRATION_LOCK_KEY = 7265490000"

text \<open>
  Where a replica is: before the lock, in the \<open>try\<close> block with the lock held (before and after
  Alembic has read the version), in the \<open>finally\<close> block with what the \<open>try\<close> block raised, before
  \<open>engine.dispose()\<close>, and ended with its error, if any.
\<close>

datatype 'v replica =
    Starting
  | Locked
  | Planned 'v
  | Unlocking "string option"
  | Disposing
  | Ended "string option"

fun holding :: "'v replica \<Rightarrow> bool" where
  "holding Locked = True"
| "holding (Planned v) = True"
| "holding (Unlocking r) = True"
| "holding _ = False"

text \<open>The database and its session-level advisory locks, and the replicas.\<close>

record ('v, 'd) fleet =
  fl_db :: 'd
  fl_locks :: "int \<Rightarrow> nat option"
  fl_replica :: "nat \<Rightarrow> 'v replica"

definition moved :: "nat \<Rightarrow> 'v replica \<Rightarrow> ('v, 'd) fleet \<Rightarrow> ('v, 'd) fleet" where
  "moved i r f = f\<lparr>fl_replica := (fl_replica f)(i := r)\<rparr>"

definition take_lock :: "int \<Rightarrow> nat option \<Rightarrow> ('v, 'd) fleet \<Rightarrow> ('v, 'd) fleet" where
  "take_lock key holder f = f\<lparr>fl_locks := (fl_locks f)(key := holder)\<rparr>"

text \<open>
  \<open>fails\<close>: an await in the \<open>try\<close> block raises (a lost connection, a cancelled statement). \<open>dies\<close>: the
  process is killed, or an await outside the block raises and ends it; its sessions end, and the
  server rolls back and frees their locks. \<open>elsewhere\<close>: another session takes or frees another lock.
\<close>

inductive mig_step :: "('v, 'd) migrator \<Rightarrow> ('v, 'd) fleet \<Rightarrow> ('v, 'd) fleet \<Rightarrow> bool" for M where
  lock: "fl_replica f i = Starting \<Longrightarrow> fl_locks f MIGRATION_LOCK_KEY = None \<Longrightarrow>
     mig_step M f (moved i Locked (take_lock MIGRATION_LOCK_KEY (Some i) f))"
| plan: "fl_replica f i = Locked \<Longrightarrow> mig_step M f (moved i (Planned (mg_plan M (fl_db f))) f)"
| migrate: "fl_replica f i = Planned v \<Longrightarrow> mg_apply M v (fl_db f) = Inr d \<Longrightarrow>
     mig_step M f (moved i (Unlocking None) (f\<lparr>fl_db := d\<rparr>))"
| refused: "fl_replica f i = Planned v \<Longrightarrow> mg_apply M v (fl_db f) = Inl e \<Longrightarrow>
     mig_step M f (moved i (Unlocking (Some e)) f)"
| fails: "fl_replica f i = Locked \<or> (\<exists>v. fl_replica f i = Planned v) \<Longrightarrow> mig_step M f (moved i (Unlocking (Some e)) f)"
| unlock: "fl_replica f i = Unlocking r \<Longrightarrow>
     mig_step M f (moved i (case r of None \<Rightarrow> Disposing | Some e \<Rightarrow> Ended (Some e)) (take_lock MIGRATION_LOCK_KEY None f))"
| dispose: "fl_replica f i = Disposing \<Longrightarrow> mig_step M f (moved i (Ended None) f)"
| dies: "\<forall>r. fl_replica f i \<noteq> Ended r \<Longrightarrow>
     mig_step M f (moved i (Ended (Some e)) (f\<lparr>fl_locks := (\<lambda>k. if fl_locks f k = Some i then None else fl_locks f k)\<rparr>))"
| elsewhere: "key \<noteq> MIGRATION_LOCK_KEY \<Longrightarrow> mig_step M f (take_lock key holder f)"

text \<open>A fleet that starts on a database, with the lock free, and the fleets it can become.\<close>

definition starting :: "'d \<Rightarrow> ('v, 'd) fleet \<Rightarrow> bool" where
  "starting d f \<longleftrightarrow> fl_db f = d \<and> fl_locks f MIGRATION_LOCK_KEY = None \<and> (\<forall>i. fl_replica f i = Starting)"

inductive mig_run :: "('v, 'd) migrator \<Rightarrow> ('v, 'd) fleet \<Rightarrow> ('v, 'd) fleet \<Rightarrow> bool" for M f where
  none: "mig_run M f f"
| more: "mig_run M f g \<Longrightarrow> mig_step M g h \<Longrightarrow> mig_run M f h"

subsection \<open>The invariant\<close>

text \<open>
  The lock is held by the one replica between lock and unlock; a plan is the plan of the database
  as it is now; the database is the first one or the migrated one; and who has got past the
  migration without an error has left the migrated one.
\<close>

definition fleet_inv :: "('v, 'd) migrator \<Rightarrow> 'd \<Rightarrow> 'd \<Rightarrow> ('v, 'd) fleet \<Rightarrow> bool" where
  "fleet_inv M d d' f \<longleftrightarrow>
     (\<forall>i. holding (fl_replica f i) \<longleftrightarrow> fl_locks f MIGRATION_LOCK_KEY = Some i)
     \<and> (\<forall>i v. fl_replica f i = Planned v \<longrightarrow> v = mg_plan M (fl_db f))
     \<and> (fl_db f = d \<or> fl_db f = d')
     \<and> (\<forall>i. fl_replica f i \<in> {Unlocking None, Disposing, Ended None} \<longrightarrow> fl_db f = d')"

lemma moved_sel [simp]:
  "fl_db (moved i r f) = fl_db f" "fl_locks (moved i r f) = fl_locks f"
  "fl_replica (moved i r f) = (fl_replica f)(i := r)"
  "fl_db (take_lock k h f) = fl_db f" "fl_locks (take_lock k h f) = (fl_locks f)(k := h)"
  "fl_replica (take_lock k h f) = fl_replica f"
  by (simp_all add: moved_def take_lock_def)

lemma fleet_inv_one:
  "fleet_inv M d d' f \<Longrightarrow> holding (fl_replica f i) \<Longrightarrow> holding (fl_replica f j) \<Longrightarrow> i = j"
  by (simp add: fleet_inv_def)

lemma fleet_inv_step:
  assumes "mig_step M f g" and "fleet_inv M d d' f"
    and "mg_apply M (mg_plan M d) d = Inr d'" and "mg_apply M (mg_plan M d') d' = Inr d'"
  shows "fleet_inv M d d' g"
  using assms(1,2)
proof (cases rule: mig_step.cases)
  case (migrate i v e)
  have "v = mg_plan M (fl_db f)" "fl_db f = d \<or> fl_db f = d'" using migrate assms(2) by (auto simp: fleet_inv_def)
  with migrate(3) assms(3,4) have e: "e = d'" by auto
  have other: "fl_replica f j \<noteq> Planned w" if "j \<noteq> i" for j w
    using fleet_inv_one [OF assms(2), of i j] migrate(2) that by auto
  have "holding (fl_replica g j) \<longleftrightarrow> fl_locks g MIGRATION_LOCK_KEY = Some j" for j
    using assms(2) migrate(1,2) by (auto simp: fleet_inv_def dest: spec [of _ i])
  with migrate(1) e other show ?thesis by (auto simp: fleet_inv_def)
next
  case (refused i v e)
  then have "v = mg_plan M (fl_db f)" "fl_db f = d \<or> fl_db f = d'" using assms(2) by (auto simp: fleet_inv_def)
  with refused(3) assms(3,4) show ?thesis by auto
next
  case (dispose i)
  then have "\<not> holding (fl_replica f i)" by simp
  with assms(2) have "fl_locks f MIGRATION_LOCK_KEY \<noteq> Some i" unfolding fleet_inv_def by blast
  with dispose assms(2) show ?thesis by (auto simp: fleet_inv_def)
qed (auto simp: fleet_inv_def split: option.splits)

lemma fleet_inv_starting: "starting d f \<Longrightarrow> fleet_inv M d d' f"
  by (simp add: starting_def fleet_inv_def)

context migration_tool
begin

definition migrated_db :: "'d \<Rightarrow> 'd" where
  "migrated_db d = (case mg_apply M (mg_plan M d) d of Inl e \<Rightarrow> d | Inr d' \<Rightarrow> d')"

lemma migrated_db:
  assumes "known d"
  shows "mg_apply M (mg_plan M d) d = Inr (migrated_db d)" "known (migrated_db d)" "head (migrated_db d)"
  using upgrade_current [OF assms] by (auto simp: migrated_db_def)

lemma run_inv:
  assumes "known d" and "starting d f" and "mig_run M f g"
  shows "fleet_inv M d (migrated_db d) g"
  using assms(3)
proof (induction rule: mig_run.induct)
  case none
  show ?case using assms(2) by (rule fleet_inv_starting)
next
  case (more g h)
  from fleet_inv_step [OF more.hyps(2) more.IH] migrated_db [OF assms(1)] head_stays
  show ?case by blast
qed

end

text \<open>The two advisory locks of the service never wait for each other.\<close>

lemma lock_keys_differ: "MIGRATION_LOCK_KEY \<noteq> SEED_LOCK_KEY"
  by (simp add: MIGRATION_LOCK_KEY_def SEED_LOCK_KEY_def)

subsection \<open>Alembic with the scripts of this repository\<close>

text \<open>
  The chain has one revision. A database is its catalog with the contents of the version table, and
  running the pending scripts records the new revision in the same transaction.
\<close>

type_synonym versioned = "string option \<times> catalog"

definition alembic :: "(ddl list, versioned) migrator" where
  "alembic =
     \<lparr>mg_plan = (\<lambda>(version, c). if version = down_revision then upgrade else []),
      mg_apply = (\<lambda>script (version, c).
        if script = [] then Inr (version, c)
        else (case run_script script c of Inl e \<Rightarrow> Inl e | Inr c' \<Rightarrow> Inr (Some revision, c')))\<rparr>"

definition known_version :: "versioned \<Rightarrow> bool" where
  "known_version d \<longleftrightarrow>
     d = (None, unmigrated (ct_extensions (snd d))) \<or> d = (Some revision, migrated (ct_extensions (snd d)))"

definition at_head :: "versioned \<Rightarrow> bool" where
  "at_head d \<longleftrightarrow> fst d = Some revision"

lemma known_version_iff:
  "known_version d \<longleftrightarrow> (\<exists>es. d = (None, unmigrated es) \<or> d = (Some revision, migrated es))"
  by (cases d) (auto simp: known_version_def unmigrated_def migrated_def)

lemma alembic_first:
  "mg_apply alembic (mg_plan alembic (None, unmigrated es)) (None, unmigrated es)
     = Inr (Some revision, migrated (with_extension es))"
proof -
  have "upgrade \<noteq> []" by (simp add: upgrade_def)
  then show ?thesis by (simp add: alembic_def down_revision_def run_upgrade)
qed

lemma alembic_again: "mg_apply alembic (mg_plan alembic (Some revision, c)) (Some revision, c) = Inr (Some revision, c)"
  by (simp add: alembic_def down_revision_def)

interpretation chain: migration_tool alembic known_version at_head
proof (unfold_locales, goal_cases)
  case (1 d)
  then show ?case using alembic_first alembic_again by (fastforce simp: known_version_iff at_head_def)
next
  case (2 d)
  then show ?case using alembic_again by (auto simp: known_version_iff at_head_def unmigrated_def)
qed

subsection \<open>What the lock gives\<close>

text \<open>
  C17. Any number of replicas may start on a database at once, in any interleaving and with any of
  them killed or failing on the way: at most one is between lock and unlock, no migration is ever
  refused because another replica was faster, the database is at every moment the one it was or
  the migrated one, and a replica that goes on to start its server leaves behind a database at the
  newest revision.
\<close>

theorem one_replica_migrates:
  assumes "migration_tool M known head" and "known d" and "starting d f" and "mig_run M f g"
  shows "(\<forall>i j. holding (fl_replica g i) \<and> holding (fl_replica g j) \<longrightarrow> i = j)
    \<and> (\<forall>i v e. fl_replica g i = Planned v \<longrightarrow> mg_apply M v (fl_db g) \<noteq> Inl e)
    \<and> (fl_db g = d \<or> mg_apply M (mg_plan M d) d = Inr (fl_db g))
    \<and> (\<forall>i. fl_replica g i = Ended None \<longrightarrow> head (fl_db g))"
proof -
  note m = migration_tool.migrated_db [OF assms(1)]
  have g: "fleet_inv M d (migration_tool.migrated_db M d) g"
    by (rule migration_tool.run_inv [OF assms])
  have same: "mg_apply M (mg_plan M (fl_db g)) (fl_db g) = Inr (migration_tool.migrated_db M d)"
    using g m [OF assms(2)] migration_tool.head_stays [OF assms(1)] by (fastforce simp: fleet_inv_def)
  have "mg_apply M v (fl_db g) \<noteq> Inl e" if "fl_replica g i = Planned v" for i v e
    using g same that by (auto simp: fleet_inv_def)
  moreover have "i = j" if "holding (fl_replica g i)" "holding (fl_replica g j)" for i j
    using fleet_inv_one [OF g that] .
  moreover have "head (fl_db g)" if "fl_replica g i = Ended None" for i
    using g that m(3) [OF assms(2)] by (auto simp: fleet_inv_def)
  moreover have "fl_db g = d \<or> mg_apply M (mg_plan M d) d = Inr (fl_db g)"
    using g m(1) [OF assms(2)] by (auto simp: fleet_inv_def)
  ultimately show ?thesis by blast
qed

text \<open>A run of one replica from the lock to its end.\<close>

lemma one_replica_run:
  assumes "fl_replica f i = Starting" and "fl_locks f MIGRATION_LOCK_KEY = None"
    and "mg_apply M (mg_plan M (fl_db f)) (fl_db f) = Inr d"
  shows "\<exists>g. mig_run M f g \<and> fl_replica g i = Ended None \<and> fl_db g = d"
proof -
  define locked where "locked = moved i Locked (take_lock MIGRATION_LOCK_KEY (Some i) f)"
  define planned where "planned = moved i (Planned (mg_plan M (fl_db f))) locked"
  define applied where "applied = moved i (Unlocking None) (planned\<lparr>fl_db := d\<rparr>)"
  define unlocked where "unlocked = moved i Disposing (take_lock MIGRATION_LOCK_KEY None applied)"
  have "mig_step M f locked" unfolding locked_def using assms(1,2) by (rule mig_step.lock)
  moreover have "mig_step M locked planned"
    using mig_step.plan [of locked i M] by (simp add: planned_def locked_def)
  moreover have "mig_step M planned applied"
    unfolding applied_def
    by (rule mig_step.migrate [where v = "mg_plan M (fl_db f)"]) (use assms(3) in \<open>simp_all add: planned_def locked_def\<close>)
  moreover have "mig_step M applied unlocked"
    using mig_step.unlock [of applied i None M] by (simp add: unlocked_def applied_def)
  moreover have "mig_step M unlocked (moved i (Ended None) unlocked)"
    by (rule mig_step.dispose) (simp add: unlocked_def)
  ultimately have "mig_run M f (moved i (Ended None) unlocked)"
    by (meson mig_run.intros)
  then show ?thesis
    by (intro exI [of _ "moved i (Ended None) unlocked"] conjI) (simp_all add: unlocked_def applied_def)
qed

definition new_fleet :: "(ddl list, versioned) fleet" where
  "new_fleet = \<lparr>fl_db = (None, unmigrated []), fl_locks = (\<lambda>_. None), fl_replica = (\<lambda>_. Starting)\<rparr>"

theorem one_replica_migrates_witness:
  "\<exists>g. mig_run alembic new_fleet g \<and> fl_replica g 0 = Ended None \<and> at_head (fl_db g)
     \<and> (\<forall>i j. holding (fl_replica g i) \<and> holding (fl_replica g j) \<longrightarrow> i = j)"
proof -
  have s: "known_version (None, unmigrated [])" "starting (None, unmigrated []) new_fleet"
    by (auto simp: known_version_iff starting_def new_fleet_def)
  from one_replica_run [of new_fleet 0 alembic "(Some revision, migrated (with_extension []))"] obtain g where
    g: "mig_run alembic new_fleet g" "fl_replica g 0 = Ended None"
    using alembic_first by (auto simp: new_fleet_def)
  from one_replica_migrates [OF chain.migration_tool_axioms s g(1)] g show ?thesis by blast
qed

end
