(* ===== verification/Logging.thy ===== *)
theory Logging
  imports Problems
begin

section \<open>Logs: \<open>app/logging.py\<close>\<close>

text \<open>
  The members the formatter adds to every line, and what \<open>setup_logging\<close> does to the loggers of the
  standard library: uvicorn and Alembic lose their own handlers, so that each of their records
  reaches stdout once, through the JSON handler of the root.
\<close>

subsection \<open>Timestamps\<close>

text \<open>
  \<open>datetime.fromtimestamp(created, UTC).isoformat(timespec="milliseconds")\<close> of a time in
  microseconds since the epoch: the proleptic Gregorian date (the algorithm of the standard
  library's \<open>_ord2ymd\<close>) and the time of the day, with the microseconds cut off.
\<close>

definition leap_year :: "nat \<Rightarrow> bool" where
  "leap_year y \<longleftrightarrow> y mod 4 = 0 \<and> (y mod 100 \<noteq> 0 \<or> y mod 400 = 0)"

definition month_lengths :: "nat \<Rightarrow> nat list" where
  "month_lengths y = [31, if leap_year y then 29 else 28, 31, 30, 31, 30, 31, 31, 30, 31, 30, 31]"

fun month_day :: "nat list \<Rightarrow> nat \<Rightarrow> nat \<Rightarrow> nat \<times> nat" where
  "month_day [] m n = (m, n + 1)"
| "month_day (l # ls) m n = (if n < l then (m, n + 1) else month_day ls (m + 1) (n - l))"

text \<open>The date of a day counted from the first of January of the year 1.\<close>

definition civil :: "nat \<Rightarrow> nat \<times> nat \<times> nat" where
  "civil days =
     (let n = days mod 146097;
          centuries = min 3 (n div 36524);
          n2 = n - centuries * 36524;
          quads = n2 div 1461;
          n3 = n2 mod 1461;
          years = min 3 (n3 div 365);
          y = days div 146097 * 400 + centuries * 100 + quads * 4 + years + 1;
          (m, d) = month_day (month_lengths y) 1 (n3 - years * 365)
      in (y, m, d))"

definition zfill :: "nat \<Rightarrow> pystr \<Rightarrow> pystr" where
  "zfill w s = replicate (w - length s) 48 @ s"

definition EPOCH_DAYS :: nat where
  "EPOCH_DAYS = 719162"

definition iso_milliseconds :: "nat \<Rightarrow> pystr" where
  "iso_milliseconds us =
     (let ms = us div 1000; secs = ms div 1000; (y, m, d) = civil (EPOCH_DAYS + secs div 86400)
      in zfill 4 (nat_str y) @ lit ''-'' @ zfill 2 (nat_str m) @ lit ''-'' @ zfill 2 (nat_str d) @ lit ''T''
         @ zfill 2 (nat_str (secs mod 86400 div 3600)) @ lit '':'' @ zfill 2 (nat_str (secs mod 3600 div 60))
         @ lit '':'' @ zfill 2 (nat_str (secs mod 60)) @ lit ''.'' @ zfill 3 (nat_str (ms mod 1000))
         @ lit ''+00:00'')"

subsection \<open>The members of a line\<close>

text \<open>\<open>format(n, "032x")\<close>: hexadecimal, filled with zeros on the left.\<close>

fun hex_str :: "nat \<Rightarrow> pystr" where
  "hex_str n = (if n < 16 then [hexdigit n] else hex_str (n div 16) @ [hexdigit (n mod 16)])"

declare hex_str.simps [simp del]

definition format_hex :: "nat \<Rightarrow> nat \<Rightarrow> pystr" where
  "format_hex w n = zfill w (hex_str n)"

record log_record =
  lr_created :: nat
  lr_levelname :: pystr
  lr_name :: pystr

record span_context =
  sp_trace_id :: nat
  sp_span_id :: nat
  sp_is_valid :: bool

text \<open>\<open>log_data\<close> is what \<open>JsonFormatter.add_fields\<close> (python-json-logger) has put there.\<close>

definition add_fields :: "span_context \<Rightarrow> log_record \<Rightarrow> (pystr \<times> json) list \<Rightarrow> (pystr \<times> json) list" where
  "add_fields span record log_data =
     (let d1 = dict_set (lit ''timestamp'') (JStr (iso_milliseconds (lr_created record))) log_data;
          d2 = dict_set (lit ''level'') (JStr (lr_levelname record)) d1;
          d3 = dict_set (lit ''logger'') (JStr (lr_name record)) d2
      in if sp_is_valid span
         then dict_set (lit ''span_id'') (JStr (format_hex 16 (sp_span_id span)))
                (dict_set (lit ''trace_id'') (JStr (format_hex 32 (sp_trace_id span))) d3)
         else d3)"

subsection \<open>Loggers\<close>

text \<open>
  \<open>JsonStdout\<close> is the handler \<open>setup_logging\<close> creates; the others are those that uvicorn, Alembic or
  anybody else has installed. A logger that nobody has asked for behaves like one without handlers
  that propagates. The root logger has the empty name.
\<close>

datatype log_handler = JsonStdout | OtherHandler nat

record logger =
  lg_handlers :: "log_handler list"
  lg_propagate :: bool
  lg_level :: nat

type_synonym logging = "pystr \<Rightarrow> logger"

definition ROOT :: pystr where
  "ROOT = []"

text \<open>\<open>Logger.setLevel\<close>: the number of a level name, or a ValueError.\<close>

definition LEVELS :: "(pystr \<times> nat) list" where
  "LEVELS = [(lit ''CRITICAL'', 50), (lit ''FATAL'', 50), (lit ''ERROR'', 40), (lit ''WARN'', 30),
     (lit ''WARNING'', 30), (lit ''INFO'', 20), (lit ''DEBUG'', 10), (lit ''NOTSET'', 0)]"

definition rerouted :: "pystr list" where
  "rerouted = [lit ''uvicorn'', lit ''uvicorn.error'', lit ''uvicorn.access'', lit ''alembic'']"

definition reroute :: "pystr \<Rightarrow> logging \<Rightarrow> logging" where
  "reroute name L = L(name := (L name)\<lparr>lg_handlers := [], lg_propagate := True\<rparr>)"

definition setup_logging :: "pystr \<Rightarrow> logging \<Rightarrow> exn option \<times> logging" where
  "setup_logging level L =
     (let L1 = L(ROOT := (L ROOT)\<lparr>lg_handlers := [JsonStdout]\<rparr>)
      in case map_of LEVELS level of
           None \<Rightarrow> (Some (ValueError (lit ''Unknown level: '' @ level)), L1)
         | Some n \<Rightarrow> (None, fold reroute rerouted (L1(ROOT := (L1 ROOT)\<lparr>lg_level := n\<rparr>))))"

text \<open>
  The standard library's \<open>Logger.callHandlers\<close>: the handlers of the logger, then those of its
  parents (its name up to each of its dots but not two in a row, and the root) as far as the records propagate.
\<close>

definition rfind_dot :: "pystr \<Rightarrow> nat option" where
  "rfind_dot s = find (\<lambda>i. s ! i = 46) (rev [0..<length s])"

lemma rfind_dot_less: "rfind_dot s = Some j \<Longrightarrow> j < length s"
  by (auto simp: rfind_dot_def find_Some_iff rev_nth)

function parents :: "pystr \<Rightarrow> nat \<Rightarrow> pystr list" where
  "parents name i =
     (case rfind_dot (take i name) of
        None \<Rightarrow> []
      | Some j \<Rightarrow> if j = 0 then [] else take j name # parents name (j - 1))"
  by auto

termination
  by (relation "measure snd") (auto dest!: rfind_dot_less)

declare parents.simps [simp del]

definition ancestors :: "pystr \<Rightarrow> pystr list" where
  "ancestors name = (if name = ROOT then [ROOT] else name # parents name (length name) @ [ROOT])"

fun call_handlers :: "logging \<Rightarrow> pystr list \<Rightarrow> log_handler list" where
  "call_handlers L [] = []"
| "call_handlers L (n # ns) = lg_handlers (L n) @ (if lg_propagate (L n) then call_handlers L ns else [])"

definition emitted :: "logging \<Rightarrow> pystr \<Rightarrow> log_handler list" where
  "emitted L name = call_handlers L (ancestors name)"

text \<open>\<open>getEffectiveLevel\<close>: the first level set on the way to the root; 0 is not set.\<close>

fun effective_level :: "logging \<Rightarrow> pystr list \<Rightarrow> nat" where
  "effective_level L [] = 0"
| "effective_level L (n # ns) = (if lg_level (L n) \<noteq> 0 then lg_level (L n) else effective_level L ns)"

subsection \<open>The ids of a span can be read back\<close>

definition hex_val :: "pystr \<Rightarrow> nat" where
  "hex_val s = foldl (\<lambda>acc c. 16 * acc + hex_value c) 0 s"

lemma hex_val_hex_str: "hex_val (hex_str n) = n"
proof (induction n rule: hex_str.induct)
  case (1 n)
  then show ?case
    by (cases "n < 16") (auto simp: hex_str.simps [of n] hex_val_def hex_value_hexdigit)
qed

lemma hex_val_zfill: "hex_val (zfill w s) = hex_val s"
proof -
  have "foldl (\<lambda>acc c. 16 * acc + hex_value c) 0 (replicate k 48) = 0" for k
    by (induction k) (simp_all add: hex_value_def)
  then show ?thesis by (simp add: hex_val_def zfill_def)
qed

lemma length_hex_str: "n < 16 ^ Suc w \<Longrightarrow> length (hex_str n) \<le> Suc w"
proof (induction w arbitrary: n)
  case 0
  then show ?case by (simp add: hex_str.simps [of n])
next
  case (Suc w)
  have "n div 16 < 16 ^ Suc w" using Suc.prems by (simp add: div_less_iff_less_mult mult.commute)
  from Suc.IH [OF this] show ?case by (cases "n < 16") (simp_all add: hex_str.simps [of n])
qed

lemma format_hex_val [simp]: "hex_val (format_hex w n) = n"
  by (simp add: format_hex_def hex_val_zfill hex_val_hex_str)

lemma length_format_hex: "n < 16 ^ Suc w \<Longrightarrow> length (format_hex (Suc w) n) = Suc w"
  using length_hex_str [of n w] by (simp add: format_hex_def zfill_def)

text \<open>
  A line logged while a span is active names it: its members \<open>trace_id\<close> and \<open>span_id\<close> have the 32
  and 16 digits of the W3C format and are read back as the two ids. Without a valid span they are
  not added.
\<close>

theorem log_line_names_the_span:
  assumes "sp_trace_id span < 2 ^ 128" and "sp_span_id span < 2 ^ 64"
    and "map_of data (lit ''trace_id'') = None" and "map_of data (lit ''span_id'') = None"
  shows "if sp_is_valid span
    then (\<exists>t s. map_of (add_fields span entry data) (lit ''trace_id'') = Some (JStr t)
          \<and> map_of (add_fields span entry data) (lit ''span_id'') = Some (JStr s)
          \<and> length t = 32 \<and> length s = 16 \<and> hex_val t = sp_trace_id span \<and> hex_val s = sp_span_id span)
    else map_of (add_fields span entry data) (lit ''trace_id'') = None
          \<and> map_of (add_fields span entry data) (lit ''span_id'') = None"
proof -
  have "length (format_hex 32 (sp_trace_id span)) = 32" "length (format_hex 16 (sp_span_id span)) = 16"
    using assms(1,2) length_format_hex [of "sp_trace_id span" 31] length_format_hex [of "sp_span_id span" 15] by simp_all
  with assms(3,4) show ?thesis by (simp add: add_fields_def Let_def)
qed

theorem log_line_names_the_span_witness:
  "\<exists>t s. map_of (add_fields \<lparr>sp_trace_id = 48879, sp_span_id = 7, sp_is_valid = True\<rparr>
        \<lparr>lr_created = 0, lr_levelname = lit ''INFO'', lr_name = lit ''app''\<rparr> [(lit ''message'', JStr (lit ''hello''))])
      (lit ''trace_id'') = Some (JStr t) \<and> length t = 32 \<and> hex_val t = 48879 \<and> hex_val s = 7"
  using log_line_names_the_span [where span = "\<lparr>sp_trace_id = 48879, sp_span_id = 7, sp_is_valid = True\<rparr>"
      and entry = "\<lparr>lr_created = 0, lr_levelname = lit ''INFO'', lr_name = lit ''app''\<rparr>"
      and data = "[(lit ''message'', JStr (lit ''hello''))]"]
  by auto

subsection \<open>Every record reaches stdout once\<close>

lemma fold_reroute: "fold reroute ns L n = (if n \<in> set ns then (L n)\<lparr>lg_handlers := [], lg_propagate := True\<rparr> else L n)"
  by (induction ns arbitrary: L) (simp_all add: reroute_def)

lemma setup_logging_sel:
  assumes "setup_logging level L = (None, L')"
  shows "lg_handlers (L' ROOT) = [JsonStdout]" "lg_propagate (L' ROOT) = lg_propagate (L ROOT)"
    "n \<in> set rerouted \<Longrightarrow> lg_handlers (L' n) = [] \<and> lg_propagate (L' n)"
    "n \<noteq> ROOT \<Longrightarrow> n \<notin> set rerouted \<Longrightarrow> L' n = L n"
proof -
  from assms obtain l where "L' = fold reroute rerouted (L(ROOT := (L ROOT)\<lparr>lg_handlers := [JsonStdout], lg_level := l\<rparr>))"
    by (auto simp: setup_logging_def Let_def split: option.splits)
  moreover have "ROOT \<notin> set rerouted" by (simp add: ROOT_def rerouted_def)
  ultimately show "lg_handlers (L' ROOT) = [JsonStdout]" "lg_propagate (L' ROOT) = lg_propagate (L ROOT)"
    "n \<in> set rerouted \<Longrightarrow> lg_handlers (L' n) = [] \<and> lg_propagate (L' n)"
    "n \<noteq> ROOT \<Longrightarrow> n \<notin> set rerouted \<Longrightarrow> L' n = L n"
    by (auto simp: fold_reroute)
qed

lemma parents_not_root: "n \<in> set (parents name i) \<Longrightarrow> n \<noteq> ROOT"
proof (induction name i rule: parents.induct)
  case (1 name i)
  show ?case
  proof (cases "rfind_dot (take i name)")
    case None
    with 1(2) show ?thesis by (simp add: parents.simps [of name i])
  next
    case (Some j)
    with 1(2) have "j \<noteq> 0" "n = take j name \<or> n \<in> set (parents name (j - 1))"
      by (simp_all add: parents.simps [of name i] split: if_splits)
    moreover have "take j name \<noteq> ROOT" using rfind_dot_less [OF Some] \<open>j \<noteq> 0\<close> by (auto simp: ROOT_def)
    ultimately show ?thesis using 1(1) [OF Some] by auto
  qed
qed

lemma ancestors_root:
  obtains ns where "ancestors name = ns @ [ROOT]" "ROOT \<notin> set ns"
proof (cases "name = ROOT")
  case True
  show ?thesis by (rule that [of "[]"]) (simp_all add: True ancestors_def)
next
  case False
  show ?thesis
    by (rule that [of "name # parents name (length name)"]) (use False parents_not_root in \<open>auto simp: ancestors_def\<close>)
qed

lemma call_handlers_silent:
  assumes "\<And>n. n \<in> set ns \<Longrightarrow> lg_handlers (L n) = [] \<and> lg_propagate (L n)"
  shows "call_handlers L (ns @ ms) = call_handlers L ms"
  using assms by (induction ns) simp_all

text \<open>
  C39. After \<open>setup_logging\<close> a record of uvicorn, of Alembic or of any logger on whose way to the root
  nobody has installed handlers is written exactly once, by the JSON handler on stdout, whatever
  handlers uvicorn and Alembic had installed before.
\<close>

theorem records_are_logged_once:
  assumes "setup_logging level L = (None, L')"
    and "\<And>n. n \<in> set (ancestors name) \<Longrightarrow> n \<noteq> ROOT \<Longrightarrow> n \<notin> set rerouted \<Longrightarrow> lg_handlers (L n) = [] \<and> lg_propagate (L n)"
  shows "emitted L' name = [JsonStdout]"
proof -
  note L' = setup_logging_sel [OF assms(1)]
  have "lg_handlers (L' n) = [] \<and> lg_propagate (L' n)" if "n \<in> set (ancestors name)" "n \<noteq> ROOT" for n
    using L'(3,4) [of n] assms(2) [of n] that by (cases "n \<in> set rerouted") auto
  moreover obtain ns where "ancestors name = ns @ [ROOT]" "ROOT \<notin> set ns" by (rule ancestors_root)
  ultimately have "emitted L' name = call_handlers L' [ROOT]"
    unfolding emitted_def by (metis Un_iff call_handlers_silent set_append)
  with L'(1) show ?thesis by simp
qed

text \<open>uvicorn with the handlers of its own default configuration.\<close>

definition uvicorn_logging :: logging where
  "uvicorn_logging = (\<lambda>_. \<lparr>lg_handlers = [], lg_propagate = True, lg_level = 0\<rparr>)
     (lit ''uvicorn'' := \<lparr>lg_handlers = [OtherHandler 0], lg_propagate = False, lg_level = 20\<rparr>,
      lit ''uvicorn.access'' := \<lparr>lg_handlers = [OtherHandler 1], lg_propagate = False, lg_level = 20\<rparr>)"

lemma ancestors_uvicorn: "ancestors (lit ''uvicorn.error'') = [lit ''uvicorn.error'', lit ''uvicorn'', ROOT]"
  by (simp add: ancestors_def ROOT_def parents.simps rfind_dot_def lit_def eval_nat_numeral upt_conv_Cons)

theorem records_are_logged_once_witness:
  "\<exists>L'. setup_logging (lit ''INFO'') uvicorn_logging = (None, L') \<and> emitted L' (lit ''uvicorn.error'') = [JsonStdout]"
proof -
  obtain L' where L': "setup_logging (lit ''INFO'') uvicorn_logging = (None, L')"
    by (auto simp: setup_logging_def LEVELS_def Let_def)
  have "emitted L' (lit ''uvicorn.error'') = [JsonStdout]"
    by (rule records_are_logged_once [OF L']) (auto simp: ancestors_uvicorn rerouted_def)
  with L' show ?thesis by blast
qed

end
