(* ===== verification/Spec2Isabelle.thy ===== *)
theory Spec2Isabelle
  imports Snapshots Streaming Observability OpenApi Progress Migrations Logging
begin

text \<open>
  \<^bold>\<open>The message service\<close>

  The program under \<open>src/app\<close> is a REST API over authors and their messages: FastAPI routes, a service
  layer on an asynchronous SQLAlchemy session over PostgreSQL, a Hazelcast cache in front of the
  single messages, errors as RFC 9457 problem documents, metrics and logs, and a process that drains
  before it stops. It runs in several replicas, which migrate the database (\<open>src/migrations\<close>) and seed
  it when they start. This development models its code and proves what makes it correct.

  \<^bold>\<open>A request through the program\<close>

  uvicorn calls the ASGI application with a scope, a \<open>receive\<close> and a \<open>send\<close>. The outermost middleware
  counts and times the request and answers what nobody else has handled (\<open>telemetry.py\<close>); the next one
  limits the body (\<open>middleware.py\<close>). An endpoint (\<open>routers\<close>) validates the path, the query and the body
  (\<open>schemas.py\<close>), runs a handler of the service layer (\<open>services\<close>) in a session of its own (\<open>db.py\<close>) and
  with the cache (\<open>cache.py\<close>), and builds the response; an exception becomes a problem document
  (\<open>errors.py\<close>). Handlers of many requests, and of many replicas, interleave at their awaits: the tables
  and the cache are the state they share.

  \<^bold>\<open>The theories\<close>

  \<^item> \<open>Prelude\<close>, \<open>PyStr\<close>: collections of rewrite rules, rows with keys, dictionaries; the string functions of
    the language and its standard library on lists of code points.
  \<^item> \<open>Problems\<close> (\<open>errors.py\<close> up to the handlers, \<open>routers/problems.py\<close>): JSON values, the registry
    \<open>PROBLEM_TYPES\<close>, the exceptions as the datatype \<open>exn\<close>, \<open>problem_response\<close> and the three exception
    handlers as \<open>handle_exception\<close>.
  \<^item> \<open>Validation\<close> (\<open>schemas.py\<close>, requests): \<open>_clean\<close>, \<open>_clean_email\<close> with its regular expression, \<open>_check_string\<close>
    and the four models as functions from a body to either all its errors or the payload.
  \<^item> \<open>Models\<close> (\<open>models.py\<close>), \<open>Sql\<close>, \<open>Program\<close>, \<open>Engine\<close>, \<open>RefEngine\<close>: rows and their constraints \<open>schema_ok\<close>;
    the statements the handlers issue and what each means on the tables, \<open>sql_sem\<close>; a handler as a tree
    of its awaits, \<open>prog\<close>, with its interpreter \<open>run\<close> and the session around it, \<open>with_session\<close>; the laws
    of the database as the locale \<open>sql_engine\<close>; an executable engine that obeys them.
  \<^item> \<open>Schema\<close>, \<open>Migrations\<close> (\<open>migrations/versions/0001_initial_schema.py\<close>, \<open>migrations/env.py\<close>): the DDL over a
    catalog, the tables the ORM declares, and the advisory lock under which one replica migrates.
  \<^item> \<open>Cache\<close> (\<open>cache.py\<close>, and the cache of \<open>tests/conftest.py\<close>): the protocol as the locale \<open>message_cache\<close>,
    \<open>HazelcastCache\<close> over any member that is a map, and \<open>FakeCache\<close>.
  \<^item> \<open>Sequential\<close>, \<open>Authors\<close>, \<open>Messages\<close> (\<open>services/authors.py\<close>, \<open>services/messages.py\<close>, the response models):
    the ten handlers, a specification of each on the abstract store (a map per table), and the
    refinement lemmas.
  \<^item> \<open>Api\<close>, \<open>ResponseTypes\<close>, \<open>OpenApi\<close> (\<open>routers/messages.py\<close>, \<open>routers/authors.py\<close>, the rest of \<open>errors.py\<close>): the
    endpoints and \<open>serve\<close>, from the raw request to the response; the types of the bodies; the edit of
    the generated OpenAPI document.
  \<^item> \<open>Concurrency\<close>, \<open>Progress\<close>, \<open>Snapshots\<close>: every interleaving of any number of requests as the relation
    \<open>reach\<close>, and what the cache and the reads can show in it.
  \<^item> \<open>Middleware\<close>, \<open>Telemetry\<close> (\<open>middleware.py\<close>, \<open>telemetry.py\<close>): ASGI applications as trees over a \<open>server\<close>
    record, the two middlewares as functions of the application, the state behind the gauges.
  \<^item> \<open>Stack\<close>, \<open>Streaming\<close> (\<open>main.py\<close>): an endpoint behind both middlewares, joined with what is counted, and
    with the reading of a body that arrives in pieces; the property that spans client, metrics and log is in
    this theory.
  \<^item> \<open>Settings\<close>, \<open>Lifecycle\<close>, \<open>Seed\<close>, \<open>Logging\<close> (\<open>settings.py\<close>; \<open>main.py\<close>, \<open>__main__.py\<close>, \<open>state.py\<close>,
    \<open>routers/health.py\<close>; \<open>seed.py\<close>; \<open>logging.py\<close>): the environment, the process as a state machine of
    lifespan, signals and timers, the welcome message of many replicas, and the loggers.
  \<^item> \<open>Observability\<close> (\<open>telemetry.py\<close> from \<open>setup_metrics\<close> on, \<open>tracing.py\<close>, the engine of \<open>db.py\<close>): what the
    lifespan sets up and releases, as the relation \<open>process_run\<close> over the steps of \<open>Lifecycle\<close>, the
    calls of \<open>Cache\<close> and the events of \<open>Telemetry\<close>.

  \<^bold>\<open>State and steps\<close>

  A Python function that awaits the database or the cache is a \<open>prog\<close>: each constructor is one await
  with the continuation of its result and of its IntegrityError, so that the model has exactly the
  points of the source where another request can run. \<open>alone\<close> computes what a program does when no
  other is at work, and the lemma \<open>run_alone\<close> shows once, for every engine and every cache with their
  laws, that running it is that. \<open>advance\<close> is one await, \<open>reach\<close> closes it under interleaving and logs
  each commit. The lifespan with its signals is the relation \<open>proc_step\<close>, and the start of the replicas
  is \<open>mig_step\<close>. Errors are values throughout: a sum with \<open>exn\<close> or \<open>verr list\<close>, \<open>Raise\<close> in a program,
  SQLSTATEs in an answer of the database.

  \<^bold>\<open>What is proved\<close>

  \<^item> Concurrent updates: the version of a message identifies its content and never goes back, an
    answered PATCH was applied to the row the client had read, and no update is lost, for every
    interleaving of every set of requests (\<open>Concurrency\<close>). What the cache holds and a GET answers is a
    message as it was committed at one moment of the run, also when calls fail (\<open>Snapshots\<close>). A request ends after at most four awaits and
    waits for nothing but a lock; after a refused PATCH the next GET is current (\<open>Progress\<close>).
  \<^item> Each handler alone refines its specification, with its errors, and keeps the cache coherent with
    the tables; paging partitions the messages (\<open>Authors\<close>, \<open>Messages\<close>).
  \<^item> Whatever the database and the cache do, every answer has a status its route declares, the 500 of
    \<open>create_app\<close> included, but for the 413 of a declared length over the limit, and a body of the declared
    type; 500 is never the answer to a request alone on a database that works whose texts and version the
    columns can hold; a created message is found at its location (\<open>Api\<close>, \<open>ResponseTypes\<close>, \<open>Stack\<close>); the OpenAPI
    document describes these errors (\<open>OpenApi\<close>).
  \<^item> Problem documents name a registered type and a path that can be decoded; validation reports every
    failing field and has the lengths of the columns as its limits, so that of what it accepts the columns
    refuse only characters they cannot hold and the increment of the greatest version (\<open>Problems\<close>,
    \<open>Validation\<close>, \<open>Messages\<close>); the columns are those the migration creates and the models declare (\<open>Schema\<close>).
  \<^item> Replicas: at most one migrates at a time and none is refused for being late (\<open>Migrations\<close>); however
    many seed at once, there is exactly one welcome message (\<open>Seed\<close>).
  \<^item> The process: readiness is true only between a complete startup and the first signal, the listener
    stays open during the drain, and a signal leads to a clean exit (\<open>Lifecycle\<close>); a ready process has
    its cache, gauges and sampling task, and one whose lifespan ran to its end has released everything once and in order
    (\<open>Observability\<close>).
  \<^item> The middlewares: a body is cut at the limit and a smaller one passes unchanged, however it is cut into
    messages, one over the limit is answered once without running its endpoint (\<open>Streaming\<close>), every measured
    request is counted once with the status the client was sent (500 when the application raised after it
    had started a response), and an unhandled exception is answered
    (\<open>Middleware\<close>, \<open>Telemetry\<close>); through the whole stack the client, the counters and the error codes agree
    (at the end of this theory); records are logged once (\<open>Logging\<close>).
  \<^item> Behaviour a reader might not expect has its own theorems: the cache keeps the old name of a renamed
    author, a body with a NUL character or the greatest version passes validation but not the database, a signal during startup does
    not keep the process from becoming ready, a slow reader leaves an old message in the cache after
    an update or a deletion, so that a deleted message can be answered 200, and a streamed body over the
    limit is answered 400 where the framework wraps the error.

  \<^bold>\<open>Arguments of the model\<close>

  Code that is not in the repository is an argument, with the documented behaviour the code relies on
  as the laws of a locale, each interpreted on a model of the repository or an executable instance:
  the database and session (\<open>engine\<close>, \<open>sql_engine\<close>), the cache member (\<open>hazelcast\<close>, \<open>hazelcast_map\<close>), the
  ASGI server (\<open>server\<close>, \<open>asgi_server\<close>), Alembic (\<open>migrator\<close>, \<open>migration_tool\<close>), FastAPI's reading of a
  body (\<open>body_reader\<close>). pydantic's parsers, the JSON
  text of a cached message and the ISO text of a timestamp are the fields of \<open>api_env\<close>, uvicorn's server
  is \<open>uvicorn\<close>, FastAPI's generated document and the readings of the clocks are plain arguments.

  \<^bold>\<open>Bounds\<close>

  Programs are finite trees and every function terminates; \<open>body_reader\<close> alone has a bound, on the number of
  messages of a body, which the theorems take as any number the body does not exceed. \<open>within\<close> bounds the
  awaits of a request by four, the longest path being the one of \<open>update_message\<close>. The lag monitor keeps
  3000 samples, and for every number of samples up to that the index of the percentile is the one
  the truncated float product has. Durations are rationals, since the rounding of floats is not
  modelled. \<open>int()\<close> refuses more than 4300 digits, as the interpreter does. Ids are 128-bit words and
  versions are integers with the range of the 32-bit column written out.

  \<^bold>\<open>Not modelled\<close>

  OpenTelemetry's providers, exporters and instrumentors and SQLAlchemy's engine with its pool are
  the values the code configures them with; what they do with them is theirs. Matching a path to a
  route, the CORS middleware and the parsing of HTTP are starlette's and uvicorn's. The manifests, shell
  scripts and load tests hold no code of the service. The refusal of Alembic's offline mode at the end of
  \<open>env.py\<close> is a single raise before anything is done.
\<close>

section \<open>The parts together\<close>

text \<open>
  C8. The client, the metrics and the log agree. A request that goes through the middlewares to an
  endpoint and is answered, whatever the database and the cache did, sends the client exactly one
  response and is counted once, with the status of that response; the error counter has a point
  exactly when the response is a problem document, with the code of the document; and an exception
  no handler knows becomes the generic 500, whose body depends on the path only and not on the
  exception.
\<close>

theorem client_and_metrics_agree:
  assumes "reliable_server V sent" and "measured sc" and "length_allowed max_bytes sc"
    and "utf8_encode (sc_path sc) = Some bs"
    and "serve N E C i (sc\<lparr>sc_route := Some template\<rparr>) req w = (Some res, w')"
  shows "\<exists>x sc' obs r. stack max_bytes (endpoint N E C i template req w) V start stop sc v = ((None, sc', x), obs)
    \<and> sent x = sent v @ [ResponseStart (rs_status r) (rs_media r) (rs_headers r), ResponseBody (rs_body r)]
    \<and> (case res of Inr r' \<Rightarrow> r = r' | Inl e \<Rightarrow> r = internal_error_answer (the (py_quote [47] (sc_path sc))))
    \<and> agreeing req (sc_method sc) template r obs"
proof (cases res)
  case (Inr r)
  let ?sc = "serve_scope N E C i (sc\<lparr>sc_route := Some template\<rparr>) req w"
  obtain x where x: "stack max_bytes (endpoint N E C i template req w) V start stop sc v
      = ((None, ?sc, x), request_record start stop ?sc (rs_status r))"
    "sent x = sent v @ [ResponseStart (rs_status r) (rs_media r) (rs_headers r), ResponseBody (rs_body r)]"
    by (rule reliable_server.stack_answers [OF assms(1-3) assms(5) [unfolded Inr]])
  have "agreeing req (sc_method sc) template r (request_record start stop ?sc (rs_status r))"
    using serve_answer [OF assms(5) [unfolded Inr]] by (auto intro: agreeing_success agreeing_problem)
  with x Inr show ?thesis by auto
next
  case (Inl e)
  obtain inst where inst: "py_quote [47] (sc_path sc) = Some inst" using assms(4) by (auto simp: py_quote_def)
  let ?sc = "(serve_scope N E C i (sc\<lparr>sc_route := Some template\<rparr>) req w)
    \<lparr>sc_error_code := Some (lit ''INTERNAL_SERVER_ERROR'')\<rparr>"
  let ?r = "internal_error_answer inst"
  obtain x where x: "stack max_bytes (endpoint N E C i template req w) V start stop sc v
      = ((None, ?sc, x), ExceptionLogged (sc_method sc) # request_record start stop ?sc 500)"
    "sent x = sent v @ [ResponseStart 500 PROBLEM_JSON [], ResponseBody (Some (internal_error inst))]"
    using reliable_server.stack_fails [OF assms(1-3) inst assms(5) [unfolded Inl]] by metis
  have r: "rs_status ?r = 500" "rs_media ?r = PROBLEM_JSON" "rs_headers ?r = []" "rs_body ?r = Some (internal_error inst)"
    by (simp_all add: internal_error_answer_def)
  have "agreeing req (sc_method sc) template ?r (request_record start stop ?sc (rs_status ?r))"
    by (rule agreeing_problem) (simp_all add: internal_error_answer_ok coded_def)
  then have "agreeing req (sc_method sc) template ?r (ExceptionLogged (sc_method sc) # request_record start stop ?sc 500)"
    by (simp add: agreeing_def r)
  with x r Inl inst show ?thesis by (intro exI [of _ x] exI [of _ ?sc] exI [of _ ?r] exI conjI) simp_all
qed

theorem client_and_metrics_agree_witness:
  "\<exists>x sc' obs (r :: response). stack 1024 (endpoint sample_env ref_engine FakeCache 0 (lit ''/messages'') (PostMessage sample_post)
        (sample_state, empty_cache)) wire_server 0 1 (http_scope (lit ''POST'') (lit ''/messages'')) \<lparr>w_in = [], w_out = []\<rparr>
      = ((None, sc', x), obs)
    \<and> w_out x = [ResponseStart (rs_status r) (rs_media r) (rs_headers r), ResponseBody (rs_body r)]
    \<and> rs_status r = 201 \<and> request_points obs = [(lit ''POST'', lit ''/messages'', 201)]"
proof -
  let ?sc = "http_scope (lit ''POST'') (lit ''/messages'')"
  have sc: "measured ?sc" "length_allowed 1024 ?sc" "utf8_encode (sc_path ?sc) = Some (lit ''/messages'')"
    by (simp_all add: measured_def http_scope_def EXCLUDED_PREFIX_def py_startswith_def length_allowed_def
        declared_length_def py_isdigit_def lit_def utf8_char_def)
  obtain r s1 c1 where r: "serve sample_env ref_engine FakeCache 0 (?sc\<lparr>sc_route := Some (lit ''/messages'')\<rparr>)
      (PostMessage sample_post) (sample_state, empty_cache) = (Some (Inr r), s1, c1)" "rs_status r = 201"
    using serve_sample_post by blast
  from client_and_metrics_agree [OF wire.reliable_server_axioms sc r(1), where v = "\<lparr>w_in = [], w_out = []\<rparr>"
      and start = 0 and stop = 1]
  obtain x sc' obs where x: "stack 1024 (endpoint sample_env ref_engine FakeCache 0 (lit ''/messages'') (PostMessage sample_post)
        (sample_state, empty_cache)) wire_server 0 1 ?sc \<lparr>w_in = [], w_out = []\<rparr> = ((None, sc', x), obs)"
    "w_out x = [ResponseStart (rs_status r) (rs_media r) (rs_headers r), ResponseBody (rs_body r)]"
    "agreeing (PostMessage sample_post) (sc_method ?sc) (lit ''/messages'') r obs"
    unfolding sum.case wire.simps append_Nil by blast
  from x(3) r(2) have "request_points obs = [(lit ''POST'', lit ''/messages'', 201)]"
    by (simp add: agreeing_def http_scope_def)
  with x(1,2) r(2) show ?thesis by blast
qed

end
